(* ===== verification/Prelude.thy ===== *)
theory Prelude
  imports Main "HOL-Library.AList" "HOL-Library.List_Lexorder" "HOL-Library.Char_ord"
    "HOL-Library.Sublist" "HOL-Library.Multiset"
begin

text \<open>
  What every component of the development shares: fixed-width integers, Go maps with string
  keys, the parts of \<^verbatim>\<open>strings\<close> and \<^verbatim>\<open>sort\<close> that the sources call, and the
  lemma collections of the library.

  \<^item> An \<open>int32\<close> or \<open>int64\<close> of the sources is an \<^typ>\<open>int\<close> together with the wrap-around
    functions \<open>wrap32\<close> and \<open>wrap64\<close>; a \<^verbatim>\<open>time.Duration\<close> is an \<open>int64\<close> count of
    nanoseconds and a \<^verbatim>\<open>time.Time\<close> the nanoseconds since the zero \<^verbatim>\<open>time.Time\<close>.
  \<^item> A Go map is an association list. The order of the list is the iteration order that the
    runtime happens to choose, so a statement about every list is one about every order.
  \<^item> \<^verbatim>\<open>sort.Slice\<close> takes a strict weak order; the locale \<open>weak_order\<close> holds what
    such an order gives (a permutation whose first element has nothing below it).
\<close>

section \<open>Fixed-width integers, time and durations\<close>

type_synonym duration = int
type_synonym time = int

definition wrap :: "nat \<Rightarrow> int \<Rightarrow> int" where
  "wrap w x = (x + 2 ^ (w - 1)) mod 2 ^ w - 2 ^ (w - 1)"

abbreviation wrap32 :: "int \<Rightarrow> int" where
  "wrap32 \<equiv> wrap 32"

abbreviation wrap64 :: "int \<Rightarrow> int" where
  "wrap64 \<equiv> wrap 64"

definition fits_width :: "nat \<Rightarrow> int \<Rightarrow> bool" where
  "fits_width w x \<longleftrightarrow> - (2 ^ (w - 1)) \<le> x \<and> x < 2 ^ (w - 1)"

definition second :: duration where
  "second = 1000000000"

definition minute :: duration where
  "minute = 60 * second"

text \<open>\<^verbatim>\<open>t.Sub(u)\<close> saturates at the bounds of a \<^verbatim>\<open>time.Duration\<close>; the difference of two
  durations wraps like every \<open>int64\<close>.\<close>

definition time_sub :: "time \<Rightarrow> time \<Rightarrow> duration" where
  "time_sub t u = max (- (2 ^ 63)) (min (2 ^ 63 - 1) (t - u))"

definition dur_sub :: "duration \<Rightarrow> duration \<Rightarrow> duration" where
  "dur_sub a b = wrap64 (a - b)"

definition is_zero_time :: "time \<Rightarrow> bool" where
  "is_zero_time t \<longleftrightarrow> t = 0"

section \<open>Go maps and strings\<close>

type_synonym 'v gomap = "(string \<times> 'v) list"
type_synonym strmap = "string gomap"

text \<open>Reading a missing key of a \<^verbatim>\<open>map[string]string\<close> gives the empty string.\<close>

definition sget :: "strmap \<Rightarrow> string \<Rightarrow> string" where
  "sget m k = (case map_of m k of None \<Rightarrow> [] | Some v \<Rightarrow> v)"

definition has_key :: "'v gomap \<Rightarrow> string \<Rightarrow> bool" where
  "has_key m k \<longleftrightarrow> map_of m k \<noteq> None"

text \<open>The loop \<^verbatim>\<open>for k, v := range src { dst[k] = v }\<close>.\<close>

fun overlay :: "'v gomap \<Rightarrow> 'v gomap \<Rightarrow> 'v gomap" where
  "overlay dst [] = dst"
| "overlay dst ((k, v) # src) = overlay (AList.update k v dst) src"

definition distinct_keys :: "'v gomap \<Rightarrow> bool" where
  "distinct_keys m \<longleftrightarrow> distinct (map fst m)"

fun join :: "string \<Rightarrow> string list \<Rightarrow> string" where
  "join sep [] = []"
| "join sep [s] = s"
| "join sep (s # t # ss) = s @ sep @ join sep (t # ss)"

section \<open>Sorting\<close>

fun insort_by :: "('a \<Rightarrow> 'a \<Rightarrow> bool) \<Rightarrow> 'a \<Rightarrow> 'a list \<Rightarrow> 'a list" where
  "insort_by lt x [] = [x]"
| "insort_by lt x (y # ys) = (if lt y x then y # insort_by lt x ys else x # y # ys)"

definition sort_slice :: "('a \<Rightarrow> 'a \<Rightarrow> bool) \<Rightarrow> 'a list \<Rightarrow> 'a list" where
  "sort_slice lt xs = foldr (insort_by lt) xs []"

section \<open>Lemmas\<close>

named_theorems width_simps \<open>a fixed-width value that is in range is itself\<close>

lemma fits_wrap [width_simps]:
  assumes "fits_width w x" and "0 < w"
  shows "wrap w x = x"
proof -
  have two: "(2::int) ^ w = 2 ^ (w - 1) + 2 ^ (w - 1)"
    using assms(2) by (cases w) simp_all
  have "0 \<le> x + 2 ^ (w - 1)" and "x + 2 ^ (w - 1) < 2 ^ w"
    using assms(1) by (simp_all add: fits_width_def two)
  then show ?thesis by (simp add: wrap_def)
qed

lemma wrap_fits: "0 < w \<Longrightarrow> fits_width w (wrap w x)"
proof -
  assume "0 < w"
  then have two: "(2::int) ^ w = 2 ^ (w - 1) + 2 ^ (w - 1)"
    by (cases w) simp_all
  have "0 \<le> (x + 2 ^ (w - 1)) mod 2 ^ w" and "(x + 2 ^ (w - 1)) mod 2 ^ w < 2 ^ w"
    by simp_all
  then show ?thesis unfolding fits_width_def wrap_def two by linarith
qed

lemma time_sub_exact:
  "- (2 ^ 63) \<le> t - u \<Longrightarrow> t - u < 2 ^ 63 \<Longrightarrow> time_sub t u = t - u"
  by (simp add: time_sub_def)

lemma time_sub_mono: "t \<le> t' \<Longrightarrow> time_sub t u \<le> time_sub t' u"
  by (simp add: time_sub_def)

lemma sget_update [simp]: "sget (AList.update k v m) k' = (if k' = k then v else sget m k')"
  by (simp add: sget_def update_conv)

lemma sget_delete [simp]: "sget (AList.delete k m) k' = (if k' = k then [] else sget m k')"
  by (simp add: sget_def delete_conv)

lemma has_key_update [simp]: "has_key (AList.update k v m) k' \<longleftrightarrow> k' = k \<or> has_key m k'"
  by (simp add: has_key_def update_conv)

lemma has_key_delete [simp]: "has_key (AList.delete k m) k' \<longleftrightarrow> k' \<noteq> k \<and> has_key m k'"
  by (simp add: has_key_def delete_conv)

lemma sget_no_key: "\<not> has_key m k \<Longrightarrow> sget m k = []"
  by (simp add: has_key_def sget_def)

lemma has_key_iff: "has_key m k \<longleftrightarrow> k \<in> fst ` set m"
  by (simp add: has_key_def map_of_eq_None_iff)

lemma delete_no_key: "\<not> has_key m k \<Longrightarrow> AList.delete k m = m"
  by (simp add: has_key_iff delete_idem)

lemma map_of_overlay:
  assumes "distinct_keys src"
  shows "map_of (overlay dst src) = map_of dst ++ map_of src"
  using assms
proof (induction dst src rule: overlay.induct)
  case (1 dst)
  show ?case by simp
next
  case (2 dst k v src)
  then have notin: "k \<notin> dom (map_of src)" and dist: "distinct_keys src"
    by (auto simp: distinct_keys_def dom_map_of_conv_image_fst)
  have "map_of (overlay dst ((k, v) # src)) = (map_of dst)(k \<mapsto> v) ++ map_of src"
    using "2.IH" [OF dist] by (simp add: update_conv' fun_upd_def)
  also have "\<dots> = map_of dst ++ map_of ((k, v) # src)"
    using notin by (simp add: map_add_upd_left)
  finally show ?case .
qed

lemma has_key_overlay: "has_key (overlay dst src) k \<longleftrightarrow> has_key dst k \<or> has_key src k"
  by (induction dst src rule: overlay.induct) (auto simp: has_key_def update_conv)

lemma distinct_keys_update: "distinct_keys m \<Longrightarrow> distinct_keys (AList.update k v m)"
  by (simp add: distinct_keys_def distinct_update)

lemma distinct_keys_delete: "distinct_keys m \<Longrightarrow> distinct_keys (AList.delete k m)"
  by (simp add: distinct_keys_def distinct_delete)

lemma distinct_keys_overlay: "distinct_keys dst \<Longrightarrow> distinct_keys (overlay dst src)"
  by (induction dst src rule: overlay.induct) (simp_all add: distinct_keys_update)

lemma mset_insort_by: "mset (insort_by lt x xs) = add_mset x (mset xs)"
  by (induction xs) auto

lemma mset_sort_slice [simp]: "mset (sort_slice lt xs) = mset xs"
  by (induction xs) (simp_all add: sort_slice_def mset_insort_by)

lemma set_sort_slice [simp]: "set (sort_slice lt xs) = set xs"
  by (metis mset_sort_slice set_mset_mset)

lemma length_sort_slice [simp]: "length (sort_slice lt xs) = length xs"
  by (metis mset_sort_slice size_mset)

lemma sort_slice_Nil [simp]: "sort_slice lt xs = [] \<longleftrightarrow> xs = []"
  by (metis length_0_conv length_sort_slice)

locale weak_order =
  fixes lt :: "'a \<Rightarrow> 'a \<Rightarrow> bool"
  assumes asym: "lt x y \<Longrightarrow> \<not> lt y x"
    and neg_trans: "\<not> lt x y \<Longrightarrow> \<not> lt y z \<Longrightarrow> \<not> lt x z"
begin

lemma insort_by_sorted:
  assumes "sorted_wrt (\<lambda>a b. \<not> lt b a) xs"
  shows "sorted_wrt (\<lambda>a b. \<not> lt b a) (insort_by lt x xs)"
  using assms
proof (induction xs)
  case Nil
  show ?case by simp
next
  case (Cons y ys)
  have set_eq: "set (insort_by lt x ys) = insert x (set ys)"
    by (metis mset_insort_by set_mset_mset set_mset_add_mset_insert)
  show ?case
    using Cons by (auto simp: set_eq dest: asym) (metis neg_trans)
qed

lemma sort_slice_sorted: "sorted_wrt (\<lambda>a b. \<not> lt b a) (sort_slice lt xs)"
  by (induction xs) (simp_all add: sort_slice_def insort_by_sorted)

lemma sort_slice_least:
  assumes "x \<in> set xs"
  shows "\<not> lt x (hd (sort_slice lt xs))"
proof -
  have "x \<in> set (sort_slice lt xs)" using assms by simp
  then show ?thesis
    using sort_slice_sorted [of xs] asym [of x x]
    by (cases "sort_slice lt xs") auto
qed

lemma sort_slice_hd_in: "xs \<noteq> [] \<Longrightarrow> hd (sort_slice lt xs) \<in> set xs"
  using hd_in_set [of "sort_slice lt xs"] by simp

end

end
