(* ===== verification/Effects.thy ===== *)
theory Effects
  imports Prelude
begin

text \<open>
  The effects of the reconcilers. A Go function that talks to the outside (the API server, a
  clock, a power provider, the event recorder) and may return an error is a \<open>prog\<close>: from the
  outside world it computes a result (\<^term>\<open>Inl\<close> the returned error, \<^term>\<open>Inr\<close> the value),
  the list of interactions it had, in order and each with the answer it got, and the world it
  leaves. The type of the world is a parameter throughout, and so is what the world answers.

  The weakest precondition \<open>wp p Q\<close> says that whatever the world answers, the interactions
  and the result of \<open>p\<close> satisfy \<open>Q\<close>: the answers may be stale, contradictory or errors at
  any point. Its rules follow the structure of a program, so the safety proofs of the components
  are the rules of the collection \<open>wp_rules\<close> followed by case distinctions. The predicate
  \<open>emits A p\<close> is the special case that every interaction satisfies \<open>A\<close>.
\<close>

section \<open>Programs\<close>

type_synonym ('w, 'l, 'e, 'a) prog = "'w \<Rightarrow> ('e + 'a) \<times> 'l list \<times> 'w"

definition ret :: "'a \<Rightarrow> ('w, 'l, 'e, 'a) prog" where
  "ret v w = (Inr v, [], w)"

definition throw :: "'e \<Rightarrow> ('w, 'l, 'e, 'a) prog" where
  "throw e w = (Inl e, [], w)"

definition bind :: "('w, 'l, 'e, 'a) prog \<Rightarrow> ('a \<Rightarrow> ('w, 'l, 'e, 'b) prog) \<Rightarrow> ('w, 'l, 'e, 'b) prog" where
  "bind p f w =
     (case p w of
        (Inl e, as, w') \<Rightarrow> (Inl e, as, w')
      | (Inr v, as, w') \<Rightarrow> (case f v w' of (r, bs, w'') \<Rightarrow> (r, as @ bs, w'')))"

text \<open>The idiom \<^verbatim>\<open>if err := f(); err != nil { ... }\<close> whose branch does not return the error as
  it is: the outcome becomes a value to inspect.\<close>

definition attempt :: "('w, 'l, 'e, 'a) prog \<Rightarrow> ('w, 'l, 'e, 'e + 'a) prog" where
  "attempt p w = (case p w of (r, as, w') \<Rightarrow> (Inr r, as, w'))"

text \<open>One interaction: ask the world, record the question with its answer.\<close>

definition call :: "('w \<Rightarrow> ('e + 'a) \<times> 'w) \<Rightarrow> ('e + 'a \<Rightarrow> 'l) \<Rightarrow> ('w, 'l, 'e, 'a) prog" where
  "call f l w = (case f w of (r, w') \<Rightarrow> (r, [l r], w'))"

definition ask :: "('w \<Rightarrow> 'a \<times> 'w) \<Rightarrow> ('a \<Rightarrow> 'l) \<Rightarrow> ('w, 'l, 'e, 'a) prog" where
  "ask f l w = (case f w of (v, w') \<Rightarrow> (Inr v, [l v], w'))"

text \<open>An interaction without an answer (an Event, a counter), and a read that leaves no trace.\<close>

definition tell :: "'l \<Rightarrow> ('w, 'l, 'e, unit) prog" where
  "tell l w = (Inr (), [l], w)"

definition peek :: "('w \<Rightarrow> 'a) \<Rightarrow> ('w, 'l, 'e, 'a) prog" where
  "peek f w = (Inr (f w), [], w)"

text \<open>\<^verbatim>\<open>fmt.Errorf("...: %w", err)\<close> around the error of a call.\<close>

definition map_error :: "('e \<Rightarrow> 'e) \<Rightarrow> ('w, 'l, 'e, 'a) prog \<Rightarrow> ('w, 'l, 'e, 'a) prog" where
  "map_error g p w =
     (case p w of (Inl e, as, w') \<Rightarrow> (Inl (g e), as, w') | (Inr v, as, w') \<Rightarrow> (Inr v, as, w'))"

text \<open>A loop over a slice that threads a value and stops at the first error.\<close>

fun fold_prog :: "('b \<Rightarrow> 'a \<Rightarrow> ('w, 'l, 'e, 'b) prog) \<Rightarrow> 'b \<Rightarrow> 'a list \<Rightarrow> ('w, 'l, 'e, 'b) prog" where
  "fold_prog f acc [] = ret acc"
| "fold_prog f acc (x # xs) = bind (f acc x) (\<lambda>acc'. fold_prog f acc' xs)"

section \<open>Weakest preconditions\<close>

definition wp :: "('w, 'l, 'e, 'a) prog \<Rightarrow> ('l list \<Rightarrow> 'e + 'a \<Rightarrow> bool) \<Rightarrow> bool" where
  "wp p Q \<longleftrightarrow> (\<forall>w. case p w of (r, as, w') \<Rightarrow> Q as r)"

definition emits :: "('l \<Rightarrow> bool) \<Rightarrow> ('w, 'l, 'e, 'a) prog \<Rightarrow> bool" where
  "emits A p \<longleftrightarrow> wp p (\<lambda>as _. list_all A as)"

definition actions :: "('w, 'l, 'e, 'a) prog \<Rightarrow> 'w \<Rightarrow> 'l list" where
  "actions p w = fst (snd (p w))"

definition result :: "('w, 'l, 'e, 'a) prog \<Rightarrow> 'w \<Rightarrow> 'e + 'a" where
  "result p w = fst (p w)"

definition final :: "('w, 'l, 'e, 'a) prog \<Rightarrow> 'w \<Rightarrow> 'w" where
  "final p w = snd (snd (p w))"

section \<open>Rules\<close>

named_theorems wp_rules \<open>introduction rules for weakest preconditions\<close>
named_theorems emits_rules \<open>introduction rules for the interactions of a program\<close>
named_theorems prog_defs \<open>the definitions of the combinators, to run a program\<close>

declare ret_def [prog_defs] throw_def [prog_defs] bind_def [prog_defs] attempt_def [prog_defs]
  call_def [prog_defs] ask_def [prog_defs] tell_def [prog_defs] peek_def [prog_defs]
  map_error_def [prog_defs]

lemma bind_ret: "bind (ret v) f = f v"
  by (rule ext) (simp add: bind_def ret_def split: prod.splits)

lemma bind_assoc: "bind (bind p f) g = bind p (\<lambda>v. bind (f v) g)"
  by (rule ext) (auto simp: bind_def split: prod.splits sum.splits)

lemma wp_iff: "wp p Q \<longleftrightarrow> (\<forall>w. Q (actions p w) (result p w))"
  by (simp add: wp_def actions_def result_def case_prod_unfold)

lemma wpD: "wp p Q \<Longrightarrow> Q (actions p w) (result p w)"
  by (simp add: wp_iff)

lemma wp_run: "wp p Q \<Longrightarrow> p w = (r, as, w') \<Longrightarrow> Q as r"
  by (auto simp: wp_def dest: spec [of _ w])

lemma wp_mono:
  assumes "wp p Q" and "\<And>as r. Q as r \<Longrightarrow> Q' as r"
  shows "wp p Q'"
  using assms by (auto simp: wp_iff)

lemma wp_any: "(\<And>as r. Q as r) \<Longrightarrow> wp p Q"
  by (simp add: wp_iff)

lemma wp_conj: "wp p Q \<Longrightarrow> wp p R \<Longrightarrow> wp p (\<lambda>as r. Q as r \<and> R as r)"
  by (simp add: wp_iff)

lemma wp_ret [wp_rules]: "Q [] (Inr v) \<Longrightarrow> wp (ret v) Q"
  by (simp add: wp_def ret_def)

lemma wp_throw [wp_rules]: "Q [] (Inl e) \<Longrightarrow> wp (throw e) Q"
  by (simp add: wp_def throw_def)

lemma wp_bind [wp_rules]:
  assumes "wp p (\<lambda>as r. case r of Inl e \<Rightarrow> Q as (Inl e)
     | Inr v \<Rightarrow> wp (f v) (\<lambda>bs r'. Q (as @ bs) r'))"
  shows "wp (bind p f) Q"
  unfolding wp_def
proof
  fix w
  obtain r as w' where p: "p w = (r, as, w')" by (cases "p w") auto
  from assms p have step: "case r of Inl e \<Rightarrow> Q as (Inl e) | Inr v \<Rightarrow> wp (f v) (\<lambda>bs r'. Q (as @ bs) r')"
    by (rule wp_run)
  show "case bind p f w of (r, as, w') \<Rightarrow> Q as r"
  proof (cases r)
    case (Inl e)
    with p step show ?thesis by (simp add: bind_def)
  next
    case (Inr v)
    obtain r' bs w'' where f: "f v w' = (r', bs, w'')" by (cases "f v w'") auto
    with step Inr have "Q (as @ bs) r'" by (auto dest: wp_run)
    with p f Inr show ?thesis by (simp add: bind_def)
  qed
qed

lemma wp_bind_any:
  assumes "\<And>as e. Q as (Inl e)" and "\<And>as v. wp (f v) (\<lambda>bs r. Q (as @ bs) r)"
  shows "wp (bind p f) Q"
  by (rule wp_bind, rule wp_any) (use assms in \<open>auto split: sum.splits\<close>)

lemma wp_attempt [wp_rules]: "wp p (\<lambda>as r. Q as (Inr r)) \<Longrightarrow> wp (attempt p) Q"
  by (auto simp: wp_def attempt_def split: prod.splits)

lemma wp_call [wp_rules]:
  "(\<And>e. Q [l (Inl e)] (Inl e)) \<Longrightarrow> (\<And>v. Q [l (Inr v)] (Inr v)) \<Longrightarrow> wp (call f l) Q"
  by (auto simp: wp_def call_def split: prod.splits) (metis sum.exhaust)

lemma wp_ask [wp_rules]: "(\<And>v. Q [l v] (Inr v)) \<Longrightarrow> wp (ask f l) Q"
  by (auto simp: wp_def ask_def split: prod.splits)

lemma wp_tell [wp_rules]: "Q [l] (Inr ()) \<Longrightarrow> wp (tell l) Q"
  by (simp add: wp_def tell_def)

lemma wp_peek [wp_rules]: "(\<And>v. Q [] (Inr v)) \<Longrightarrow> wp (peek f) Q"
  by (simp add: wp_def peek_def)

lemma wp_map_error [wp_rules]:
  "wp p (\<lambda>as r. case r of Inl e \<Rightarrow> Q as (Inl (g e)) | Inr v \<Rightarrow> Q as (Inr v)) \<Longrightarrow> wp (map_error g p) Q"
  by (fastforce simp: wp_def map_error_def split: prod.splits sum.splits)

lemma wp_if [wp_rules]: "(b \<Longrightarrow> wp p Q) \<Longrightarrow> (\<not> b \<Longrightarrow> wp q Q) \<Longrightarrow> wp (if b then p else q) Q"
  by simp

lemma wp_case_option [wp_rules]:
  "(x = None \<Longrightarrow> wp p Q) \<Longrightarrow> (\<And>v. x = Some v \<Longrightarrow> wp (q v) Q) \<Longrightarrow>
   wp (case x of None \<Rightarrow> p | Some v \<Rightarrow> q v) Q"
  by (cases x) simp_all

lemma wp_case_sum [wp_rules]:
  "(\<And>e. x = Inl e \<Longrightarrow> wp (p e) Q) \<Longrightarrow> (\<And>v. x = Inr v \<Longrightarrow> wp (q v) Q) \<Longrightarrow>
   wp (case x of Inl e \<Rightarrow> p e | Inr v \<Rightarrow> q v) Q"
  by (cases x) simp_all

lemma wp_case_list [wp_rules]:
  "(xs = [] \<Longrightarrow> wp p Q) \<Longrightarrow> (\<And>y ys. xs = y # ys \<Longrightarrow> wp (q y ys) Q) \<Longrightarrow>
   wp (case xs of [] \<Rightarrow> p | y # ys \<Rightarrow> q y ys) Q"
  by (cases xs) simp_all

lemma wp_case_prod [wp_rules]:
  "(\<And>a b. x = (a, b) \<Longrightarrow> wp (p a b) Q) \<Longrightarrow> wp (case x of (a, b) \<Rightarrow> p a b) Q"
  by (cases x) simp

lemma wp_let [wp_rules]: "(\<And>y. y = x \<Longrightarrow> wp (p y) Q) \<Longrightarrow> wp (let y = x in p y) Q"
  by simp

text \<open>A loop keeps what each turn keeps; the invariant speaks of the elements done, of the interactions so
  far and of the threaded value.\<close>

lemma wp_fold_prog_prefix:
  assumes start: "I [] [] acc"
    and turn: "\<And>ds x rest bs acc. xs = ds @ x # rest \<Longrightarrow> I ds bs acc \<Longrightarrow>
      wp (f acc x) (\<lambda>as r. case r of Inl e \<Rightarrow> Q (bs @ as) (Inl e) | Inr acc' \<Rightarrow> I (ds @ [x]) (bs @ as) acc')"
    and stop: "\<And>bs acc. I xs bs acc \<Longrightarrow> Q bs (Inr acc)"
  shows "wp (fold_prog f acc xs) Q"
proof -
  have "wp (fold_prog f acc ys) (\<lambda>as r. Q (bs @ as) r)"
    if "xs = ds @ ys" and "I ds bs acc" for ds ys bs acc
    using that
  proof (induction ys arbitrary: ds bs acc)
    case Nil
    then show ?case by (simp add: wp_ret stop)
  next
    case (Cons x ys)
    have next_turn: "wp (fold_prog f acc' ys) (\<lambda>cs r'. Q (bs @ as @ cs) r')" if "I (ds @ [x]) (bs @ as) acc'" for as acc'
      using Cons.IH [of "ds @ [x]" "bs @ as" acc'] Cons.prems that by simp
    have "wp (f acc x) (\<lambda>as r. case r of Inl e \<Rightarrow> Q (bs @ as) (Inl e)
        | Inr acc' \<Rightarrow> wp (fold_prog f acc' ys) (\<lambda>cs r'. Q (bs @ as @ cs) r'))"
      by (rule wp_mono [OF turn [OF Cons.prems]]) (use next_turn in \<open>auto split: sum.splits\<close>)
    then show ?case by (auto intro: wp_bind)
  qed
  from this [of "[]" xs "[]" acc] start show ?thesis by simp
qed

lemma wp_fold_prog:
  assumes "I [] acc"
    and "\<And>bs acc x. x \<in> set xs \<Longrightarrow> I bs acc \<Longrightarrow>
      wp (f acc x) (\<lambda>as r. case r of Inl e \<Rightarrow> Q (bs @ as) (Inl e) | Inr acc' \<Rightarrow> I (bs @ as) acc')"
    and "\<And>bs acc. I bs acc \<Longrightarrow> Q bs (Inr acc)"
  shows "wp (fold_prog f acc xs) Q"
  by (rule wp_fold_prog_prefix [where I = "\<lambda>_. I"]) (use assms in auto)

section \<open>Interactions\<close>

lemma emitsD: "emits A p \<Longrightarrow> list_all A (actions p w)"
  by (auto simp: emits_def dest: wpD)

lemma emits_run: "emits A p \<Longrightarrow> p w = (r, as, w') \<Longrightarrow> a \<in> set as \<Longrightarrow> A a"
  unfolding emits_def by (drule (1) wp_run) (auto simp: list_all_iff)

lemma emits_mono: "emits A p \<Longrightarrow> (\<And>a. A a \<Longrightarrow> B a) \<Longrightarrow> emits B p"
  unfolding emits_def by (erule wp_mono) (auto simp: list_all_iff)

lemma emits_wp: "emits A p \<Longrightarrow> (\<And>as r. list_all A as \<Longrightarrow> Q as r) \<Longrightarrow> wp p Q"
  unfolding emits_def by (erule wp_mono) simp

lemma emits_ret [emits_rules]: "emits A (ret v)"
  by (simp add: emits_def wp_ret)

lemma emits_throw [emits_rules]: "emits A (throw e)"
  by (simp add: emits_def wp_throw)

lemma emits_bind [emits_rules]:
  "emits A p \<Longrightarrow> (\<And>v. emits A (f v)) \<Longrightarrow> emits A (bind p f)"
  unfolding emits_def
  by (rule wp_bind, erule wp_mono) (auto split: sum.splits elim: wp_mono)

lemma emits_attempt [emits_rules]: "emits A p \<Longrightarrow> emits A (attempt p)"
  by (simp add: emits_def wp_attempt)

lemma emits_call [emits_rules]: "(\<And>r. A (l r)) \<Longrightarrow> emits A (call f l)"
  by (simp add: emits_def wp_call)

lemma emits_ask [emits_rules]: "(\<And>v. A (l v)) \<Longrightarrow> emits A (ask f l)"
  by (simp add: emits_def wp_ask)

lemma emits_tell [emits_rules]: "A l \<Longrightarrow> emits A (tell l)"
  by (simp add: emits_def wp_tell)

lemma emits_peek [emits_rules]: "emits A (peek f)"
  by (simp add: emits_def wp_peek)

lemma emits_map_error [emits_rules]: "emits A p \<Longrightarrow> emits A (map_error g p)"
  unfolding emits_def by (rule wp_map_error, erule wp_mono) (auto split: sum.splits)

lemma emits_if [emits_rules]:
  "(b \<Longrightarrow> emits A p) \<Longrightarrow> (\<not> b \<Longrightarrow> emits A q) \<Longrightarrow> emits A (if b then p else q)"
  by simp

lemma emits_case_option [emits_rules]:
  "(x = None \<Longrightarrow> emits A p) \<Longrightarrow> (\<And>v. x = Some v \<Longrightarrow> emits A (q v)) \<Longrightarrow>
   emits A (case x of None \<Rightarrow> p | Some v \<Rightarrow> q v)"
  by (cases x) simp_all

lemma emits_case_sum [emits_rules]:
  "(\<And>e. x = Inl e \<Longrightarrow> emits A (p e)) \<Longrightarrow> (\<And>v. x = Inr v \<Longrightarrow> emits A (q v)) \<Longrightarrow>
   emits A (case x of Inl e \<Rightarrow> p e | Inr v \<Rightarrow> q v)"
  by (cases x) simp_all

lemma emits_case_list [emits_rules]:
  "(xs = [] \<Longrightarrow> emits A p) \<Longrightarrow> (\<And>y ys. xs = y # ys \<Longrightarrow> emits A (q y ys)) \<Longrightarrow>
   emits A (case xs of [] \<Rightarrow> p | y # ys \<Rightarrow> q y ys)"
  by (cases xs) simp_all

lemma emits_case_prod [emits_rules]:
  "(\<And>a b. x = (a, b) \<Longrightarrow> emits A (p a b)) \<Longrightarrow> emits A (case x of (a, b) \<Rightarrow> p a b)"
  by (cases x) simp

lemma emits_let [emits_rules]: "(\<And>y. y = x \<Longrightarrow> emits A (p y)) \<Longrightarrow> emits A (let y = x in p y)"
  by simp

lemma emits_fold_prog [emits_rules]:
  "(\<And>acc x. x \<in> set xs \<Longrightarrow> emits A (f acc x)) \<Longrightarrow> emits A (fold_prog f acc xs)"
  by (induction xs arbitrary: acc) (simp_all add: emits_ret emits_bind)

section \<open>Grounds\<close>

text \<open>Every interaction has its grounds in what came before it: \<open>G A a\<close> says that \<open>a\<close> may follow the interactions \<open>A\<close>.\<close>

fun grounded :: "('l set \<Rightarrow> 'l \<Rightarrow> bool) \<Rightarrow> 'l set \<Rightarrow> 'l list \<Rightarrow> bool" where
  "grounded G A [] \<longleftrightarrow> True"
| "grounded G A (a # as) \<longleftrightarrow> G A a \<and> grounded G (insert a A) as"

lemma grounded_append: "grounded G A (as @ bs) \<longleftrightarrow> grounded G A as \<and> grounded G (A \<union> set as) bs"
  by (induction as arbitrary: A) auto

lemma grounded_at: "grounded G A (pre @ a # post) \<Longrightarrow> G (A \<union> set pre) a"
  by (simp add: grounded_append)

lemma grounded_mono:
  assumes "grounded G A as" and "A \<subseteq> B" and "\<And>A B a. G A a \<Longrightarrow> A \<subseteq> B \<Longrightarrow> G' B a"
  shows "grounded G' B as"
  using assms(1,2)
proof (induction as arbitrary: A B)
  case (Cons a as)
  then show ?case using assms(3) [of A a B] Cons.IH [of "insert a A" "insert a B"] by auto
qed simp

lemma grounded_base: "grounded (\<lambda>A a. B \<subseteq> A \<longrightarrow> G A a) C as \<Longrightarrow> B \<subseteq> C \<Longrightarrow> grounded G C as"
  by (induction as arbitrary: C) auto

lemma grounded_all: "(\<And>A a. a \<in> set as \<Longrightarrow> B \<subseteq> A \<Longrightarrow> G A a) \<Longrightarrow> grounded G B as"
proof (induction as arbitrary: B)
  case (Cons a as)
  then show ?case using Cons.IH [of "insert a B"] by simp
qed simp

lemma grounded_prefix: "grounded G A (as @ bs) \<Longrightarrow> grounded G A as"
  by (simp add: grounded_append)

end
