(* ===== verification/Api_Types.thy ===== *)
theory Api_Types
  imports Prelude
begin

text \<open>
  The data of the program: the \<^verbatim>\<open>Machine\<close> and \<^verbatim>\<open>NodePool\<close> resources of
  \<^verbatim>\<open>api/v1alpha1\<close> with every field of their specs and statuses, the annotation and label keys
  ONP reads and writes, and the fields of the Kubernetes core types (Node, Pod, claims and volumes)
  that the sources read. What only third-party code reads of a core object is kept as an opaque
  string (\<open>pod_rest\<close>, \<open>node_rest\<close>), so that two objects that differ in it stay different.

  Texts of errors, conditions and Events are kept as the format string of the source with its
  arguments; they are compared and never taken apart.
\<close>

section \<open>Errors and texts\<close>

datatype api_reason = NotFound | Invalid | TooManyRequests | Conflict | OtherReason

datatype text_arg = TStr string | TQuoted string | TInt int | TDur duration | TTime time

text \<open>An error of the API machinery, a \<^verbatim>\<open>fmt.Errorf\<close> without and one with a wrapped error.\<close>

datatype go_error =
    ApiError api_reason string
  | Errorf string "text_arg list"
  | Wrapf string "text_arg list" go_error

datatype message = Msg string "text_arg list" | MsgErr string "text_arg list" go_error

text \<open>\<^verbatim>\<open>apierrors.IsNotFound\<close> and its kin look through wrapped errors.\<close>

fun error_reason :: "go_error \<Rightarrow> api_reason option" where
  "error_reason (ApiError r s) = Some r"
| "error_reason (Errorf f as) = None"
| "error_reason (Wrapf f as e) = error_reason e"

definition is_not_found :: "go_error \<Rightarrow> bool" where
  "is_not_found e \<longleftrightarrow> error_reason e = Some NotFound"

definition is_invalid :: "go_error \<Rightarrow> bool" where
  "is_invalid e \<longleftrightarrow> error_reason e = Some Invalid"

definition is_too_many_requests :: "go_error \<Rightarrow> bool" where
  "is_too_many_requests e \<longleftrightarrow> error_reason e = Some TooManyRequests"

section \<open>Core Kubernetes objects\<close>

text \<open>A \<^verbatim>\<open>resource.Quantity\<close> is represented by its value in the smallest unit.\<close>

type_synonym quantity = int
type_synonym resource_list = "quantity gomap"

record taint =
  taint_key :: string
  taint_value :: string
  taint_effect :: string
  taint_timeAdded :: "time option"

record toleration =
  tol_key :: string
  tol_operator :: string
  tol_value :: string
  tol_effect :: string
  tol_seconds :: "int option"

datatype cond_status = CondTrue | CondFalse | CondUnknown

record node_condition =
  nc_type :: string
  nc_status :: cond_status
  nc_lastTransition :: time

record node =
  node_name :: string
  node_labels :: strmap
  node_annotations :: strmap
  node_unschedulable :: bool
  node_taints :: "taint list"
  node_allocatable :: resource_list
  node_conditions :: "node_condition list"
  node_rest :: string

datatype pod_phase = PodPending | PodRunning | PodSucceeded | PodFailed | PodPhaseOther string

record pod_condition =
  pc_type :: string
  pc_status :: cond_status
  pc_reason :: string

record volume =
  vol_name :: string
  vol_claimName :: "string option"
  vol_ephemeral :: bool

record pod =
  pod_namespace :: string
  pod_name :: string
  pod_annotations :: strmap
  pod_ownerKinds :: "string list"
  pod_deletionTimestamp :: "time option"
  pod_nodeName :: string
  pod_tolerations :: "toleration list"
  pod_volumes :: "volume list"
  pod_phase :: pod_phase
  pod_conditions :: "pod_condition list"
  pod_rest :: string

text \<open>A \<^verbatim>\<open>policyv1.Eviction\<close> names the pod to evict.\<close>

record eviction =
  eviction_name :: string
  eviction_namespace :: string

datatype node_selector = NodeSelector string

record claim =
  claim_volumeName :: string

record persistent_volume =
  pv_nodeAffinity :: "node_selector option option"

record label_selector =
  ls_matchLabels :: strmap
  ls_matchExpressions :: "(string \<times> string \<times> string list) list"

section \<open>Machine\<close>

record wol_config =
  wol_macAddress :: string
  wol_broadcastAddress :: string

record power_spec =
  power_provider :: string
  power_wol :: "wol_config option"

record shutdown_spec =
  shutdown_provider :: string

record machine_spec =
  spec_nodeName :: string
  spec_capacity :: resource_list
  spec_labels :: strmap
  spec_power :: power_spec
  spec_shutdown :: "shutdown_spec option"

text \<open>\<open>Unset\<close> is the empty string of a Machine that has not been initialised.\<close>

datatype machine_state = Unset | Off | Booting | Ready | Draining | ShuttingDown | Failed

record condition =
  cond_type :: string
  cond_status :: cond_status
  cond_generation :: int
  cond_reason :: string
  cond_message :: message
  cond_lastTransition :: time

record machine_status =
  st_state :: machine_state
  st_bootStartTime :: "time option"
  st_drainStartTime :: "time option"
  st_emptySince :: "time option"
  st_shutdownStartTime :: "time option"
  st_notReadySince :: "time option"
  st_conditions :: "condition list"

record machine =
  m_name :: string
  m_labels :: strmap
  m_annotations :: strmap
  m_generation :: int
  m_resourceVersion :: string
  m_spec :: machine_spec
  m_status :: machine_status

section \<open>NodePool\<close>

record pool_template =
  tmpl_labels :: strmap
  tmpl_taints :: "taint list"

record disruption_spec =
  dis_consolidationPolicy :: string
  dis_consolidateAfter :: "duration option"
  dis_maxConcurrent :: "int option"

record cooldown_spec =
  cool_scaleUp :: "duration option"
  cool_scaleDown :: "duration option"

record drain_spec =
  drain_timeoutSeconds :: "int option"
  drain_force :: bool

record pool_spec =
  ps_minNodes :: int
  ps_maxNodes :: "int option"
  ps_machineSelector :: label_selector
  ps_template :: pool_template
  ps_disruption :: disruption_spec
  ps_cooldown :: cooldown_spec
  ps_drain :: drain_spec

record pool_status =
  pst_totalMachines :: int
  pst_readyMachines :: int
  pst_lastScaleUpTime :: "time option"
  pst_lastScaleDownTime :: "time option"
  pst_conditions :: "condition list"

record nodepool =
  pool_name :: string
  pool_generation :: int
  pool_resourceVersion :: string
  pool_spec :: pool_spec
  pool_status :: pool_status

section \<open>Keys\<close>

definition AnnotationWakeNow :: string where
  "AnnotationWakeNow = ''onp.io/wake-now''"

definition AnnotationWakeNowValue :: string where
  "AnnotationWakeNowValue = ''true''"

definition AnnotationDrainNow :: string where
  "AnnotationDrainNow = ''onp.io/drain-now''"

definition AnnotationDrainNowValue :: string where
  "AnnotationDrainNowValue = ''true''"

definition AnnotationCordonedByONP :: string where
  "AnnotationCordonedByONP = ''onp.io/cordoned-by-onp''"

definition AnnotationDoNotDisrupt :: string where
  "AnnotationDoNotDisrupt = ''onp.io/do-not-disrupt''"

definition AnnotationDoNotDisruptValue :: string where
  "AnnotationDoNotDisruptValue = ''true''"

definition LabelAlwaysOn :: string where
  "LabelAlwaysOn = ''onp.io/always-on''"

definition LabelAlwaysOnValue :: string where
  "LabelAlwaysOnValue = ''true''"

definition ConditionPowerOnSucceeded :: string where
  "ConditionPowerOnSucceeded = ''PowerOnSucceeded''"

definition ConditionReady :: string where
  "ConditionReady = ''Ready''"

definition ConditionDrainSucceeded :: string where
  "ConditionDrainSucceeded = ''DrainSucceeded''"

definition ConsolidationPolicyWhenEmpty :: string where
  "ConsolidationPolicyWhenEmpty = ''WhenEmpty''"

definition ShutdownProviderAgent :: string where
  "ShutdownProviderAgent = ''agent''"

text \<open>Constants of the Kubernetes API: the Node condition \<^verbatim>\<open>Ready\<close> and the hard taint effects.\<close>

definition NodeReady :: string where
  "NodeReady = ''Ready''"

definition TaintEffectNoSchedule :: string where
  "TaintEffectNoSchedule = ''NoSchedule''"

definition TaintEffectNoExecute :: string where
  "TaintEffectNoExecute = ''NoExecute''"

section \<open>Reading and writing a Machine\<close>

abbreviation state_of :: "machine \<Rightarrow> machine_state" where
  "state_of m \<equiv> st_state (m_status m)"

abbreviation nodeName_of :: "machine \<Rightarrow> string" where
  "nodeName_of m \<equiv> spec_nodeName (m_spec m)"

definition update_status :: "(machine_status \<Rightarrow> machine_status) \<Rightarrow> machine \<Rightarrow> machine" where
  "update_status f m = m\<lparr>m_status := f (m_status m)\<rparr>"

definition set_annotations :: "(strmap \<Rightarrow> strmap) \<Rightarrow> machine \<Rightarrow> machine" where
  "set_annotations f m = m\<lparr>m_annotations := f (m_annotations m)\<rparr>"

definition set_node_annotations :: "(strmap \<Rightarrow> strmap) \<Rightarrow> node \<Rightarrow> node" where
  "set_node_annotations f n = n\<lparr>node_annotations := f (node_annotations n)\<rparr>"

named_theorems key_defs \<open>the annotation, label and condition keys\<close>

declare AnnotationWakeNow_def [key_defs] AnnotationWakeNowValue_def [key_defs]
  AnnotationDrainNow_def [key_defs] AnnotationDrainNowValue_def [key_defs]
  AnnotationCordonedByONP_def [key_defs] AnnotationDoNotDisrupt_def [key_defs]
  AnnotationDoNotDisruptValue_def [key_defs] LabelAlwaysOn_def [key_defs]
  LabelAlwaysOnValue_def [key_defs] ConditionPowerOnSucceeded_def [key_defs]
  ConditionReady_def [key_defs] ConditionDrainSucceeded_def [key_defs]
  ConsolidationPolicyWhenEmpty_def [key_defs] ShutdownProviderAgent_def [key_defs]
  NodeReady_def [key_defs] TaintEffectNoSchedule_def [key_defs] TaintEffectNoExecute_def [key_defs]

lemma trigger_keys_distinct [simp]:
  "AnnotationWakeNow \<noteq> AnnotationDrainNow" "AnnotationDrainNow \<noteq> AnnotationWakeNow"
  by (simp_all add: key_defs)

lemma trigger_values_nonempty [simp]:
  "AnnotationWakeNowValue \<noteq> []" "AnnotationDrainNowValue \<noteq> []"
  "[] \<noteq> AnnotationWakeNowValue" "[] \<noteq> AnnotationDrainNowValue"
  by (simp_all add: key_defs)

lemma update_status_simps [simp]:
  "m_name (update_status f m) = m_name m"
  "m_labels (update_status f m) = m_labels m"
  "m_annotations (update_status f m) = m_annotations m"
  "m_spec (update_status f m) = m_spec m"
  "m_status (update_status f m) = f (m_status m)"
  by (simp_all add: update_status_def)

lemma set_annotations_simps [simp]:
  "m_name (set_annotations f m) = m_name m"
  "m_labels (set_annotations f m) = m_labels m"
  "m_annotations (set_annotations f m) = f (m_annotations m)"
  "m_spec (set_annotations f m) = m_spec m"
  "m_status (set_annotations f m) = m_status m"
  by (simp_all add: set_annotations_def)

lemma set_node_annotations_simps [simp]:
  "node_name (set_node_annotations f n) = node_name n"
  "node_labels (set_node_annotations f n) = node_labels n"
  "node_annotations (set_node_annotations f n) = f (node_annotations n)"
  "node_unschedulable (set_node_annotations f n) = node_unschedulable n"
  "node_taints (set_node_annotations f n) = node_taints n"
  by (simp_all add: set_node_annotations_def)

end
