(* ===== verification/Cluster.thy ===== *)
theory Cluster
  imports Effects Api_Types
begin

text \<open>
  What the program calls and does not contain, as parameters of its model.

  \<^item> \<open>lib\<close> holds the pure helpers of the Kubernetes libraries: label and node selectors, tolerations,
    pod requests, quantities, conditions. The hypothesis on quantities is \<open>quantity_ok\<close>, the
    documented behaviour of comparison, addition and subtraction.
  \<^item> \<open>'w env\<close> holds the client (through the cache or, with reader \<open>Fresh\<close>, straight from the
    API server), the clock and the eviction subresource, each a function of the world. Nothing is
    assumed of them: a read may be stale, a write may fail with any error, and the object that a
    write returns (which the client stores back into the caller's object) is the server's.

  Each call is recorded as an \<open>action\<close> with its answer, so a property of a reconciler is a property
  of the actions it performs. \<^verbatim>\<open>r.Patch\<close> with \<^verbatim>\<open>client.MergeFrom(orig)\<close> is recorded
  with the original and the modified object, whose difference is what it sends.
\<close>

section \<open>Third-party helpers\<close>

record lib =
  LabelSelectorAsSelector :: "label_selector \<Rightarrow> go_error + (strmap \<Rightarrow> bool)"
  FindStatusCondition :: "condition list \<Rightarrow> string \<Rightarrow> condition option"
  quantity_cmp :: "quantity \<Rightarrow> quantity \<Rightarrow> int"
  quantity_add :: "quantity \<Rightarrow> quantity \<Rightarrow> quantity"
  quantity_sub :: "quantity \<Rightarrow> quantity \<Rightarrow> quantity"
  quantity_sign :: "quantity \<Rightarrow> int"
  quantity_string :: "quantity \<Rightarrow> string"
  PodRequests :: "pod \<Rightarrow> resource_list"
  TolerationsTolerateTaint :: "toleration list \<Rightarrow> taint \<Rightarrow> bool"
  FindMatchingUntoleratedTaint :: "taint list \<Rightarrow> toleration list \<Rightarrow> (taint \<Rightarrow> bool) \<Rightarrow> taint option"
  RequiredNodeAffinityMatch :: "pod \<Rightarrow> node \<Rightarrow> go_error + bool"
  NewNodeSelector :: "node_selector \<Rightarrow> go_error + (node \<Rightarrow> bool)"

definition quantity_ok :: "lib \<Rightarrow> bool" where
  "quantity_ok L \<longleftrightarrow>
     (\<forall>a b. quantity_cmp L a b = sgn (a - b)) \<and>
     (\<forall>a b. quantity_add L a b = a + b) \<and>
     (\<forall>a b. quantity_sub L a b = a - b) \<and>
     (\<forall>a. quantity_sign L a = sgn a)"

section \<open>Interactions\<close>

datatype reader = Cached | Fresh

datatype object_ref = MachineObj string | PodObj string string | PoolObj string

datatype event_type = Normal | Warning

datatype action =
    ReadClock time
  | GetMachine string "go_error + machine"
  | GetNode string "go_error + node"
  | GetPod string string "go_error + pod"
  | GetPool reader string "go_error + nodepool"
  | GetClaim string string "go_error + claim"
  | GetVolume string "go_error + persistent_volume"
  | ListPools "go_error + nodepool list"
  | ListMachines "go_error + machine list"
  | ListMachinesOnNode string "go_error + machine list"
  | ListMachinesMatching reader label_selector "go_error + machine list"
  | ListPods "go_error + pod list"
  | ListPodsOnNode reader string "go_error + pod list"
  | UpdateMachineStatus machine "go_error + machine"
  | PatchMachine machine machine "go_error + machine"
  | PatchMachineStatus machine machine "go_error + machine"
  | PatchNode node node "go_error + node"
  | UpdatePoolStatus nodepool "go_error + nodepool"
  | PatchPoolStatus nodepool nodepool "go_error + nodepool"
  | EvictPod pod "go_error + unit"
  | PowerOnCall string machine "go_error + unit"
  | RecordEvent object_ref event_type string message
  | CountPowerOn string string
  | ObserveLatency duration
  | CountDrainFailure string
  | PowerOffHost "go_error + unit"
  | ReadBootTime "go_error + time"

record 'w env =
  env_lib :: lib
  env_now :: "'w \<Rightarrow> time \<times> 'w"
  env_get_machine :: "string \<Rightarrow> 'w \<Rightarrow> (go_error + machine) \<times> 'w"
  env_get_node :: "string \<Rightarrow> 'w \<Rightarrow> (go_error + node) \<times> 'w"
  env_get_pod :: "string \<Rightarrow> string \<Rightarrow> 'w \<Rightarrow> (go_error + pod) \<times> 'w"
  env_get_pool :: "reader \<Rightarrow> string \<Rightarrow> 'w \<Rightarrow> (go_error + nodepool) \<times> 'w"
  env_get_claim :: "string \<Rightarrow> string \<Rightarrow> 'w \<Rightarrow> (go_error + claim) \<times> 'w"
  env_get_volume :: "string \<Rightarrow> 'w \<Rightarrow> (go_error + persistent_volume) \<times> 'w"
  env_list_pools :: "'w \<Rightarrow> (go_error + nodepool list) \<times> 'w"
  env_list_machines :: "'w \<Rightarrow> (go_error + machine list) \<times> 'w"
  env_list_machines_on_node :: "string \<Rightarrow> 'w \<Rightarrow> (go_error + machine list) \<times> 'w"
  env_list_machines_matching :: "reader \<Rightarrow> label_selector \<Rightarrow> 'w \<Rightarrow> (go_error + machine list) \<times> 'w"
  env_list_pods :: "'w \<Rightarrow> (go_error + pod list) \<times> 'w"
  env_list_pods_on_node :: "reader \<Rightarrow> string \<Rightarrow> 'w \<Rightarrow> (go_error + pod list) \<times> 'w"
  env_update_machine_status :: "machine \<Rightarrow> 'w \<Rightarrow> (go_error + machine) \<times> 'w"
  env_patch_machine :: "machine \<Rightarrow> machine \<Rightarrow> 'w \<Rightarrow> (go_error + machine) \<times> 'w"
  env_patch_machine_status :: "machine \<Rightarrow> machine \<Rightarrow> 'w \<Rightarrow> (go_error + machine) \<times> 'w"
  env_patch_node :: "node \<Rightarrow> node \<Rightarrow> 'w \<Rightarrow> (go_error + node) \<times> 'w"
  env_update_pool_status :: "nodepool \<Rightarrow> 'w \<Rightarrow> (go_error + nodepool) \<times> 'w"
  env_patch_pool_status :: "nodepool \<Rightarrow> nodepool \<Rightarrow> 'w \<Rightarrow> (go_error + nodepool) \<times> 'w"
  env_create_eviction :: "pod \<Rightarrow> eviction \<Rightarrow> 'w \<Rightarrow> (go_error + unit) \<times> 'w"
  env_set_status_condition :: "'w \<Rightarrow> condition list \<Rightarrow> condition \<Rightarrow> condition list"

type_synonym ('w, 'a) go = "('w, action, go_error, 'a) prog"

definition now :: "'w env \<Rightarrow> ('w, time) go" where
  "now E = ask (env_now E) ReadClock"

definition since :: "'w env \<Rightarrow> time \<Rightarrow> ('w, duration) go" where
  "since E t = bind (now E) (\<lambda>n. ret (time_sub n t))"

definition get_machine :: "'w env \<Rightarrow> string \<Rightarrow> ('w, machine) go" where
  "get_machine E n = call (env_get_machine E n) (GetMachine n)"

definition get_node :: "'w env \<Rightarrow> string \<Rightarrow> ('w, node) go" where
  "get_node E n = call (env_get_node E n) (GetNode n)"

definition get_pod :: "'w env \<Rightarrow> string \<Rightarrow> string \<Rightarrow> ('w, pod) go" where
  "get_pod E ns n = call (env_get_pod E ns n) (GetPod ns n)"

definition get_pool :: "'w env \<Rightarrow> reader \<Rightarrow> string \<Rightarrow> ('w, nodepool) go" where
  "get_pool E rd n = call (env_get_pool E rd n) (GetPool rd n)"

definition get_claim :: "'w env \<Rightarrow> string \<Rightarrow> string \<Rightarrow> ('w, claim) go" where
  "get_claim E ns n = call (env_get_claim E ns n) (GetClaim ns n)"

definition get_volume :: "'w env \<Rightarrow> string \<Rightarrow> ('w, persistent_volume) go" where
  "get_volume E n = call (env_get_volume E n) (GetVolume n)"

definition list_pools :: "'w env \<Rightarrow> ('w, nodepool list) go" where
  "list_pools E = call (env_list_pools E) ListPools"

definition list_machines :: "'w env \<Rightarrow> ('w, machine list) go" where
  "list_machines E = call (env_list_machines E) ListMachines"

definition list_machines_on_node :: "'w env \<Rightarrow> string \<Rightarrow> ('w, machine list) go" where
  "list_machines_on_node E n = call (env_list_machines_on_node E n) (ListMachinesOnNode n)"

definition list_machines_matching :: "'w env \<Rightarrow> reader \<Rightarrow> label_selector \<Rightarrow> ('w, machine list) go" where
  "list_machines_matching E rd s = call (env_list_machines_matching E rd s) (ListMachinesMatching rd s)"

definition list_pods :: "'w env \<Rightarrow> ('w, pod list) go" where
  "list_pods E = call (env_list_pods E) ListPods"

definition list_pods_on_node :: "'w env \<Rightarrow> reader \<Rightarrow> string \<Rightarrow> ('w, pod list) go" where
  "list_pods_on_node E rd n = call (env_list_pods_on_node E rd n) (ListPodsOnNode rd n)"

definition update_machine_status :: "'w env \<Rightarrow> machine \<Rightarrow> ('w, machine) go" where
  "update_machine_status E m = call (env_update_machine_status E m) (UpdateMachineStatus m)"

definition patch_machine :: "'w env \<Rightarrow> machine \<Rightarrow> machine \<Rightarrow> ('w, machine) go" where
  "patch_machine E orig m = call (env_patch_machine E orig m) (PatchMachine orig m)"

definition patch_machine_status :: "'w env \<Rightarrow> machine \<Rightarrow> machine \<Rightarrow> ('w, machine) go" where
  "patch_machine_status E orig m = call (env_patch_machine_status E orig m) (PatchMachineStatus orig m)"

definition patch_node :: "'w env \<Rightarrow> node \<Rightarrow> node \<Rightarrow> ('w, node) go" where
  "patch_node E orig n = call (env_patch_node E orig n) (PatchNode orig n)"

definition update_pool_status :: "'w env \<Rightarrow> nodepool \<Rightarrow> ('w, nodepool) go" where
  "update_pool_status E p = call (env_update_pool_status E p) (UpdatePoolStatus p)"

definition patch_pool_status :: "'w env \<Rightarrow> nodepool \<Rightarrow> nodepool \<Rightarrow> ('w, nodepool) go" where
  "patch_pool_status E orig p = call (env_patch_pool_status E orig p) (PatchPoolStatus orig p)"

definition event :: "object_ref \<Rightarrow> event_type \<Rightarrow> string \<Rightarrow> message \<Rightarrow> ('w, unit) go" where
  "event obj ty reason msg = tell (RecordEvent obj ty reason msg)"

section \<open>What a reconcile returns, and classes of interactions\<close>

datatype requeue = NoRequeue | RequeueNow | RequeueAfter duration

text \<open>What a watch delivers to the event predicates of a controller.\<close>

datatype 'a watch_event = CreateEvent 'a | UpdateEvent 'a 'a | DeleteEvent 'a | GenericEvent 'a

text \<open>Reads, Events and metrics change nothing in the cluster.\<close>

fun is_read :: "action \<Rightarrow> bool" where
  "is_read (ReadClock t) = True"
| "is_read (GetMachine n r) = True"
| "is_read (GetNode n r) = True"
| "is_read (GetPod ns n r) = True"
| "is_read (GetPool rd n r) = True"
| "is_read (GetClaim ns n r) = True"
| "is_read (GetVolume n r) = True"
| "is_read (ListPools r) = True"
| "is_read (ListMachines r) = True"
| "is_read (ListMachinesOnNode n r) = True"
| "is_read (ListMachinesMatching rd s r) = True"
| "is_read (ListPods r) = True"
| "is_read (ListPodsOnNode rd n r) = True"
| "is_read (ReadBootTime r) = True"
| "is_read _ = False"

fun is_report :: "action \<Rightarrow> bool" where
  "is_report (RecordEvent obj ty reason msg) = True"
| "is_report (CountPowerOn p r) = True"
| "is_report (ObserveLatency d) = True"
| "is_report (CountDrainFailure r) = True"
| "is_report _ = False"

definition is_passive :: "action \<Rightarrow> bool" where
  "is_passive a \<longleftrightarrow> is_read a \<or> is_report a"

section \<open>Rules for the client\<close>

named_theorems client_defs \<open>the definitions of the client's operations\<close>

declare now_def [client_defs] since_def [client_defs] get_machine_def [client_defs]
  get_node_def [client_defs] get_pod_def [client_defs] get_pool_def [client_defs]
  get_claim_def [client_defs] get_volume_def [client_defs] list_pools_def [client_defs]
  list_machines_def [client_defs] list_machines_on_node_def [client_defs]
  list_machines_matching_def [client_defs] list_pods_def [client_defs]
  list_pods_on_node_def [client_defs] update_machine_status_def [client_defs]
  patch_machine_def [client_defs] patch_machine_status_def [client_defs]
  patch_node_def [client_defs] update_pool_status_def [client_defs]
  patch_pool_status_def [client_defs] event_def [client_defs]

lemma is_passive_simps [simp]:
  "is_read a \<Longrightarrow> is_passive a" "is_report a \<Longrightarrow> is_passive a"
  "\<not> is_passive (UpdateMachineStatus m r)" "\<not> is_passive (PatchMachine m m' r)"
  "\<not> is_passive (PatchMachineStatus m m' r)" "\<not> is_passive (PatchNode n n' rn)"
  "\<not> is_passive (UpdatePoolStatus p rp)" "\<not> is_passive (PatchPoolStatus p p' rp)"
  "\<not> is_passive (EvictPod pd ru)" "\<not> is_passive (PowerOnCall s m ru)" "\<not> is_passive (PowerOffHost ru)"
  by (simp_all add: is_passive_def)

lemma quantity_okD:
  assumes "quantity_ok L"
  shows "quantity_cmp L a b = sgn (a - b)" "quantity_add L a b = a + b"
    "quantity_sub L a b = a - b" "quantity_sign L a = sgn a"
  using assms by (simp_all add: quantity_ok_def)

end
