(* ===== verification/Guards.thy ===== *)
theory Guards
  imports Cluster
begin

text \<open>
  The safety predicates of \<^verbatim>\<open>internal/controller/guards.go\<close> and the pod predicates of
  \<^verbatim>\<open>machine_controller.go\<close>: is a Node always-on, is it Ready, did it go down since an instant,
  which other Machines claim it, which pods keep it from being powered off and which of them a drain
  may evict. Each predicate that reads the cluster comes with its contract as a rule of
  \<open>wp_rules\<close>: which answer makes it say what.
\<close>

section \<open>Pods\<close>

definition mirrorPodAnnotation :: string where
  "mirrorPodAnnotation = ''kubernetes.io/config.mirror''"

definition hasDoNotDisrupt :: "pod \<Rightarrow> bool" where
  "hasDoNotDisrupt pod \<longleftrightarrow> sget (pod_annotations pod) AnnotationDoNotDisrupt = AnnotationDoNotDisruptValue"

definition isWorkload :: "pod \<Rightarrow> bool" where
  "isWorkload pod =
     (if pod_phase pod = PodSucceeded \<or> pod_phase pod = PodFailed then False
      else if has_key (pod_annotations pod) mirrorPodAnnotation then False
      else if list_ex (\<lambda>kind. kind = ''DaemonSet'') (pod_ownerKinds pod) then False
      else True)"

definition isDrainable :: "pod \<Rightarrow> bool \<Rightarrow> bool" where
  "isDrainable pod force =
     (if \<not> isWorkload pod \<or> pod_deletionTimestamp pod \<noteq> None then False
      else if force then True
      else \<not> hasDoNotDisrupt pod)"

definition keepsNodeOn :: "pod \<Rightarrow> bool" where
  "keepsNodeOn pod =
     (if isWorkload pod then True
      else (let finished = (pod_phase pod = PodSucceeded \<or> pod_phase pod = PodFailed)
            in \<not> finished \<and> hasDoNotDisrupt pod))"

definition podsKeepingNodeOn :: "'w env \<Rightarrow> string \<Rightarrow> ('w, pod list) go" where
  "podsKeepingNodeOn E nodeName =
     (if nodeName = [] then ret []
      else bind (list_pods_on_node E Cached nodeName) (\<lambda>pods. ret (filter keepsNodeOn pods)))"

section \<open>Nodes\<close>

text \<open>\<^verbatim>\<open>backingNode\<close>: the named Node, or nil when there is none.\<close>

definition backingNode :: "'w env \<Rightarrow> string \<Rightarrow> ('w, node option) go" where
  "backingNode E nodeName =
     (if nodeName = [] then ret None
      else bind (attempt (get_node E nodeName)) (\<lambda>r. case r of
             Inl e \<Rightarrow> if is_not_found e then ret None
                      else throw (Wrapf ''get node %q: %w'' [TQuoted nodeName] e)
           | Inr node \<Rightarrow> ret (Some node)))"

definition alwaysOnLabelled :: "node \<Rightarrow> bool" where
  "alwaysOnLabelled node \<longleftrightarrow> sget (node_labels node) LabelAlwaysOn = LabelAlwaysOnValue"

definition nodeAlwaysOn :: "'w env \<Rightarrow> string \<Rightarrow> ('w, bool) go" where
  "nodeAlwaysOn E nodeName =
     (if nodeName = [] then ret False
      else bind (attempt (get_node E nodeName)) (\<lambda>r. case r of
             Inl e \<Rightarrow> if is_not_found e then ret False
                      else throw (Wrapf ''get node %q for always-on check: %w'' [TQuoted nodeName] e)
           | Inr node \<Rightarrow> ret (alwaysOnLabelled node)))"

text \<open>The loops over \<^verbatim>\<open>node.Status.Conditions\<close> return at the first condition of type
  \<^verbatim>\<open>Ready\<close>.\<close>

definition readyCondition :: "node \<Rightarrow> node_condition option" where
  "readyCondition node = find (\<lambda>c. nc_type c = NodeReady) (node_conditions node)"

definition reportsReady :: "node \<Rightarrow> bool" where
  "reportsReady node = (case readyCondition node of None \<Rightarrow> False | Some c \<Rightarrow> nc_status c = CondTrue)"

definition reportsDownSince :: "node \<Rightarrow> time \<Rightarrow> bool" where
  "reportsDownSince node t =
     (case readyCondition node of
        None \<Rightarrow> False
      | Some c \<Rightarrow> nc_status c \<noteq> CondTrue \<and> \<not> nc_lastTransition c < t)"

definition nodeIsReady :: "'w env \<Rightarrow> string \<Rightarrow> ('w, bool) go" where
  "nodeIsReady E nodeName =
     (if nodeName = [] then ret False
      else bind (attempt (get_node E nodeName)) (\<lambda>r. case r of
             Inl e \<Rightarrow> if is_not_found e then ret False else throw e
           | Inr node \<Rightarrow> ret (reportsReady node)))"

definition nodeWentDownSince :: "'w env \<Rightarrow> string \<Rightarrow> time \<Rightarrow> ('w, bool) go" where
  "nodeWentDownSince E nodeName t =
     (if nodeName = [] then ret True
      else bind (attempt (get_node E nodeName)) (\<lambda>r. case r of
             Inl e \<Rightarrow> if is_not_found e then ret True
                      else throw (Wrapf ''get node %q for power-off check: %w'' [TQuoted nodeName] e)
           | Inr node \<Rightarrow> ret (reportsDownSince node t)))"

text \<open>\<^verbatim>\<open>nothingKeepsNodeOn\<close> reads through the reader it is given; its callers pass the
  uncached one.\<close>

definition nothingKeepsNodeOn :: "'w env \<Rightarrow> reader \<Rightarrow> string \<Rightarrow> ('w, bool) go" where
  "nothingKeepsNodeOn E rd nodeName =
     bind (map_error (Wrapf ''list pods on node %q: %w'' [TQuoted nodeName])
             (list_pods_on_node E rd nodeName))
       (\<lambda>pods. ret (\<not> list_ex keepsNodeOn pods))"

section \<open>Machines on a Node, reserved labels\<close>

definition otherMachinesOnNode :: "'w env \<Rightarrow> machine \<Rightarrow> ('w, string list) go" where
  "otherMachinesOnNode E m =
     (if nodeName_of m = [] then ret []
      else bind (map_error (Wrapf ''list machines on node %q: %w'' [TQuoted (nodeName_of m)])
                   (list_machines_on_node E (nodeName_of m)))
             (\<lambda>machines. ret (map m_name (filter (\<lambda>other. m_name other \<noteq> m_name m) machines))))"

definition reservedNodeLabels :: "string list" where
  "reservedNodeLabels = [LabelAlwaysOn]"

text \<open>\<^verbatim>\<open>dropReservedLabels\<close> deletes in place; the model returns the map that is left and the keys
  it dropped.\<close>

fun dropLabels :: "string list \<Rightarrow> strmap \<Rightarrow> strmap \<times> string list" where
  "dropLabels [] labels = (labels, [])"
| "dropLabels (k # ks) labels =
     (if has_key labels k
      then (case dropLabels ks (AList.delete k labels) of (l, dropped) \<Rightarrow> (l, k # dropped))
      else dropLabels ks labels)"

definition dropReservedLabels :: "strmap \<Rightarrow> strmap \<times> string list" where
  "dropReservedLabels labels = dropLabels reservedNodeLabels labels"

section \<open>The pod predicates\<close>

lemma isDrainable_iff:
  "isDrainable pod force \<longleftrightarrow>
     isWorkload pod \<and> pod_deletionTimestamp pod = None \<and> (force \<or> \<not> hasDoNotDisrupt pod)"
  by (simp add: isDrainable_def)

lemma isDrainable_keepsNodeOn: "isDrainable pod force \<Longrightarrow> keepsNodeOn pod"
  by (simp add: isDrainable_iff keepsNodeOn_def)

lemma isWorkload_iff:
  "isWorkload pod \<longleftrightarrow>
     pod_phase pod \<notin> {PodSucceeded, PodFailed} \<and>
     \<not> has_key (pod_annotations pod) mirrorPodAnnotation \<and> ''DaemonSet'' \<notin> set (pod_ownerKinds pod)"
  by (auto simp: isWorkload_def list_ex_iff)

lemma keepsNodeOn_iff:
  "keepsNodeOn pod \<longleftrightarrow>
     pod_phase pod \<notin> {PodSucceeded, PodFailed} \<and> (isWorkload pod \<or> hasDoNotDisrupt pod)"
  by (auto simp: keepsNodeOn_def isWorkload_iff)

lemma protected_pod_keepsNodeOn:
  "hasDoNotDisrupt pod \<Longrightarrow> pod_phase pod \<notin> {PodSucceeded, PodFailed} \<Longrightarrow> keepsNodeOn pod"
  by (simp add: keepsNodeOn_iff)

section \<open>Contracts\<close>

lemma wp_podsKeepingNodeOn [wp_rules]:
  assumes "n = [] \<Longrightarrow> Q [] (Inr [])"
    and "\<And>e. n \<noteq> [] \<Longrightarrow> Q [ListPodsOnNode Cached n (Inl e)] (Inl e)"
    and "\<And>pods. n \<noteq> [] \<Longrightarrow> Q [ListPodsOnNode Cached n (Inr pods)] (Inr (filter keepsNodeOn pods))"
  shows "wp (podsKeepingNodeOn E n) Q"
  unfolding podsKeepingNodeOn_def list_pods_on_node_def
  by (auto intro!: wp_rules assms)

lemma wp_backingNode [wp_rules]:
  assumes "n = [] \<Longrightarrow> Q [] (Inr None)"
    and "\<And>e. n \<noteq> [] \<Longrightarrow> is_not_found e \<Longrightarrow> Q [GetNode n (Inl e)] (Inr None)"
    and "\<And>e. n \<noteq> [] \<Longrightarrow> \<not> is_not_found e \<Longrightarrow>
      Q [GetNode n (Inl e)] (Inl (Wrapf ''get node %q: %w'' [TQuoted n] e))"
    and "\<And>nd. n \<noteq> [] \<Longrightarrow> Q [GetNode n (Inr nd)] (Inr (Some nd))"
  shows "wp (backingNode E n) Q"
  unfolding backingNode_def get_node_def
  by (auto intro!: wp_rules assms)

lemma wp_nodeAlwaysOn [wp_rules]:
  assumes "n = [] \<Longrightarrow> Q [] (Inr False)"
    and "\<And>e. n \<noteq> [] \<Longrightarrow> is_not_found e \<Longrightarrow> Q [GetNode n (Inl e)] (Inr False)"
    and "\<And>e. n \<noteq> [] \<Longrightarrow> \<not> is_not_found e \<Longrightarrow>
      Q [GetNode n (Inl e)] (Inl (Wrapf ''get node %q for always-on check: %w'' [TQuoted n] e))"
    and "\<And>nd. n \<noteq> [] \<Longrightarrow> Q [GetNode n (Inr nd)] (Inr (alwaysOnLabelled nd))"
  shows "wp (nodeAlwaysOn E n) Q"
  unfolding nodeAlwaysOn_def get_node_def
  by (auto intro!: wp_rules assms)

lemma wp_nodeIsReady [wp_rules]:
  assumes "n = [] \<Longrightarrow> Q [] (Inr False)"
    and "\<And>e. n \<noteq> [] \<Longrightarrow> is_not_found e \<Longrightarrow> Q [GetNode n (Inl e)] (Inr False)"
    and "\<And>e. n \<noteq> [] \<Longrightarrow> \<not> is_not_found e \<Longrightarrow> Q [GetNode n (Inl e)] (Inl e)"
    and "\<And>nd. n \<noteq> [] \<Longrightarrow> Q [GetNode n (Inr nd)] (Inr (reportsReady nd))"
  shows "wp (nodeIsReady E n) Q"
  unfolding nodeIsReady_def get_node_def
  by (auto intro!: wp_rules assms)

lemma wp_nodeWentDownSince [wp_rules]:
  assumes "n = [] \<Longrightarrow> Q [] (Inr True)"
    and "\<And>e. n \<noteq> [] \<Longrightarrow> is_not_found e \<Longrightarrow> Q [GetNode n (Inl e)] (Inr True)"
    and "\<And>e. n \<noteq> [] \<Longrightarrow> \<not> is_not_found e \<Longrightarrow>
      Q [GetNode n (Inl e)] (Inl (Wrapf ''get node %q for power-off check: %w'' [TQuoted n] e))"
    and "\<And>nd. n \<noteq> [] \<Longrightarrow> Q [GetNode n (Inr nd)] (Inr (reportsDownSince nd t))"
  shows "wp (nodeWentDownSince E n t) Q"
  unfolding nodeWentDownSince_def get_node_def
  by (auto intro!: wp_rules assms)

lemma wp_nothingKeepsNodeOn [wp_rules]:
  assumes "\<And>e. Q [ListPodsOnNode rd n (Inl e)] (Inl (Wrapf ''list pods on node %q: %w'' [TQuoted n] e))"
    and "\<And>pods. Q [ListPodsOnNode rd n (Inr pods)] (Inr (\<not> list_ex keepsNodeOn pods))"
  shows "wp (nothingKeepsNodeOn E rd n) Q"
  unfolding nothingKeepsNodeOn_def list_pods_on_node_def
  by (auto intro!: wp_rules assms)

lemma wp_otherMachinesOnNode [wp_rules]:
  assumes "nodeName_of m = [] \<Longrightarrow> Q [] (Inr [])"
    and "\<And>e. Q [ListMachinesOnNode (nodeName_of m) (Inl e)]
      (Inl (Wrapf ''list machines on node %q: %w'' [TQuoted (nodeName_of m)] e))"
    and "\<And>ms. Q [ListMachinesOnNode (nodeName_of m) (Inr ms)]
      (Inr (map m_name (filter (\<lambda>other. m_name other \<noteq> m_name m) ms)))"
  shows "wp (otherMachinesOnNode E m) Q"
  unfolding otherMachinesOnNode_def list_machines_on_node_def
  by (auto intro!: wp_rules assms)

lemma dropLabels_fst: "fst (dropLabels ks labels) = fold AList.delete ks labels"
  by (induction ks labels rule: dropLabels.induct) (auto split: prod.splits simp: delete_no_key)

lemma dropReservedLabels_fst: "fst (dropReservedLabels labels) = AList.delete LabelAlwaysOn labels"
  by (simp add: dropReservedLabels_def reservedNodeLabels_def delete_no_key)

end
