(* ===== verification/Pools.thy ===== *)
theory Pools
  imports Guards
begin

text \<open>
  Membership of Machines in NodePools and the drain policy that follows from it
  (\<^verbatim>\<open>matchingPools\<close>, \<^verbatim>\<open>poolForMachine\<close>, \<^verbatim>\<open>drainPolicy\<close> and their helpers
  in \<^verbatim>\<open>machine_controller.go\<close>), and the event mappers of \<^verbatim>\<open>mapping.go\<close>. A Machine
  that matches several pools belongs to none of them; its drain is never forced and its budget is the
  shortest of theirs.
\<close>

section \<open>Drain policy of a pool\<close>

definition defaultDrainTimeout :: duration where
  "defaultDrainTimeout = 300 * second"

definition poolDrainPolicy :: "nodepool option \<Rightarrow> duration \<times> bool" where
  "poolDrainPolicy pool =
     (case pool of
        None \<Rightarrow> (defaultDrainTimeout, False)
      | Some p \<Rightarrow>
          (case drain_timeoutSeconds (ps_drain (pool_spec p)) of
             None \<Rightarrow> defaultDrainTimeout
           | Some secs \<Rightarrow> wrap64 (secs * second),
           drain_force (ps_drain (pool_spec p))))"

text \<open>The first pool of the slice starts the minimum, the loop goes over the others.\<close>

fun shortestDrainTimeout :: "duration \<Rightarrow> nodepool list \<Rightarrow> duration" where
  "shortestDrainTimeout shortest [] = shortest"
| "shortestDrainTimeout shortest (p # ps) =
     (let t = fst (poolDrainPolicy (Some p))
      in shortestDrainTimeout (if t < shortest then t else shortest) ps)"

definition conservativeDrainTimeout :: "nodepool \<Rightarrow> nodepool list \<Rightarrow> duration" where
  "conservativeDrainTimeout p ps = shortestDrainTimeout (fst (poolDrainPolicy (Some p))) ps"

section \<open>Membership\<close>

text \<open>Does the pool's machineSelector select these labels? A malformed selector selects nothing.\<close>

definition selects :: "lib \<Rightarrow> nodepool \<Rightarrow> strmap \<Rightarrow> bool" where
  "selects L pool labels =
     (case LabelSelectorAsSelector L (ps_machineSelector (pool_spec pool)) of
        Inl e \<Rightarrow> False
      | Inr matches \<Rightarrow> matches labels)"

definition poolBefore :: "nodepool \<Rightarrow> nodepool \<Rightarrow> bool" where
  "poolBefore a b \<longleftrightarrow> pool_name a < pool_name b"

definition poolsOf :: "lib \<Rightarrow> nodepool list \<Rightarrow> machine \<Rightarrow> nodepool list" where
  "poolsOf L pools m = sort_slice poolBefore (filter (\<lambda>p. selects L p (m_labels m)) pools)"

definition matchingPools :: "'w env \<Rightarrow> machine \<Rightarrow> ('w, nodepool list) go" where
  "matchingPools E m =
     bind (map_error (Wrapf ''list nodepools for machine %q: %w'' [TQuoted (m_name m)]) (list_pools E))
       (\<lambda>pools. ret (poolsOf (env_lib E) pools m))"

definition poolForMachine :: "'w env \<Rightarrow> machine \<Rightarrow> ('w, nodepool option \<times> nodepool list) go" where
  "poolForMachine E m =
     bind (matchingPools E m) (\<lambda>pools.
       case pools of
         [] \<Rightarrow> ret (None, [])
       | [p] \<Rightarrow> ret (Some p, [])
       | _ \<Rightarrow> ret (None, pools))"

definition drainPolicy :: "'w env \<Rightarrow> machine \<Rightarrow> ('w, duration \<times> bool) go" where
  "drainPolicy E m =
     bind (poolForMachine E m) (\<lambda>(pool, conflict).
       case conflict of
         p # ps \<Rightarrow> ret (conservativeDrainTimeout p ps, False)
       | [] \<Rightarrow> ret (poolDrainPolicy pool))"

text \<open>The policy as a function of the pools that select the Machine.\<close>

definition drainPolicyOf :: "nodepool list \<Rightarrow> duration \<times> bool" where
  "drainPolicyOf pools =
     (case pools of
        [] \<Rightarrow> poolDrainPolicy None
      | [p] \<Rightarrow> poolDrainPolicy (Some p)
      | p # ps \<Rightarrow> (conservativeDrainTimeout p ps, False))"

definition nameBefore :: "string \<Rightarrow> string \<Rightarrow> bool" where
  "nameBefore a b \<longleftrightarrow> a < b"

definition poolNames :: "nodepool list \<Rightarrow> string" where
  "poolNames pools = join '', '' (sort_slice nameBefore (map pool_name pools))"

section \<open>Event mappers\<close>

text \<open>A request is the name of a cluster-scoped object; a list error is logged and maps to nothing.\<close>

definition machineRequests :: "machine list \<Rightarrow> string list" where
  "machineRequests machines = map m_name machines"

definition requestsForMachinesOnNode :: "'w env \<Rightarrow> string \<Rightarrow> ('w, string list) go" where
  "requestsForMachinesOnNode E nodeName =
     (if nodeName = [] then ret []
      else bind (attempt (list_machines_on_node E nodeName)) (\<lambda>r. case r of
             Inl e \<Rightarrow> ret []
           | Inr machines \<Rightarrow> ret (machineRequests machines)))"

definition requestsForPoolMembers :: "'w env \<Rightarrow> nodepool \<Rightarrow> ('w, string list) go" where
  "requestsForPoolMembers E pool =
     (case LabelSelectorAsSelector (env_lib E) (ps_machineSelector (pool_spec pool)) of
        Inl e \<Rightarrow> ret []
      | Inr _ \<Rightarrow>
          bind (attempt (list_machines_matching E Cached (ps_machineSelector (pool_spec pool)))) (\<lambda>r. case r of
             Inl e \<Rightarrow> ret []
           | Inr machines \<Rightarrow> ret (machineRequests machines)))"

section \<open>Orders by name\<close>

interpretation by_pool_name: weak_order poolBefore
  by unfold_locales (auto simp: poolBefore_def)

interpretation by_name: weak_order nameBefore
  by unfold_locales (auto simp: nameBefore_def)

section \<open>Policy\<close>

lemma poolDrainPolicy_timeout:
  assumes "drain_timeoutSeconds (ps_drain (pool_spec p)) = Some secs" and "fits_width 32 secs"
  shows "fst (poolDrainPolicy (Some p)) = secs * second"
proof -
  have "fits_width 64 (secs * second)"
    using assms(2) by (simp add: fits_width_def second_def)
  with assms(1) show ?thesis by (simp add: poolDrainPolicy_def fits_wrap)
qed

lemma shortestDrainTimeout_le: "shortestDrainTimeout t ps \<le> t"
  by (induction t ps rule: shortestDrainTimeout.induct) (auto simp: Let_def split: if_splits)

lemma shortestDrainTimeout_le_each:
  "p \<in> set ps \<Longrightarrow> shortestDrainTimeout t ps \<le> fst (poolDrainPolicy (Some p))"
proof (induction t ps rule: shortestDrainTimeout.induct)
  case (2 t q qs)
  let ?t = "if fst (poolDrainPolicy (Some q)) < t then fst (poolDrainPolicy (Some q)) else t"
  have "shortestDrainTimeout ?t qs \<le> ?t" by (rule shortestDrainTimeout_le)
  with 2 show ?case by (auto simp: Let_def split: if_splits)
qed simp

lemma shortestDrainTimeout_attained:
  "shortestDrainTimeout t ps \<in> insert t ((\<lambda>p. fst (poolDrainPolicy (Some p))) ` set ps)"
  by (induction t ps rule: shortestDrainTimeout.induct) (auto simp: Let_def split: if_splits)

lemma conservativeDrainTimeout_shortest:
  "q \<in> set (p # ps) \<Longrightarrow> conservativeDrainTimeout p ps \<le> fst (poolDrainPolicy (Some q))"
  using shortestDrainTimeout_le shortestDrainTimeout_le_each
  by (auto simp: conservativeDrainTimeout_def)

section \<open>Contracts\<close>

lemma wp_matchingPools [wp_rules]:
  assumes "\<And>e. Q [ListPools (Inl e)] (Inl (Wrapf ''list nodepools for machine %q: %w'' [TQuoted (m_name m)] e))"
    and "\<And>pools. Q [ListPools (Inr pools)] (Inr (poolsOf (env_lib E) pools m))"
  shows "wp (matchingPools E m) Q"
  unfolding matchingPools_def list_pools_def
  by (auto intro!: wp_rules assms)

lemma wp_poolForMachine [wp_rules]:
  assumes "\<And>e. Q [ListPools (Inl e)] (Inl (Wrapf ''list nodepools for machine %q: %w'' [TQuoted (m_name m)] e))"
    and "\<And>pools. poolsOf (env_lib E) pools m = [] \<Longrightarrow> Q [ListPools (Inr pools)] (Inr (None, []))"
    and "\<And>pools p. poolsOf (env_lib E) pools m = [p] \<Longrightarrow> Q [ListPools (Inr pools)] (Inr (Some p, []))"
    and "\<And>pools p q ps. poolsOf (env_lib E) pools m = p # q # ps \<Longrightarrow>
      Q [ListPools (Inr pools)] (Inr (None, p # q # ps))"
  shows "wp (poolForMachine E m) Q"
  unfolding poolForMachine_def
  using assms by (auto intro!: wp_rules split: list.splits)

lemma wp_drainPolicy [wp_rules]:
  assumes "\<And>e. Q [ListPools (Inl e)] (Inl (Wrapf ''list nodepools for machine %q: %w'' [TQuoted (m_name m)] e))"
    and "\<And>pools. Q [ListPools (Inr pools)] (Inr (drainPolicyOf (poolsOf (env_lib E) pools m)))"
  shows "wp (drainPolicy E m) Q"
  unfolding drainPolicy_def
proof (rule wp_bind, rule wp_poolForMachine, goal_cases)
  case (1 e)
  show ?case using assms(1) by simp
next
  case (2 pools)
  then show ?case using assms(2) [of pools] by (simp add: wp_ret drainPolicyOf_def)
next
  case (3 pools p)
  then show ?case using assms(2) [of pools] by (simp add: wp_ret drainPolicyOf_def)
next
  case (4 pools p q ps)
  then show ?case using assms(2) [of pools] by (simp add: wp_ret drainPolicyOf_def)
qed

lemma drainPolicyOf_force:
  "snd (drainPolicyOf pools) \<longleftrightarrow> (\<exists>p. pools = [p] \<and> drain_force (ps_drain (pool_spec p)))"
  by (auto simp: drainPolicyOf_def poolDrainPolicy_def split: list.splits)

lemma set_poolsOf: "set (poolsOf L pools m) = {p \<in> set pools. selects L p (m_labels m)}"
  by (simp add: poolsOf_def)

end
