(* ===== verification/Power_Provider.thy ===== *)
theory Power_Provider
  imports Cluster
begin

text \<open>
  Package \<^verbatim>\<open>internal/power\<close>: the \<^verbatim>\<open>PowerProvider\<close> interface as a record of its
  methods, the capabilities a provider declares, and the registry that maps provider names to
  implementations.
\<close>

section \<open>Providers\<close>

datatype power_state = StateOn | StateOff | StateUnknown

record capabilities =
  CanPowerOn :: bool
  CanPowerOff :: bool
  CanQueryStatus :: bool

record 'w provider =
  prov_Name :: string
  prov_PowerOn :: "machine \<Rightarrow> 'w \<Rightarrow> (go_error + unit) \<times> 'w"
  prov_PowerOff :: "machine \<Rightarrow> 'w \<Rightarrow> (go_error + unit) \<times> 'w"
  prov_PowerStatus :: "machine \<Rightarrow> 'w \<Rightarrow> (power_state \<times> go_error option) \<times> 'w"
  prov_Capabilities :: capabilities

definition ErrUnsupported :: go_error where
  "ErrUnsupported = Errorf ''power: operation not supported by provider'' []"

section \<open>Registry\<close>

type_synonym 'w registry = "'w provider gomap"

definition NewRegistry :: "'w registry" where
  "NewRegistry = []"

definition Register :: "'w registry \<Rightarrow> 'w provider \<Rightarrow> go_error + 'w registry" where
  "Register r p =
     (let name = prov_Name p
      in if has_key r name
         then Inl (Errorf ''power: provider %q already registered'' [TQuoted name])
         else Inr (AList.update name p r))"

definition registry_get :: "'w registry \<Rightarrow> string \<Rightarrow> 'w provider option" where
  "registry_get r name = map_of r name"

text \<open>One call of \<^verbatim>\<open>PowerOn\<close>, recorded under the name the Machine's spec gives.\<close>

definition power_on :: "'w provider \<Rightarrow> machine \<Rightarrow> ('w, unit) go" where
  "power_on p m = call (prov_PowerOn p m) (PowerOnCall (power_provider (spec_power (m_spec m))) m)"

text \<open>Every registered provider is filed under its own name.\<close>

definition registry_wf :: "'w registry \<Rightarrow> bool" where
  "registry_wf r \<longleftrightarrow> distinct_keys r \<and> list_all (\<lambda>(n, p). prov_Name p = n) r"

section \<open>Facts\<close>

lemma registry_wf_New: "registry_wf NewRegistry"
  by (simp add: registry_wf_def NewRegistry_def distinct_keys_def)

lemma set_AList_update_new:
  "\<not> has_key r k \<Longrightarrow> set (AList.update k v r) = insert (k, v) (set r)"
  by (induction r) (auto simp: has_key_iff)

lemma Register_wf: "registry_wf r \<Longrightarrow> Register r p = Inr r' \<Longrightarrow> registry_wf r'"
  by (auto simp: registry_wf_def Register_def Let_def distinct_keys_update list_all_iff
      set_AList_update_new split: if_splits)

lemma Register_get:
  "Register r p = Inr r' \<Longrightarrow>
   registry_get r' n = (if n = prov_Name p then Some p else registry_get r n)"
  by (auto simp: Register_def Let_def registry_get_def update_conv split: if_splits)

end
