(* ===== verification/Machine_Controller.thy ===== *)
theory Machine_Controller
  imports Pools Power_Provider
begin

text \<open>
  \<^verbatim>\<open>internal/controller/machine_controller.go\<close>: the state machine of one Machine. Each method of
  \<^verbatim>\<open>MachineReconciler\<close> is one definition of the same name; the Machine that the Go code mutates
  in place is passed and returned. A write through the client overwrites the caller's Machine with the
  server's answer, so the definitions continue with the returned object.

  The lemmas on what this controller does stand in \<open>Machine_Safety\<close> and
  \<open>Machine_Lifecycle\<close>.
\<close>

section \<open>Constants\<close>

definition bootPollInterval :: duration where
  "bootPollInterval = 15 * second"

definition duplicateNodeRecheck :: duration where
  "duplicateNodeRecheck = minute"

definition shutdownPollInterval :: duration where
  "shutdownPollInterval = 15 * second"

definition drainPollInterval :: duration where
  "drainPollInterval = 10 * second"

text \<open>The reasons of the Events and conditions of a Machine.\<close>

definition reasonWaking :: string where
  "reasonWaking = ''Waking''"

definition reasonPowerOnFailed :: string where
  "reasonPowerOnFailed = ''PowerOnFailed''"

definition reasonReady :: string where
  "reasonReady = ''Ready''"

definition reasonBootTimeout :: string where
  "reasonBootTimeout = ''BootTimeout''"

definition reasonUnknownProvider :: string where
  "reasonUnknownProvider = ''UnknownProvider''"

definition reasonCannotPowerOn :: string where
  "reasonCannotPowerOn = ''CannotPowerOn''"

definition reasonPoweredOff :: string where
  "reasonPoweredOff = ''PoweredOff''"

definition reasonDraining :: string where
  "reasonDraining = ''Draining''"

definition reasonDrainSucceeded :: string where
  "reasonDrainSucceeded = ''DrainSucceeded''"

definition reasonDrainTimeout :: string where
  "reasonDrainTimeout = ''DrainTimeout''"

definition reasonUncordoned :: string where
  "reasonUncordoned = ''Uncordoned''"

definition reasonShutdownTimeout :: string where
  "reasonShutdownTimeout = ''ShutdownTimeout''"

definition reasonNodeLost :: string where
  "reasonNodeLost = ''NodeLost''"

definition reasonCapacityDrift :: string where
  "reasonCapacityDrift = ''CapacityDrift''"

definition reasonPoolConflict :: string where
  "reasonPoolConflict = ''PoolConflict''"

definition reasonDrainRefused :: string where
  "reasonDrainRefused = ''DrainRefused''"

definition reasonDuplicateNode :: string where
  "reasonDuplicateNode = ''DuplicateNode''"

definition reasonReservedLabel :: string where
  "reasonReservedLabel = ''ReservedLabel''"

definition reasonTemplateRejected :: string where
  "reasonTemplateRejected = ''TemplateRejected''"

definition reasonAdopted :: string where
  "reasonAdopted = ''Adopted''"

section \<open>The reconciler\<close>

record 'w machine_reconciler =
  mr_env :: "'w env"
  mr_Registry :: "'w registry"
  mr_BootTimeout :: duration
  mr_ShutdownTimeout :: duration
  mr_NodeLossGracePeriod :: duration
  mr_Evict :: "(pod \<Rightarrow> 'w \<Rightarrow> (go_error + unit) \<times> 'w) option"

abbreviation provider_of :: "machine \<Rightarrow> string" where
  "provider_of m \<equiv> power_provider (spec_power (m_spec m))"

definition setCondition ::
  "'w env \<Rightarrow> machine \<Rightarrow> string \<Rightarrow> cond_status \<Rightarrow> string \<Rightarrow> message \<Rightarrow> ('w, machine) go" where
  "setCondition E m condType status reason msg =
     peek (\<lambda>w. update_status (\<lambda>s. s\<lparr>st_conditions :=
       env_set_status_condition E w (st_conditions s)
         \<lparr>cond_type = condType, cond_status = status, cond_generation = m_generation m,
          cond_reason = reason, cond_message = msg, cond_lastTransition = 0\<rparr>\<rparr>) m)"

definition ResultSuccess :: string where
  "ResultSuccess = ''success''"

definition ResultError :: string where
  "ResultError = ''error''"

definition ReasonDrainTimeout :: string where
  "ReasonDrainTimeout = ''drain_timeout''"

definition ReasonShutdownTimeout :: string where
  "ReasonShutdownTimeout = ''shutdown_timeout''"

definition RecordPowerOn :: "string \<Rightarrow> go_error option \<Rightarrow> ('w, unit) go" where
  "RecordPowerOn provider err =
     tell (CountPowerOn provider (case err of None \<Rightarrow> ResultSuccess | Some _ \<Rightarrow> ResultError))"

definition ObserveScaleUpLatency :: "duration \<Rightarrow> ('w, unit) go" where
  "ObserveScaleUpLatency d = tell (ObserveLatency d)"

definition RecordDrainFailure :: "string \<Rightarrow> ('w, unit) go" where
  "RecordDrainFailure reason = tell (CountDrainFailure reason)"

section \<open>Triggers and anchors\<close>

definition wakeRequested :: "machine \<Rightarrow> bool" where
  "wakeRequested m \<longleftrightarrow> sget (m_annotations m) AnnotationWakeNow = AnnotationWakeNowValue"

definition removeWakeAnnotation :: "'w env \<Rightarrow> machine \<Rightarrow> ('w, machine) go" where
  "removeWakeAnnotation E m =
     (if \<not> has_key (m_annotations m) AnnotationWakeNow then ret m
      else map_error (Wrapf ''remove wake-now annotation from machine %q: %w'' [TQuoted (m_name m)])
             (patch_machine E m (set_annotations (AList.delete AnnotationWakeNow) m)))"

definition drainRequested :: "machine \<Rightarrow> bool" where
  "drainRequested m \<longleftrightarrow> sget (m_annotations m) AnnotationDrainNow = AnnotationDrainNowValue"

definition removeDrainAnnotation :: "'w env \<Rightarrow> machine \<Rightarrow> ('w, machine) go" where
  "removeDrainAnnotation E m =
     (if \<not> has_key (m_annotations m) AnnotationDrainNow then ret m
      else map_error (Wrapf ''remove drain-now annotation from machine %q: %w'' [TQuoted (m_name m)])
             (patch_machine E m (set_annotations (AList.delete AnnotationDrainNow) m)))"

definition stampNotReadySince :: "'w env \<Rightarrow> machine \<Rightarrow> ('w, machine) go" where
  "stampNotReadySince E m =
     bind (now E) (\<lambda>n.
     map_error (Wrapf ''stamp notReadySince on machine %q: %w'' [TQuoted (m_name m)])
       (patch_machine_status E m (update_status (\<lambda>s. s\<lparr>st_notReadySince := Some n\<rparr>) m)))"

definition clearNotReadySince :: "'w env \<Rightarrow> machine \<Rightarrow> ('w, machine) go" where
  "clearNotReadySince E m =
     (if st_notReadySince (m_status m) = None then ret m
      else map_error (Wrapf ''clear notReadySince on machine %q: %w'' [TQuoted (m_name m)])
             (patch_machine_status E m (update_status (\<lambda>s. s\<lparr>st_notReadySince := None\<rparr>) m)))"

text \<open>The three budgets. A missing anchor is not yet timed out.\<close>

definition bootTimedOut :: "'w machine_reconciler \<Rightarrow> machine \<Rightarrow> ('w, bool) go" where
  "bootTimedOut R m =
     (case st_bootStartTime (m_status m) of
        None \<Rightarrow> ret False
      | Some t \<Rightarrow> bind (since (mr_env R) t) (\<lambda>d. ret (mr_BootTimeout R \<le> d)))"

definition drainTimedOut :: "'w machine_reconciler \<Rightarrow> machine \<Rightarrow> duration \<Rightarrow> ('w, bool) go" where
  "drainTimedOut R m timeout =
     (case st_drainStartTime (m_status m) of
        None \<Rightarrow> ret False
      | Some t \<Rightarrow> bind (since (mr_env R) t) (\<lambda>d. ret (timeout < d)))"

definition shutdownTimedOut :: "'w machine_reconciler \<Rightarrow> machine \<Rightarrow> ('w, bool) go" where
  "shutdownTimedOut R m =
     (case st_shutdownStartTime (m_status m) of
        None \<Rightarrow> ret False
      | Some t \<Rightarrow> bind (since (mr_env R) t) (\<lambda>d. ret (mr_ShutdownTimeout R < d)))"

text \<open>How long to wait before the next poll: the poll interval or what is left of the budget.\<close>

definition clampRemaining :: "duration \<Rightarrow> duration \<Rightarrow> duration" where
  "clampRemaining poll remaining =
     (if remaining < poll then (if remaining < 0 then 0 else remaining) else poll)"

definition requeueForBoot :: "'w machine_reconciler \<Rightarrow> machine \<Rightarrow> ('w, duration) go" where
  "requeueForBoot R m =
     (case st_bootStartTime (m_status m) of
        None \<Rightarrow> ret bootPollInterval
      | Some t \<Rightarrow> bind (since (mr_env R) t) (\<lambda>d.
          ret (clampRemaining bootPollInterval (dur_sub (mr_BootTimeout R) d))))"

definition requeueForShutdown :: "'w machine_reconciler \<Rightarrow> machine \<Rightarrow> ('w, duration) go" where
  "requeueForShutdown R m =
     (case st_shutdownStartTime (m_status m) of
        None \<Rightarrow> ret shutdownPollInterval
      | Some t \<Rightarrow> bind (since (mr_env R) t) (\<lambda>d.
          ret (clampRemaining shutdownPollInterval (dur_sub (mr_ShutdownTimeout R) d))))"

section \<open>The Node\<close>

text \<open>\<^verbatim>\<open>mergeTaint\<close> identifies a taint by key and effect.\<close>

fun mergeTaint :: "taint list \<Rightarrow> taint \<Rightarrow> taint list \<times> bool" where
  "mergeTaint [] t = ([t], True)"
| "mergeTaint (x # xs) t =
     (if taint_key x \<noteq> taint_key t \<or> taint_effect x \<noteq> taint_effect t
      then (case mergeTaint xs t of (ys, c) \<Rightarrow> (x # ys, c))
      else if taint_value x = taint_value t then (x # xs, False)
      else (x\<lparr>taint_value := taint_value t\<rparr> # xs, True))"

fun mergeTaints :: "taint list \<Rightarrow> taint list \<Rightarrow> taint list \<times> bool" where
  "mergeTaints taints [] = (taints, False)"
| "mergeTaints taints (t # ts) =
     (case mergeTaint taints t of (taints', merged) \<Rightarrow>
        (case mergeTaints taints' ts of (taints'', changed) \<Rightarrow> (taints'', merged \<or> changed)))"

text \<open>The loop over the desired labels writes a label whose value differs from what reading the map
  gives, a missing key reading as the empty string.\<close>

fun mergeLabels :: "strmap \<Rightarrow> strmap \<Rightarrow> strmap \<times> bool" where
  "mergeLabels labels [] = (labels, False)"
| "mergeLabels labels ((k, v) # desired) =
     (if sget labels k \<noteq> v
      then (fst (mergeLabels (AList.update k v labels) desired), True)
      else mergeLabels labels desired)"

definition desiredLabels :: "nodepool option \<Rightarrow> machine \<Rightarrow> strmap" where
  "desiredLabels pool m =
     overlay (overlay [] (case pool of None \<Rightarrow> [] | Some p \<Rightarrow> tmpl_labels (ps_template (pool_spec p))))
       (spec_labels (m_spec m))"

definition desiredTaints :: "nodepool option \<Rightarrow> taint list" where
  "desiredTaints pool = (case pool of None \<Rightarrow> [] | Some p \<Rightarrow> tmpl_taints (ps_template (pool_spec p)))"

definition applyTemplateTo :: "strmap \<Rightarrow> taint list \<Rightarrow> node \<Rightarrow> node \<times> bool" where
  "applyTemplateTo labels taints node =
     (case mergeLabels (node_labels node) labels of (labels', changedL) \<Rightarrow>
        (case mergeTaints (node_taints node) taints of (taints', changedT) \<Rightarrow>
           (node\<lparr>node_labels := labels', node_taints := taints'\<rparr>, changedL \<or> changedT)))"

definition applyNodeTemplate :: "'w env \<Rightarrow> machine \<Rightarrow> ('w, unit) go" where
  "applyNodeTemplate E m =
     (if nodeName_of m = [] then ret ()
      else bind (poolForMachine E m) (\<lambda>(pool, conflict).
        bind (if conflict \<noteq> []
              then event (MachineObj (m_name m)) Warning reasonPoolConflict
                (Msg ''Machine %q matches %d NodePools (%s); applying only its own labels, no pool template, until the overlap is resolved''
                  [TQuoted (m_name m), TInt (int (length conflict)), TStr (poolNames conflict)])
              else ret ()) (\<lambda>_.
        case dropReservedLabels (desiredLabels pool m) of (labels, dropped) \<Rightarrow>
        bind (if dropped \<noteq> []
              then event (MachineObj (m_name m)) Warning reasonReservedLabel
                (Msg ''not applying label(s) %s to Node %q: reserved for operators, ONP never writes them''
                  [TStr (join '', '' dropped), TQuoted (nodeName_of m)])
              else ret ()) (\<lambda>_.
        if labels = [] \<and> desiredTaints pool = [] then ret ()
        else bind (attempt (get_node E (nodeName_of m))) (\<lambda>r. case r of
               Inl e \<Rightarrow> if is_not_found e then ret ()
                        else throw (Wrapf ''get node %q to apply template: %w'' [TQuoted (nodeName_of m)] e)
             | Inr node \<Rightarrow>
                 (case applyTemplateTo labels (desiredTaints pool) node of (node', changed) \<Rightarrow>
                    if \<not> changed then ret ()
                    else bind (map_error (Wrapf ''apply template to node %q: %w'' [TQuoted (nodeName_of m)])
                                 (patch_node E node node')) (\<lambda>_. ret ())))))))"

text \<open>\<^verbatim>\<open>capacityDrift\<close>: one text per declared resource that the Node does not report as
  declared.\<close>

definition driftOf :: "lib \<Rightarrow> resource_list \<Rightarrow> string \<times> quantity \<Rightarrow> string list" where
  "driftOf L allocatable = (\<lambda>(name, declared).
     case map_of allocatable name of
       None \<Rightarrow> [name @ '' declared '' @ quantity_string L declared @ '', Node reports none'']
     | Some actual \<Rightarrow>
         if quantity_cmp L declared actual \<noteq> 0
         then [name @ '' declared '' @ quantity_string L declared @ '', Node reports '' @ quantity_string L actual]
         else [])"

definition capacityDrift :: "'w env \<Rightarrow> machine \<Rightarrow> ('w, string) go" where
  "capacityDrift E m =
     (if spec_capacity (m_spec m) = [] \<or> nodeName_of m = [] then ret []
      else bind (attempt (get_node E (nodeName_of m))) (\<lambda>r. case r of
             Inl e \<Rightarrow> if is_not_found e then ret []
                      else throw (Wrapf ''get node %q for capacity drift: %w'' [TQuoted (nodeName_of m)] e)
           | Inr node \<Rightarrow> ret (join ''; '' (sort_slice nameBefore
               (concat (map (driftOf (env_lib E) (node_allocatable node)) (spec_capacity (m_spec m))))))))"

definition cordonNode :: "node \<Rightarrow> node" where
  "cordonNode node =
     (set_node_annotations (AList.update AnnotationCordonedByONP ''true'') node)\<lparr>node_unschedulable := True\<rparr>"

definition uncordonNode :: "node \<Rightarrow> node" where
  "uncordonNode node =
     (set_node_annotations (AList.delete AnnotationCordonedByONP) node)\<lparr>node_unschedulable := False\<rparr>"

definition setCordon :: "'w env \<Rightarrow> string \<Rightarrow> bool \<Rightarrow> ('w, bool) go" where
  "setCordon E nodeName unschedulable =
     (if nodeName = [] then ret False
      else bind (attempt (get_node E nodeName)) (\<lambda>r. case r of
        Inl e \<Rightarrow> if is_not_found e then ret False
                 else throw (Wrapf ''get node %q to cordon: %w'' [TQuoted nodeName] e)
      | Inr node \<Rightarrow>
          if unschedulable then
            (if node_unschedulable node then ret False
             else bind (map_error (Wrapf ''cordon node %q: %w'' [TQuoted nodeName])
                          (patch_node E node (cordonNode node))) (\<lambda>_. ret True))
          else if \<not> node_unschedulable node \<and> \<not> has_key (node_annotations node) AnnotationCordonedByONP
          then ret False
          else bind (map_error (Wrapf ''uncordon node %q: %w'' [TQuoted nodeName])
                       (patch_node E node (uncordonNode node))) (\<lambda>_. ret True)))"

definition dropStaleCordonMarker :: "'w env \<Rightarrow> string \<Rightarrow> ('w, unit) go" where
  "dropStaleCordonMarker E nodeName =
     bind (backingNode E nodeName) (\<lambda>node. case node of
       None \<Rightarrow> ret ()
     | Some nd \<Rightarrow>
         if node_unschedulable nd then ret ()
         else if \<not> has_key (node_annotations nd) AnnotationCordonedByONP then ret ()
         else bind (map_error (Wrapf ''drop stale cordon marker from node %q: %w'' [TQuoted nodeName])
                      (patch_node E nd (set_node_annotations (AList.delete AnnotationCordonedByONP) nd)))
                (\<lambda>_. ret ()))"

definition uncordonIfONPCordoned :: "'w env \<Rightarrow> string \<Rightarrow> ('w, bool) go" where
  "uncordonIfONPCordoned E nodeName =
     (if nodeName = [] then ret False
      else bind (attempt (get_node E nodeName)) (\<lambda>r. case r of
        Inl e \<Rightarrow> if is_not_found e then ret False
                 else throw (Wrapf ''get node %q to uncordon: %w'' [TQuoted nodeName] e)
      | Inr node \<Rightarrow>
          if \<not> has_key (node_annotations node) AnnotationCordonedByONP then ret False
          else bind (setCordon E nodeName False) (\<lambda>_. ret True)))"

section \<open>Transitions\<close>

definition initialize :: "'w machine_reconciler \<Rightarrow> machine \<Rightarrow> ('w, requeue) go" where
  "initialize R m =
     bind (map_error (Wrapf ''initialize machine %q to Off: %w'' [TQuoted (m_name m)])
             (update_machine_status (mr_env R) (update_status (\<lambda>s. s\<lparr>st_state := Off\<rparr>) m)))
       (\<lambda>_. ret RequeueNow)"

definition failBoot :: "'w machine_reconciler \<Rightarrow> machine \<Rightarrow> string \<Rightarrow> message \<Rightarrow> ('w, requeue) go" where
  "failBoot R m reason msg =
     (let E = mr_env R in
      bind (setCondition E (update_status (\<lambda>s. s\<lparr>st_state := Failed\<rparr>) m) ConditionReady CondFalse reason msg) (\<lambda>m.
      bind (map_error (Wrapf ''fail machine %q: %w'' [TQuoted (m_name m)]) (update_machine_status E m)) (\<lambda>m.
      bind (event (MachineObj (m_name m)) Warning reason msg) (\<lambda>_.
      bind (removeWakeAnnotation E m) (\<lambda>_. ret NoRequeue)))))"

text \<open>The last part of \<^verbatim>\<open>promoteToReady\<close>, once the Node is uncordoned and carries the
  template.\<close>

definition enterReady :: "'w machine_reconciler \<Rightarrow> machine \<Rightarrow> bool \<Rightarrow> string \<Rightarrow> ('w, requeue) go" where
  "enterReady R m uncordoned drift =
     (let E = mr_env R in
      bind (case st_bootStartTime (m_status m) of
              None \<Rightarrow> ret ()
            | Some t \<Rightarrow> bind (since E t) (\<lambda>d. ObserveScaleUpLatency d)) (\<lambda>_.
      bind (setCondition E (update_status (\<lambda>s. s\<lparr>st_state := Ready, st_bootStartTime := None\<rparr>) m)
              ConditionReady CondTrue reasonReady (Msg ''backing Node is Ready'' [])) (\<lambda>m.
      bind (map_error (Wrapf ''move machine %q to Ready: %w'' [TQuoted (m_name m)]) (update_machine_status E m)) (\<lambda>m.
      bind (event (MachineObj (m_name m)) Normal reasonReady (Msg ''Node %q is Ready'' [TQuoted (nodeName_of m)])) (\<lambda>_.
      bind (if uncordoned
            then event (MachineObj (m_name m)) Normal reasonUncordoned
              (Msg ''uncordoned Node %q on wake (it was cordoned by a prior scale-down)'' [TQuoted (nodeName_of m)])
            else ret ()) (\<lambda>_.
      bind (if drift \<noteq> []
            then event (MachineObj (m_name m)) Warning reasonCapacityDrift
              (Msg ''declared spec.capacity differs from Node %q allocatable: %s (fit uses the smaller of the two; reconcile this by hand)''
                [TQuoted (nodeName_of m), TStr drift])
            else ret ()) (\<lambda>_.
      bind (removeWakeAnnotation E m) (\<lambda>_. ret NoRequeue))))))))"

definition promoteToReady :: "'w machine_reconciler \<Rightarrow> machine \<Rightarrow> ('w, requeue) go" where
  "promoteToReady R m =
     (let E = mr_env R in
      bind (uncordonIfONPCordoned E (nodeName_of m)) (\<lambda>uncordoned.
      bind (attempt (applyNodeTemplate E m)) (\<lambda>r. case r of
        Inl e \<Rightarrow>
          if is_invalid e
          then failBoot R m reasonTemplateRejected
                 (MsgErr ''Node %q rejected the template: %v'' [TQuoted (nodeName_of m)] e)
          else bind (bootTimedOut R m) (\<lambda>timedOut.
            if timedOut
            then failBoot R m reasonBootTimeout
                   (MsgErr ''Node %q is Ready but the template could not be applied within %s: %v''
                     [TQuoted (nodeName_of m), TDur (mr_BootTimeout R)] e)
            else throw e)
      | Inr _ \<Rightarrow>
          bind (capacityDrift E m) (\<lambda>drift. enterReady R m uncordoned drift))))"

definition resendPowerOn :: "'w machine_reconciler \<Rightarrow> machine \<Rightarrow> ('w, unit) go" where
  "resendPowerOn R m =
     (case st_bootStartTime (m_status m) of
        None \<Rightarrow> ret ()
      | Some t \<Rightarrow>
          bind (since (mr_env R) t) (\<lambda>d.
          if d < bootPollInterval then ret ()
          else (case registry_get (mr_Registry R) (provider_of m) of
                  None \<Rightarrow> ret ()
                | Some p \<Rightarrow>
                    if \<not> CanPowerOn (prov_Capabilities p) then ret ()
                    else bind (attempt (power_on p m)) (\<lambda>r.
                      RecordPowerOn (provider_of m) (case r of Inl e \<Rightarrow> Some e | Inr _ \<Rightarrow> None)))))"

text \<open>The part of \<^verbatim>\<open>reconcileOff\<close> for a Machine that is asked to wake: look the provider
  up, power on, enter Booting.\<close>

definition wakeMachine :: "'w machine_reconciler \<Rightarrow> machine \<Rightarrow> ('w, requeue) go" where
  "wakeMachine R m =
     (let E = mr_env R in
      case registry_get (mr_Registry R) (provider_of m) of
        None \<Rightarrow>
          bind (event (MachineObj (m_name m)) Warning reasonUnknownProvider
                  (Msg ''no power provider registered for %q'' [TQuoted (provider_of m)])) (\<lambda>_. ret NoRequeue)
      | Some p \<Rightarrow>
          if \<not> CanPowerOn (prov_Capabilities p) then
            bind (event (MachineObj (m_name m)) Warning reasonCannotPowerOn
                    (Msg ''provider %q cannot power on'' [TQuoted (provider_of m)])) (\<lambda>_. ret NoRequeue)
          else bind (attempt (power_on p m)) (\<lambda>r. case r of
            Inl e \<Rightarrow>
              bind (RecordPowerOn (provider_of m) (Some e)) (\<lambda>_.
              bind (event (MachineObj (m_name m)) Warning reasonPowerOnFailed (MsgErr ''power-on failed: %v'' [] e)) (\<lambda>_.
              bind (setCondition E m ConditionPowerOnSucceeded CondFalse reasonPowerOnFailed (MsgErr ''%v'' [] e)) (\<lambda>m.
              bind (map_error (Wrapf ''update machine %q after power-on failure: %w'' [TQuoted (m_name m)])
                      (update_machine_status E m)) (\<lambda>m.
              throw (Wrapf ''power-on machine %q: %w'' [TQuoted (m_name m)] e)))))
          | Inr _ \<Rightarrow>
              bind (RecordPowerOn (provider_of m) None) (\<lambda>_.
              bind (now E) (\<lambda>t.
              bind (setCondition E (update_status (\<lambda>s. s\<lparr>st_state := Booting, st_bootStartTime := Some t\<rparr>) m)
                      ConditionPowerOnSucceeded CondTrue reasonWaking
                      (Msg ''power-on command accepted by provider'' [])) (\<lambda>m.
              bind (map_error (Wrapf ''move machine %q to Booting: %w'' [TQuoted (m_name m)])
                      (update_machine_status E m)) (\<lambda>m.
              bind (event (MachineObj (m_name m)) Normal reasonWaking
                      (Msg ''powered on via provider %q; waiting for Node %q to become Ready''
                        [TQuoted (provider_of m), TQuoted (nodeName_of m)])) (\<lambda>_.
              bind (requeueForBoot R m) (\<lambda>d. ret (RequeueAfter d)))))))))"

definition reconcileOff :: "'w machine_reconciler \<Rightarrow> machine \<Rightarrow> ('w, requeue) go" where
  "reconcileOff R m =
     (let E = mr_env R in
      bind (removeDrainAnnotation E m) (\<lambda>m.
      bind (map_error (Wrapf ''check node %q readiness: %w'' [TQuoted (nodeName_of m)])
              (nodeIsReady E (nodeName_of m))) (\<lambda>ready.
      if ready then
        bind (event (MachineObj (m_name m)) Normal reasonAdopted
                (Msg ''Node %q is already Ready; adopting it without a power-on'' [TQuoted (nodeName_of m)]))
          (\<lambda>_. promoteToReady R m)
      else if \<not> wakeRequested m then ret NoRequeue
      else wakeMachine R m)))"

definition reconcileBooting :: "'w machine_reconciler \<Rightarrow> machine \<Rightarrow> ('w, requeue) go" where
  "reconcileBooting R m =
     (let E = mr_env R in
      bind (removeDrainAnnotation E m) (\<lambda>m.
      bind (map_error (Wrapf ''check node %q readiness: %w'' [TQuoted (nodeName_of m)])
              (nodeIsReady E (nodeName_of m))) (\<lambda>ready.
      if ready then promoteToReady R m
      else bind (bootTimedOut R m) (\<lambda>timedOut.
        if timedOut
        then failBoot R m reasonBootTimeout
               (Msg ''Node %q not Ready within %s'' [TQuoted (nodeName_of m), TDur (mr_BootTimeout R)])
        else bind (resendPowerOn R m) (\<lambda>_.
             bind (requeueForBoot R m) (\<lambda>d. ret (RequeueAfter d)))))))"

definition reconcileReadyNodeLost :: "'w machine_reconciler \<Rightarrow> machine \<Rightarrow> ('w, requeue) go" where
  "reconcileReadyNodeLost R m =
     (let E = mr_env R in
      case st_notReadySince (m_status m) of
        None \<Rightarrow> bind (stampNotReadySince E m) (\<lambda>_. ret (RequeueAfter (mr_NodeLossGracePeriod R)))
      | Some t \<Rightarrow>
          bind (since E t) (\<lambda>elapsed.
          if elapsed < mr_NodeLossGracePeriod R
          then (let wait = dur_sub (mr_NodeLossGracePeriod R) elapsed
                in ret (RequeueAfter (if wait < second then second else wait)))
          else
            bind (setCondition E (update_status (\<lambda>s. s\<lparr>st_state := Off, st_notReadySince := None\<rparr>) m)
                    ConditionReady CondFalse reasonNodeLost
                    (Msg ''Node %q stayed NotReady for %s without an ONP drain; assuming powered off''
                      [TQuoted (nodeName_of m), TDur (mr_NodeLossGracePeriod R)])) (\<lambda>m.
            bind (map_error (Wrapf ''move machine %q to Off after node loss: %w'' [TQuoted (m_name m)])
                    (update_machine_status E m)) (\<lambda>m.
            bind (event (MachineObj (m_name m)) Warning reasonNodeLost
                    (Msg ''Node %q lost (NotReady for %s) with no ONP drain; Machine is Off''
                      [TQuoted (nodeName_of m), TDur (mr_NodeLossGracePeriod R)])) (\<lambda>_.
            ret NoRequeue)))))"

definition startDraining :: "'w machine_reconciler \<Rightarrow> machine \<Rightarrow> ('w, requeue) go" where
  "startDraining R m =
     (let E = mr_env R in
      bind (nodeAlwaysOn E (nodeName_of m)) (\<lambda>alwaysOn.
      if alwaysOn then
        bind (event (MachineObj (m_name m)) Warning reasonDrainRefused
                (Msg ''refusing to drain Node %q: it is labeled %s=%s and must never be powered off''
                  [TQuoted (nodeName_of m), TStr LabelAlwaysOn, TStr LabelAlwaysOnValue])) (\<lambda>_.
        bind (removeDrainAnnotation E m) (\<lambda>_. ret NoRequeue))
      else
        bind (now E) (\<lambda>t.
        bind (map_error (Wrapf ''move machine %q to Draining: %w'' [TQuoted (m_name m)])
                (update_machine_status E
                  (update_status (\<lambda>s. s\<lparr>st_state := Draining, st_drainStartTime := Some t\<rparr>) m))) (\<lambda>m.
        bind (event (MachineObj (m_name m)) Normal reasonDraining
                (Msg ''draining Node %q before power-off'' [TQuoted (nodeName_of m)])) (\<lambda>_.
        bind (removeDrainAnnotation E m) (\<lambda>_. ret RequeueNow))))))"

definition reconcileReady :: "'w machine_reconciler \<Rightarrow> machine \<Rightarrow> ('w, requeue) go" where
  "reconcileReady R m =
     (let E = mr_env R in
      bind (if has_key (m_annotations m) AnnotationWakeNow then removeWakeAnnotation E m else ret m) (\<lambda>m.
      if drainRequested m then startDraining R m
      else bind (map_error (Wrapf ''check node %q readiness: %w'' [TQuoted (nodeName_of m)])
                   (nodeIsReady E (nodeName_of m))) (\<lambda>ready.
        if \<not> ready then reconcileReadyNodeLost R m
        else bind (dropStaleCordonMarker E (nodeName_of m)) (\<lambda>_.
          if st_notReadySince (m_status m) \<noteq> None
          then bind (clearNotReadySince E m) (\<lambda>_. ret NoRequeue)
          else ret NoRequeue))))"

definition abortDrain :: "'w machine_reconciler \<Rightarrow> machine \<Rightarrow> ('w, requeue) go" where
  "abortDrain R m =
     (let E = mr_env R in
      bind (uncordonIfONPCordoned E (nodeName_of m)) (\<lambda>_.
      bind (setCondition E (update_status (\<lambda>s. s\<lparr>st_state := Ready, st_drainStartTime := None\<rparr>) m)
              ConditionDrainSucceeded CondFalse reasonDrainRefused
              (Msg ''Node %q is labeled %s=%s; drain stopped''
                [TQuoted (nodeName_of m), TStr LabelAlwaysOn, TStr LabelAlwaysOnValue])) (\<lambda>m.
      bind (map_error (Wrapf ''return machine %q to Ready after refused drain: %w'' [TQuoted (m_name m)])
              (update_machine_status E m)) (\<lambda>m.
      bind (event (MachineObj (m_name m)) Warning reasonDrainRefused
              (Msg ''stopped draining Node %q: it is labeled %s=%s and must never be powered off; back to Ready''
                [TQuoted (nodeName_of m), TStr LabelAlwaysOn, TStr LabelAlwaysOnValue])) (\<lambda>_.
      ret NoRequeue)))))"

definition evictViaSubResource :: "'w env \<Rightarrow> pod \<Rightarrow> 'w \<Rightarrow> (go_error + unit) \<times> 'w" where
  "evictViaSubResource E pod =
     (let eviction = \<lparr>eviction_name = pod_name pod, eviction_namespace = pod_namespace pod\<rparr>
      in env_create_eviction E pod eviction)"

definition evictPod :: "'w machine_reconciler \<Rightarrow> pod \<Rightarrow> ('w, unit) go" where
  "evictPod R pod =
     call (case mr_Evict R of Some f \<Rightarrow> f pod | None \<Rightarrow> evictViaSubResource (mr_env R) pod) (EvictPod pod)"

text \<open>One turn of the eviction loop: a pod the drain may not evict is passed over, and so is an
  eviction that a disruption budget blocks.\<close>

definition evictTurn :: "'w machine_reconciler \<Rightarrow> machine \<Rightarrow> bool \<Rightarrow> pod \<Rightarrow> ('w, unit) go" where
  "evictTurn R m force pod =
     (if \<not> isDrainable pod force then ret ()
      else bind (attempt (evictPod R pod)) (\<lambda>r. case r of
             Inr _ \<Rightarrow> ret ()
           | Inl e \<Rightarrow> if is_too_many_requests e then ret ()
                      else throw (Wrapf ''evict pod %q on node %q: %w''
                             [TQuoted (pod_name pod), TQuoted (nodeName_of m)] e)))"

definition failDrain :: "'w machine_reconciler \<Rightarrow> machine \<Rightarrow> duration \<Rightarrow> ('w, requeue) go" where
  "failDrain R m timeout =
     (let E = mr_env R in
      bind (uncordonIfONPCordoned E (nodeName_of m)) (\<lambda>uncordoned.
      let cordon = (if uncordoned then ''uncordoned'' else ''its cordon is not ONP's and was left as is'') in
      bind (setCondition E (update_status (\<lambda>s. s\<lparr>st_state := Failed\<rparr>) m)
              ConditionDrainSucceeded CondFalse reasonDrainTimeout
              (Msg ''Node %q did not drain within %s; %s''
                [TQuoted (nodeName_of m), TDur timeout, TStr cordon])) (\<lambda>m.
      bind (map_error (Wrapf ''fail machine %q on drain timeout: %w'' [TQuoted (m_name m)])
              (update_machine_status E m)) (\<lambda>m.
      bind (event (MachineObj (m_name m)) Warning reasonDrainTimeout
              (Msg ''Node %q did not drain within %s; %s; marked Failed''
                [TQuoted (nodeName_of m), TDur timeout, TStr cordon])) (\<lambda>_.
      bind (RecordDrainFailure ReasonDrainTimeout) (\<lambda>_. ret NoRequeue))))))"

definition enterShuttingDown :: "'w machine_reconciler \<Rightarrow> machine \<Rightarrow> ('w, requeue) go" where
  "enterShuttingDown R m =
     (let E = mr_env R in
      bind (now E) (\<lambda>t.
      bind (setCondition E (update_status (\<lambda>s. s\<lparr>st_state := ShuttingDown, st_shutdownStartTime := Some t\<rparr>) m)
              ConditionDrainSucceeded CondTrue reasonDrainSucceeded
              (Msg ''Node %q drained; powering off'' [TQuoted (nodeName_of m)])) (\<lambda>m.
      bind (map_error (Wrapf ''move machine %q to ShuttingDown: %w'' [TQuoted (m_name m)])
              (update_machine_status E m)) (\<lambda>m.
      bind (event (MachineObj (m_name m)) Normal reasonDrainSucceeded
              (Msg ''Node %q drained; moving to ShuttingDown'' [TQuoted (nodeName_of m)])) (\<lambda>_.
      ret NoRequeue)))))"

text \<open>The part of \<^verbatim>\<open>reconcileDraining\<close> after the timeout check: cordon, look whether the
  node is empty, evict or hand over to the power-off.\<close>

definition drainPass :: "'w machine_reconciler \<Rightarrow> machine \<Rightarrow> bool \<Rightarrow> ('w, requeue) go" where
  "drainPass R m force =
     (let E = mr_env R in
      bind (setCordon E (nodeName_of m) True) (\<lambda>cordoned.
      if cordoned then ret (RequeueAfter drainPollInterval)
      else
        bind (map_error (Wrapf ''list workload pods on node %q: %w'' [TQuoted (nodeName_of m)])
                (podsKeepingNodeOn E (nodeName_of m))) (\<lambda>workload.
        if workload = [] then
          bind (nothingKeepsNodeOn E Fresh (nodeName_of m)) (\<lambda>drained.
          if \<not> drained then ret (RequeueAfter drainPollInterval)
          else enterShuttingDown R m)
        else
          bind (fold_prog (\<lambda>_ pod. evictTurn R m force pod) () workload) (\<lambda>_.
          ret (RequeueAfter drainPollInterval)))))"

definition reconcileDraining :: "'w machine_reconciler \<Rightarrow> machine \<Rightarrow> ('w, requeue) go" where
  "reconcileDraining R m =
     (let E = mr_env R in
      bind (removeDrainAnnotation E m) (\<lambda>m.
      bind (nodeAlwaysOn E (nodeName_of m)) (\<lambda>alwaysOn.
      if alwaysOn then abortDrain R m
      else
        bind (drainPolicy E m) (\<lambda>(timeout, force).
        bind (drainTimedOut R m timeout) (\<lambda>timedOut.
        if timedOut then failDrain R m timeout
        else drainPass R m force)))))"

definition reconcileShuttingDown :: "'w machine_reconciler \<Rightarrow> machine \<Rightarrow> ('w, requeue) go" where
  "reconcileShuttingDown R m =
     (let E = mr_env R;
          issuedAt = (case st_shutdownStartTime (m_status m) of None \<Rightarrow> 0 | Some t \<Rightarrow> t) in
      bind (nodeWentDownSince E (nodeName_of m) issuedAt) (\<lambda>down.
      if \<not> down then
        bind (shutdownTimedOut R m) (\<lambda>timedOut.
        if timedOut then
          bind (setCondition E (update_status (\<lambda>s. s\<lparr>st_state := Failed, st_shutdownStartTime := None\<rparr>) m)
                  ConditionReady CondFalse reasonShutdownTimeout
                  (Msg ''Node %q not seen going NotReady within %s after power-off was issued''
                    [TQuoted (nodeName_of m), TDur (mr_ShutdownTimeout R)])) (\<lambda>m.
          bind (map_error (Wrapf ''fail machine %q on shutdown timeout: %w'' [TQuoted (m_name m)])
                  (update_machine_status E m)) (\<lambda>m.
          bind (event (MachineObj (m_name m)) Warning reasonShutdownTimeout
                  (Msg ''Node %q did not power off within %s; marked Failed''
                    [TQuoted (nodeName_of m), TDur (mr_ShutdownTimeout R)])) (\<lambda>_.
          bind (RecordDrainFailure ReasonShutdownTimeout) (\<lambda>_. ret NoRequeue))))
        else bind (requeueForShutdown R m) (\<lambda>d. ret (RequeueAfter d)))
      else
        bind (setCondition E (update_status (\<lambda>s. s\<lparr>st_state := Off, st_shutdownStartTime := None\<rparr>) m)
                ConditionReady CondFalse reasonPoweredOff
                (Msg ''Node %q is no longer Ready; power-off complete'' [TQuoted (nodeName_of m)])) (\<lambda>m.
        bind (map_error (Wrapf ''move machine %q to Off: %w'' [TQuoted (m_name m)])
                (update_machine_status E m)) (\<lambda>m.
        bind (event (MachineObj (m_name m)) Normal reasonPoweredOff
                (Msg ''Node %q is no longer Ready; Machine is Off'' [TQuoted (nodeName_of m)])) (\<lambda>_.
        ret NoRequeue)))))"

text \<open>The dispatch on \<^verbatim>\<open>m.Status.State\<close>, and the whole of \<^verbatim>\<open>Reconcile\<close>: fetch the
  Machine, hold it while another Machine claims its Node, dispatch.\<close>

definition dispatch :: "'w machine_reconciler \<Rightarrow> machine \<Rightarrow> ('w, requeue) go" where
  "dispatch R m =
     (case state_of m of
        Unset \<Rightarrow> initialize R m
      | Off \<Rightarrow> reconcileOff R m
      | Booting \<Rightarrow> reconcileBooting R m
      | Ready \<Rightarrow> reconcileReady R m
      | Draining \<Rightarrow> reconcileDraining R m
      | ShuttingDown \<Rightarrow> reconcileShuttingDown R m
      | Failed \<Rightarrow> ret NoRequeue)"

definition machineReconcile :: "'w machine_reconciler \<Rightarrow> string \<Rightarrow> ('w, requeue) go" where
  "machineReconcile R name =
     (let E = mr_env R in
      bind (attempt (get_machine E name)) (\<lambda>r. case r of
        Inl e \<Rightarrow> if is_not_found e then ret NoRequeue else throw e
      | Inr m \<Rightarrow>
          bind (otherMachinesOnNode E m) (\<lambda>others.
          if others \<noteq> [] then
            bind (event (MachineObj (m_name m)) Warning reasonDuplicateNode
                    (Msg ''Node %q is also claimed by Machine(s) %s; holding all power actions until only one Machine claims it''
                      [TQuoted (nodeName_of m), TStr (join '', '' others)])) (\<lambda>_.
            ret (RequeueAfter duplicateNodeRecheck))
          else dispatch R m)))"

definition machinesForNode :: "'w env \<Rightarrow> node \<Rightarrow> ('w, string list) go" where
  "machinesForNode E node = requestsForMachinesOnNode E (node_name node)"

end
