(* ===== verification/Machine_Rights.thy ===== *)
theory Machine_Rights
  imports Machine_Controller
begin

text \<open>
  What the Machine reconciler may and may not do, whatever the API server, the cache, the clock and
  the power provider answer. The effects of a method are described by the rights it needs: which
  Machines it writes to the status endpoint, which pods it evicts, which Machines it powers on and
  how it changes a Node. One lemma per method of \<^verbatim>\<open>MachineReconciler\<close> says which rights
  suffice; \<open>Machine_Safety\<close> and \<open>Machine_Lifecycle\<close> build on them.
\<close>

section \<open>Rights\<close>

text \<open>The effects of a method on the cluster, as the rights it needs: which Machines it may write to
  the status endpoint, which pods it may evict, which Machines it may power on, and how it may change
  a Node. Reads, reports and the patches of triggers and anchors need no right; the controller never powers a host off itself.\<close>

record rights =
  may_write :: "machine \<Rightarrow> bool"
  may_evict :: "pod \<Rightarrow> bool"
  may_power :: "machine \<Rightarrow> bool"
  may_patch :: "node \<Rightarrow> node \<Rightarrow> bool"

fun within :: "rights \<Rightarrow> action \<Rightarrow> bool" where
  "within c (UpdateMachineStatus m r) = may_write c m"
| "within c (EvictPod pod r) = may_evict c pod"
| "within c (PowerOnCall p m r) = may_power c m"
| "within c (PatchNode n n' r) = may_patch c n n'"
| "within c (PowerOffHost r) = False"
| "within c _ = True"

definition all_rights :: rights where
  "all_rights = \<lparr>may_write = \<lambda>_. True, may_evict = \<lambda>_. True, may_power = \<lambda>_. True, may_patch = \<lambda>_ _. True\<rparr>"

definition only_evict :: "(pod \<Rightarrow> bool) \<Rightarrow> rights" where
  "only_evict P = all_rights\<lparr>may_evict := P\<rparr>"

definition only_power :: "(machine \<Rightarrow> bool) \<Rightarrow> rights" where
  "only_power P = all_rights\<lparr>may_power := P\<rparr>"

definition only_write :: "(machine \<Rightarrow> bool) \<Rightarrow> rights" where
  "only_write P = all_rights\<lparr>may_write := P\<rparr>"

definition only_patch :: "(node \<Rightarrow> node \<Rightarrow> bool) \<Rightarrow> rights" where
  "only_patch P = all_rights\<lparr>may_patch := P\<rparr>"

section \<open>Rules for the pieces of the controller\<close>

lemma within_passive [simp]: "is_passive a \<Longrightarrow> within c a"
  by (cases a) (auto simp: is_passive_def)

lemma all_rights_simps [simp]:
  "may_write all_rights m" "may_evict all_rights pod" "may_power all_rights m" "may_patch all_rights n n'"
  by (simp_all add: all_rights_def)

lemma only_simps [simp]:
  "may_write (only_evict P) m" "may_evict (only_evict P) pod = P pod" "may_power (only_evict P) m"
  "may_patch (only_evict P) n n'"
  "may_write (only_power Q) m" "may_evict (only_power Q) pod" "may_power (only_power Q) m = Q m"
  "may_patch (only_power Q) n n'"
  "may_write (only_write Q) m = Q m" "may_evict (only_write Q) pod" "may_power (only_write Q) m"
  "may_patch (only_write Q) n n'"
  "may_write (only_patch U) m" "may_evict (only_patch U) pod" "may_power (only_patch U) m"
  "may_patch (only_patch U) n n' = U n n'"
  by (simp_all add: only_evict_def only_power_def only_write_def only_patch_def)

text \<open>\<^verbatim>\<open>setCondition\<close> changes the conditions and nothing else.\<close>

lemma wp_setCondition [wp_rules]:
  "(\<And>cs. Q [] (Inr (update_status (\<lambda>s. s\<lparr>st_conditions := cs\<rparr>) m))) \<Longrightarrow>
   wp (setCondition E m ct st reason msg) Q"
  by (simp add: setCondition_def wp_def peek_def update_status_def)

lemma emits_bind_setCondition [emits_rules]:
  assumes "\<And>cs. emits A (f (update_status (\<lambda>s. s\<lparr>st_conditions := cs\<rparr>) m))"
  shows "emits A (bind (setCondition E m ct st reason msg) f)"
  using assms unfolding emits_def by (auto intro!: wp_bind wp_setCondition)

lemma wp_bind_emits:
  assumes "emits A p"
    and "\<And>as e. list_all A as \<Longrightarrow> Q as (Inl e)"
    and "\<And>as v. list_all A as \<Longrightarrow> wp (f v) (\<lambda>bs r. Q (as @ bs) r)"
  shows "wp (bind p f) Q"
  by (rule wp_bind, rule emits_wp [OF assms(1)]) (use assms(2,3) in \<open>auto split: sum.splits\<close>)

text \<open>A one-shot trigger: an annotation that requests an action by its value and is removed by a patch
  that changes nothing else.\<close>

locale one_shot =
  fixes key val :: string
    and requested :: "machine \<Rightarrow> bool"
    and remove :: "'w env \<Rightarrow> machine \<Rightarrow> ('w, machine) go"
    and failure :: "machine \<Rightarrow> go_error \<Rightarrow> go_error"
  assumes request: "requested m \<longleftrightarrow> sget (m_annotations m) key = val"
    and nonempty: "val \<noteq> []"
    and removal: "remove E m =
      (if \<not> has_key (m_annotations m) key then ret m
       else map_error (failure m) (patch_machine E m (set_annotations (AList.delete key) m)))"
begin

lemma wp_remove:
  assumes "\<not> has_key (m_annotations m) key \<Longrightarrow> Q [] (Inr m)"
    and "\<And>e. has_key (m_annotations m) key \<Longrightarrow>
      Q [PatchMachine m (set_annotations (AList.delete key) m) (Inl e)] (Inl (failure m e))"
    and "\<And>m'. has_key (m_annotations m) key \<Longrightarrow>
      Q [PatchMachine m (set_annotations (AList.delete key) m) (Inr m')] (Inr m')"
  shows "wp (remove E m) Q"
  unfolding removal patch_machine_def by (auto intro!: wp_rules assms)

lemma consumed: "\<not> requested (set_annotations (AList.delete key) m)"
  using nonempty by (simp add: request)

lemma unset: "\<not> has_key (m_annotations m) key \<Longrightarrow> \<not> requested m"
  using nonempty by (simp add: request sget_no_key)

lemma removal_only:
  "sget (m_annotations (set_annotations (AList.delete key) m)) k = (if k = key then [] else sget (m_annotations m) k)"
  by simp

end

interpretation wake_now: one_shot AnnotationWakeNow AnnotationWakeNowValue wakeRequested removeWakeAnnotation
    "\<lambda>m. Wrapf ''remove wake-now annotation from machine %q: %w'' [TQuoted (m_name m)]"
  by unfold_locales (simp_all add: wakeRequested_def removeWakeAnnotation_def)

interpretation drain_now: one_shot AnnotationDrainNow AnnotationDrainNowValue drainRequested removeDrainAnnotation
    "\<lambda>m. Wrapf ''remove drain-now annotation from machine %q: %w'' [TQuoted (m_name m)]"
  by unfold_locales (simp_all add: drainRequested_def removeDrainAnnotation_def)

lemmas trigger_rules [wp_rules] = wake_now.wp_remove drain_now.wp_remove

lemmas metric_defs = RecordPowerOn_def ObserveScaleUpLatency_def RecordDrainFailure_def

lemmas guard_defs = podsKeepingNodeOn_def backingNode_def nodeAlwaysOn_def nodeIsReady_def
  nodeWentDownSince_def nothingKeepsNodeOn_def otherMachinesOnNode_def

lemmas pool_defs = matchingPools_def poolForMachine_def drainPolicy_def

lemmas trigger_defs = removeWakeAnnotation_def removeDrainAnnotation_def stampNotReadySince_def
  clearNotReadySince_def

lemmas timer_defs = bootTimedOut_def drainTimedOut_def shutdownTimedOut_def requeueForBoot_def
  requeueForShutdown_def

lemmas node_write_defs = setCordon_def uncordonIfONPCordoned_def dropStaleCordonMarker_def
  applyNodeTemplate_def capacityDrift_def

lemmas piece_defs = metric_defs guard_defs pool_defs trigger_defs timer_defs node_write_defs client_defs

section \<open>The rights of each method\<close>

lemma rights_setCordon [emits_rules]:
  assumes "\<And>n. b \<Longrightarrow> \<not> node_unschedulable n \<Longrightarrow> may_patch c n (cordonNode n)"
    and "\<And>n. \<not> b \<Longrightarrow> may_patch c n (uncordonNode n)"
  shows "emits (within c) (setCordon E k b)"
  unfolding setCordon_def client_defs using assms by (auto intro!: emits_rules)

lemma rights_uncordonIfONPCordoned [emits_rules]:
  assumes "\<And>n. may_patch c n (uncordonNode n)"
  shows "emits (within c) (uncordonIfONPCordoned E k)"
  unfolding uncordonIfONPCordoned_def client_defs using assms by (auto intro!: emits_rules)

lemma rights_dropStaleCordonMarker [emits_rules]:
  assumes "\<And>n. \<not> node_unschedulable n \<Longrightarrow>
    may_patch c n (set_node_annotations (AList.delete AnnotationCordonedByONP) n)"
  shows "emits (within c) (dropStaleCordonMarker E k)"
  unfolding dropStaleCordonMarker_def backingNode_def client_defs using assms
  by (auto intro!: emits_rules)

lemma rights_applyNodeTemplate [emits_rules]:
  assumes "\<And>n labels taints. \<not> has_key labels LabelAlwaysOn \<Longrightarrow>
    may_patch c n (fst (applyTemplateTo labels taints n))"
  shows "emits (within c) (applyNodeTemplate E m)"
proof -
  have keep: "may_patch c n n'"
    if "dropReservedLabels l = (labels, dropped)" and "applyTemplateTo labels ts n = (n', ch)"
    for l labels dropped ts n n' ch
    using assms [of labels n ts] that dropReservedLabels_fst [of l] by simp
  show ?thesis
    unfolding applyNodeTemplate_def pool_defs client_defs using keep
    by (auto intro!: emits_rules)
qed

lemma rights_failBoot [emits_rules]:
  assumes "\<And>m'. state_of m' = Failed \<Longrightarrow> may_write c m'"
  shows "emits (within c) (failBoot R m reason msg)"
  unfolding failBoot_def piece_defs Let_def using assms by (auto intro!: emits_rules)

lemma rights_enterReady [emits_rules]:
  assumes "\<And>m'. state_of m' = Ready \<Longrightarrow> may_write c m'"
  shows "emits (within c) (enterReady R m u d)"
  unfolding enterReady_def piece_defs Let_def using assms by (auto intro!: emits_rules)

lemma rights_promoteToReady [emits_rules]:
  assumes "\<And>m'. state_of m' = Ready \<Longrightarrow> may_write c m'"
    and "\<And>m'. state_of m' = Failed \<Longrightarrow> may_write c m'"
    and "\<And>n. may_patch c n (uncordonNode n)"
    and "\<And>n labels taints. \<not> has_key labels LabelAlwaysOn \<Longrightarrow>
      may_patch c n (fst (applyTemplateTo labels taints n))"
  shows "emits (within c) (promoteToReady R m)"
  unfolding promoteToReady_def capacityDrift_def timer_defs client_defs Let_def using assms
  by (auto intro!: emits_rules)

lemma rights_wakeMachine [emits_rules]:
  assumes "may_power c m"
    and "\<And>m'. state_of m' = Booting \<Longrightarrow> st_bootStartTime (m_status m') \<noteq> None \<Longrightarrow> may_write c m'"
    and "\<And>cs. may_write c (update_status (\<lambda>s. s\<lparr>st_conditions := cs\<rparr>) m)"
  shows "emits (within c) (wakeMachine R m)"
  unfolding wakeMachine_def power_on_def piece_defs Let_def using assms by (auto intro!: emits_rules)

lemma rights_resendPowerOn [emits_rules]: "may_power c m \<Longrightarrow> emits (within c) (resendPowerOn R m)"
  unfolding resendPowerOn_def power_on_def piece_defs Let_def by (auto intro!: emits_rules)

lemma rights_startDraining [emits_rules]:
  assumes "\<And>m'. state_of m' = Draining \<Longrightarrow> st_drainStartTime (m_status m') \<noteq> None \<Longrightarrow> may_write c m'"
  shows "emits (within c) (startDraining R m)"
  unfolding startDraining_def piece_defs Let_def using assms by (auto intro!: emits_rules)

lemma rights_reconcileReadyNodeLost [emits_rules]:
  assumes "\<And>m'. state_of m' = Off \<Longrightarrow> may_write c m'"
  shows "emits (within c) (reconcileReadyNodeLost R m)"
  unfolding reconcileReadyNodeLost_def piece_defs Let_def using assms by (auto intro!: emits_rules)

lemma rights_reconcileReady [emits_rules]:
  assumes "\<And>m'. state_of m' = Off \<Longrightarrow> may_write c m'"
    and "\<And>m'. state_of m' = Draining \<Longrightarrow> st_drainStartTime (m_status m') \<noteq> None \<Longrightarrow> may_write c m'"
    and "\<And>n. \<not> node_unschedulable n \<Longrightarrow>
      may_patch c n (set_node_annotations (AList.delete AnnotationCordonedByONP) n)"
  shows "emits (within c) (reconcileReady R m)"
  unfolding reconcileReady_def nodeIsReady_def trigger_defs client_defs Let_def using assms
  by (auto intro!: emits_rules)

lemma rights_abortDrain [emits_rules]:
  assumes "\<And>m'. state_of m' = Ready \<Longrightarrow> may_write c m'"
    and "\<And>n. may_patch c n (uncordonNode n)"
  shows "emits (within c) (abortDrain R m)"
  unfolding abortDrain_def client_defs Let_def using assms by (auto intro!: emits_rules)

lemma rights_failDrain [emits_rules]:
  assumes "\<And>m'. state_of m' = Failed \<Longrightarrow> may_write c m'"
    and "\<And>n. may_patch c n (uncordonNode n)"
  shows "emits (within c) (failDrain R m t)"
  unfolding failDrain_def metric_defs client_defs Let_def using assms by (auto intro!: emits_rules)

lemma rights_enterShuttingDown [emits_rules]:
  assumes "\<And>m'. state_of m' = ShuttingDown \<Longrightarrow> st_shutdownStartTime (m_status m') \<noteq> None \<Longrightarrow> may_write c m'"
  shows "emits (within c) (enterShuttingDown R m)"
  unfolding enterShuttingDown_def client_defs Let_def using assms by (auto intro!: emits_rules)

lemma rights_evictTurn [emits_rules]:
  assumes "isDrainable pod force \<Longrightarrow> may_evict c pod"
  shows "emits (within c) (evictTurn R m force pod)"
  unfolding evictTurn_def evictPod_def using assms by (auto intro!: emits_rules)

lemma rights_drainPass [emits_rules]:
  assumes "\<And>m'. state_of m' = ShuttingDown \<Longrightarrow> st_shutdownStartTime (m_status m') \<noteq> None \<Longrightarrow> may_write c m'"
    and "\<And>pod. isDrainable pod force \<Longrightarrow> may_evict c pod"
    and "\<And>n. \<not> node_unschedulable n \<Longrightarrow> may_patch c n (cordonNode n)"
  shows "emits (within c) (drainPass R m force)"
  unfolding drainPass_def guard_defs client_defs Let_def using assms by (auto intro!: emits_rules)

lemma rights_drainTimedOut [emits_rules]: "emits (within c) (drainTimedOut R m t)"
  unfolding drainTimedOut_def client_defs by (auto intro!: emits_rules)

lemma rights_reconcileShuttingDown [emits_rules]:
  assumes "\<And>m'. state_of m' = Off \<Longrightarrow> may_write c m'"
    and "\<And>m'. state_of m' = Failed \<Longrightarrow> may_write c m'"
  shows "emits (within c) (reconcileShuttingDown R m)"
  unfolding reconcileShuttingDown_def piece_defs Let_def using assms by (auto intro!: emits_rules)

lemma rights_initialize [emits_rules]:
  assumes "\<And>m'. state_of m' = Off \<Longrightarrow> may_write c m'"
  shows "emits (within c) (initialize R m)"
  unfolding initialize_def client_defs using assms by (auto intro!: emits_rules)

text \<open>The handlers of Off, Booting and Draining, whose Machine may have been replaced by the server's
  answer to a patch.\<close>

lemma rights_reconcileOff [emits_rules]:
  assumes "\<And>m'. may_write c m'" and "\<And>m'. may_power c m'"
    and "\<And>n. may_patch c n (uncordonNode n)"
    and "\<And>n labels taints. \<not> has_key labels LabelAlwaysOn \<Longrightarrow>
      may_patch c n (fst (applyTemplateTo labels taints n))"
  shows "emits (within c) (reconcileOff R m)"
  unfolding reconcileOff_def nodeIsReady_def trigger_defs client_defs Let_def using assms
  by (auto intro!: emits_rules)

lemma rights_reconcileBooting [emits_rules]:
  assumes "\<And>m'. state_of m' = Ready \<Longrightarrow> may_write c m'"
    and "\<And>m'. state_of m' = Failed \<Longrightarrow> may_write c m'" and "\<And>m'. may_power c m'"
    and "\<And>n. may_patch c n (uncordonNode n)"
    and "\<And>n labels taints. \<not> has_key labels LabelAlwaysOn \<Longrightarrow>
      may_patch c n (fst (applyTemplateTo labels taints n))"
  shows "emits (within c) (reconcileBooting R m)"
  unfolding reconcileBooting_def nodeIsReady_def trigger_defs timer_defs client_defs Let_def using assms
  by (auto intro!: emits_rules)

lemma rights_reconcileDraining [emits_rules]:
  assumes "\<And>m'. state_of m' \<in> {Ready, Failed} \<Longrightarrow> may_write c m'"
    and "\<And>m'. state_of m' = ShuttingDown \<Longrightarrow> st_shutdownStartTime (m_status m') \<noteq> None \<Longrightarrow> may_write c m'"
    and "\<And>pod force. isDrainable pod force \<Longrightarrow> may_evict c pod"
    and "\<And>n. may_patch c n (uncordonNode n)"
    and "\<And>n. \<not> node_unschedulable n \<Longrightarrow> may_patch c n (cordonNode n)"
  shows "emits (within c) (reconcileDraining R m)"
  unfolding reconcileDraining_def nodeAlwaysOn_def pool_defs trigger_defs client_defs Let_def using assms
  by (auto intro!: emits_rules)

end
