(* ===== verification/Reference_Store.thy ===== *)
theory Reference_Store
  imports Power_Provider
begin

text \<open>
  A small API server on which the model runs: objects in lists, writes that replace the object of the
  same name and always succeed, a clock that stands still, reads that are never stale. It is one
  instance of the parameters \<^typ>\<open>lib\<close> and \<^typ>\<open>'w env\<close>, used to evaluate the witnesses; no
  property of the development is restricted to it.
\<close>

section \<open>Library helpers\<close>

text \<open>\<^verbatim>\<open>matchLabels\<close> requires every listed label; a selector with expressions is rejected.\<close>

definition store_selector :: "label_selector \<Rightarrow> go_error + (strmap \<Rightarrow> bool)" where
  "store_selector s =
     (if ls_matchExpressions s \<noteq> [] then Inl (Errorf ''unsupported selector'' [])
      else Inr (\<lambda>labels. list_all (\<lambda>(k, v). map_of labels k = Some v) (ls_matchLabels s)))"

definition store_tolerates :: "toleration list \<Rightarrow> taint \<Rightarrow> bool" where
  "store_tolerates tols t = list_ex (\<lambda>tol. tol_key tol = taint_key t) tols"

definition store_lib :: lib where
  "store_lib =
     \<lparr>LabelSelectorAsSelector = store_selector,
      FindStatusCondition = (\<lambda>cs t. find (\<lambda>c. cond_type c = t) cs),
      quantity_cmp = (\<lambda>a b. sgn (a - b)),
      quantity_add = (+),
      quantity_sub = (-),
      quantity_sign = sgn,
      quantity_string = (\<lambda>q. []),
      PodRequests = (\<lambda>pod. [(''cpu'', int (length (pod_rest pod)))]),
      TolerationsTolerateTaint = store_tolerates,
      FindMatchingUntoleratedTaint = (\<lambda>taints tols keep.
        find (\<lambda>t. keep t \<and> \<not> store_tolerates tols t) taints),
      RequiredNodeAffinityMatch = (\<lambda>pod nd. Inr True),
      NewNodeSelector = (\<lambda>s. case s of NodeSelector n \<Rightarrow> Inr (\<lambda>nd. node_name nd = n))\<rparr>"

section \<open>The server\<close>

record world =
  w_now :: time
  w_machines :: "machine list"
  w_nodes :: "node list"
  w_pods :: "pod list"
  w_pools :: "nodepool list"
  w_claims :: "((string \<times> string) \<times> claim) list"
  w_volumes :: "(string \<times> persistent_volume) list"

definition found :: "'a option \<Rightarrow> go_error + 'a" where
  "found x = (case x of None \<Rightarrow> Inl (ApiError NotFound []) | Some v \<Rightarrow> Inr v)"

definition put_machine :: "machine \<Rightarrow> world \<Rightarrow> (go_error + machine) \<times> world" where
  "put_machine m w =
     (Inr m, w\<lparr>w_machines := map (\<lambda>x. if m_name x = m_name m then m else x) (w_machines w)\<rparr>)"

definition put_node :: "node \<Rightarrow> world \<Rightarrow> (go_error + node) \<times> world" where
  "put_node n w =
     (Inr n, w\<lparr>w_nodes := map (\<lambda>x. if node_name x = node_name n then n else x) (w_nodes w)\<rparr>)"

definition put_pool :: "nodepool \<Rightarrow> world \<Rightarrow> (go_error + nodepool) \<times> world" where
  "put_pool p w =
     (Inr p, w\<lparr>w_pools := map (\<lambda>x. if pool_name x = pool_name p then p else x) (w_pools w)\<rparr>)"

definition store_evict :: "pod \<Rightarrow> eviction \<Rightarrow> world \<Rightarrow> (go_error + unit) \<times> world" where
  "store_evict pod ev w =
     (Inr (), w\<lparr>w_pods := map (\<lambda>x. if pod_namespace x = eviction_namespace ev \<and> pod_name x = eviction_name ev
        then x\<lparr>pod_deletionTimestamp := Some (w_now w)\<rparr> else x) (w_pods w)\<rparr>)"

definition store_matching :: "label_selector \<Rightarrow> machine list \<Rightarrow> go_error + machine list" where
  "store_matching s ms =
     (case store_selector s of Inl e \<Rightarrow> Inl e | Inr f \<Rightarrow> Inr (filter (\<lambda>m. f (m_labels m)) ms))"

definition store_env :: "world env" where
  "store_env =
     \<lparr>env_lib = store_lib,
      env_now = (\<lambda>w. (w_now w, w)),
      env_get_machine = (\<lambda>n w. (found (find (\<lambda>m. m_name m = n) (w_machines w)), w)),
      env_get_node = (\<lambda>n w. (found (find (\<lambda>x. node_name x = n) (w_nodes w)), w)),
      env_get_pod = (\<lambda>ns n w. (found (find (\<lambda>p. pod_namespace p = ns \<and> pod_name p = n) (w_pods w)), w)),
      env_get_pool = (\<lambda>rd n w. (found (find (\<lambda>p. pool_name p = n) (w_pools w)), w)),
      env_get_claim = (\<lambda>ns n w. (found (map_of (w_claims w) (ns, n)), w)),
      env_get_volume = (\<lambda>n w. (found (map_of (w_volumes w) n), w)),
      env_list_pools = (\<lambda>w. (Inr (w_pools w), w)),
      env_list_machines = (\<lambda>w. (Inr (w_machines w), w)),
      env_list_machines_on_node = (\<lambda>k w. (Inr (filter (\<lambda>m. nodeName_of m = k) (w_machines w)), w)),
      env_list_machines_matching = (\<lambda>rd s w. (store_matching s (w_machines w), w)),
      env_list_pods = (\<lambda>w. (Inr (w_pods w), w)),
      env_list_pods_on_node = (\<lambda>rd k w. (Inr (filter (\<lambda>p. pod_nodeName p = k) (w_pods w)), w)),
      env_update_machine_status = put_machine,
      env_patch_machine = (\<lambda>orig m. put_machine m),
      env_patch_machine_status = (\<lambda>orig m. put_machine m),
      env_patch_node = (\<lambda>orig n. put_node n),
      env_update_pool_status = put_pool,
      env_patch_pool_status = (\<lambda>orig p. put_pool p),
      env_create_eviction = store_evict,
      env_set_status_condition = (\<lambda>w cs c. c # filter (\<lambda>x. cond_type x \<noteq> cond_type c) cs)\<rparr>"

section \<open>A provider and sample objects\<close>

definition store_provider :: "world provider" where
  "store_provider =
     \<lparr>prov_Name = ''wol'', prov_PowerOn = (\<lambda>m w. (Inr (), w)), prov_PowerOff = (\<lambda>m w. (Inl ErrUnsupported, w)),
      prov_PowerStatus = (\<lambda>m w. ((StateUnknown, Some ErrUnsupported), w)),
      prov_Capabilities = \<lparr>CanPowerOn = True, CanPowerOff = False, CanQueryStatus = False\<rparr>\<rparr>"

definition sample_machine :: "string \<Rightarrow> string \<Rightarrow> machine_state \<Rightarrow> machine" where
  "sample_machine name nodeName st =
     \<lparr>m_name = name, m_labels = [(''pool'', ''a'')], m_annotations = [], m_generation = 1,
      m_resourceVersion = ''1'',
      m_spec = \<lparr>spec_nodeName = nodeName, spec_capacity = [(''cpu'', 8)], spec_labels = [],
        spec_power = \<lparr>power_provider = ''wol'', power_wol = None\<rparr>, spec_shutdown = None\<rparr>,
      m_status = \<lparr>st_state = st, st_bootStartTime = None, st_drainStartTime = None,
        st_emptySince = None, st_shutdownStartTime = None, st_notReadySince = None, st_conditions = []\<rparr>\<rparr>"

definition sample_node :: "string \<Rightarrow> cond_status \<Rightarrow> bool \<Rightarrow> node" where
  "sample_node name ready unschedulable =
     \<lparr>node_name = name, node_labels = [], node_annotations = [], node_unschedulable = unschedulable,
      node_taints = [], node_allocatable = [(''cpu'', 8)],
      node_conditions = [\<lparr>nc_type = NodeReady, nc_status = ready, nc_lastTransition = 10\<rparr>], node_rest = []\<rparr>"

definition sample_pod :: "string \<Rightarrow> string \<Rightarrow> pod" where
  "sample_pod name nodeName =
     \<lparr>pod_namespace = ''default'', pod_name = name, pod_annotations = [], pod_ownerKinds = [],
      pod_deletionTimestamp = None, pod_nodeName = nodeName, pod_tolerations = [], pod_volumes = [],
      pod_phase = PodRunning, pod_conditions = [], pod_rest = ''x''\<rparr>"

definition sample_pool :: "string \<Rightarrow> bool \<Rightarrow> nodepool" where
  "sample_pool name force =
     \<lparr>pool_name = name, pool_generation = 1, pool_resourceVersion = ''1'',
      pool_spec = \<lparr>ps_minNodes = 0, ps_maxNodes = None,
        ps_machineSelector = \<lparr>ls_matchLabels = [(''pool'', ''a'')], ls_matchExpressions = []\<rparr>,
        ps_template = \<lparr>tmpl_labels = [], tmpl_taints = []\<rparr>,
        ps_disruption = \<lparr>dis_consolidationPolicy = ConsolidationPolicyWhenEmpty,
          dis_consolidateAfter = Some 0, dis_maxConcurrent = None\<rparr>,
        ps_cooldown = \<lparr>cool_scaleUp = None, cool_scaleDown = None\<rparr>,
        ps_drain = \<lparr>drain_timeoutSeconds = None, drain_force = force\<rparr>\<rparr>,
      pool_status = \<lparr>pst_totalMachines = 0, pst_readyMachines = 0, pst_lastScaleUpTime = None,
        pst_lastScaleDownTime = None, pst_conditions = []\<rparr>\<rparr>"

definition empty_world :: "time \<Rightarrow> world" where
  "empty_world t = \<lparr>w_now = t, w_machines = [], w_nodes = [], w_pods = [], w_pools = [], w_claims = [],
     w_volumes = []\<rparr>"

section \<open>The library helpers behave as documented\<close>

lemma store_quantity_ok: "quantity_ok store_lib"
  by (simp add: quantity_ok_def store_lib_def)

end
