(* ===== verification/Machine_Safety.thy ===== *)
theory Machine_Safety
  imports Machine_Rights Reference_Store
begin

text \<open>
  The gates of the Machine reconciler: the evidence that a whole \<^verbatim>\<open>Reconcile\<close> has in hand
  when it evicts a pod, powers a machine on, or hands a machine to the power-off, whatever the API
  server, the cache, the clock and the power provider answer. The locale \<open>evidence\<close> holds what the
  three gates share: evidence is kept by later interactions, and a Machine that the API server returns
  to a patch takes the place of the one the method started from.
\<close>

section \<open>Evidence for an action\<close>

text \<open>The Machines that the API server returned to a patch.\<close>

definition returned :: "action set \<Rightarrow> machine set" where
  "returned A = {m. \<exists>orig new. PatchMachine orig new (Inr m) \<in> A}"

text \<open>Evidence for the actions of a kind \<open>X\<close>: each is backed by the Machine the method started from, or by one that the
  server returned before it, together with the interactions before it. \<open>held\<close> is the same for one Machine, after
  the interactions \<open>B\<close>.\<close>

definition justified ::
  "(action \<Rightarrow> bool) \<Rightarrow> (machine \<Rightarrow> action set \<Rightarrow> action \<Rightarrow> bool) \<Rightarrow> machine \<Rightarrow> action list \<Rightarrow> bool" where
  "justified X K m = grounded (\<lambda>A a. X a \<longrightarrow> (\<exists>m'\<in>insert m (returned A). K m' A a)) {}"

definition held ::
  "(action \<Rightarrow> bool) \<Rightarrow> (machine \<Rightarrow> action set \<Rightarrow> action \<Rightarrow> bool) \<Rightarrow> machine \<Rightarrow> action set \<Rightarrow> action list \<Rightarrow> bool" where
  "held X K m = grounded (\<lambda>A a. X a \<longrightarrow> K m A a)"

text \<open>The reconcile of \<open>name\<close> was about the Machine \<open>m\<close>, and no other Machine was listed for its Node.\<close>

definition cleared :: "string \<Rightarrow> machine \<Rightarrow> action set \<Rightarrow> bool" where
  "cleared name m A \<longleftrightarrow> GetMachine name (Inr m) \<in> A \<and>
     (nodeName_of m = [] \<or>
      (\<exists>ms. ListMachinesOnNode (nodeName_of m) (Inr ms) \<in> A \<and> (\<forall>other\<in>set ms. m_name other = m_name m)))"

fun is_eviction :: "action \<Rightarrow> bool" where
  "is_eviction (EvictPod pod r) = True"
| "is_eviction _ = False"

fun is_power_on :: "action \<Rightarrow> bool" where
  "is_power_on (PowerOnCall p m r) = True"
| "is_power_on _ = False"

fun is_power_off :: "action \<Rightarrow> bool" where
  "is_power_off (UpdateMachineStatus m r) = (state_of m = ShuttingDown)"
| "is_power_off _ = False"

text \<open>A pod may be evicted if it is workload and not terminating already, and a protected pod only if
  the Machine has exactly one pool and that pool forces drains.\<close>

fun eviction_evidence :: "lib \<Rightarrow> machine \<Rightarrow> action set \<Rightarrow> action \<Rightarrow> bool" where
  "eviction_evidence L m A (EvictPod pod r) =
     (isWorkload pod \<and> pod_deletionTimestamp pod = None \<and>
      (hasDoNotDisrupt pod \<longrightarrow>
        (\<exists>pools p. ListPools (Inr pools) \<in> A \<and> poolsOf L pools m = [p] \<and> drain_force (ps_drain (pool_spec p)))))"
| "eviction_evidence L m A _ = False"

text \<open>An answer of the API server about the Node \<open>k\<close> that satisfies \<open>P\<close>; a Machine without a
  node name and a Node that does not exist satisfy it too.\<close>

definition node_answer :: "(node \<Rightarrow> bool) \<Rightarrow> string \<Rightarrow> action set \<Rightarrow> bool" where
  "node_answer P k A \<longleftrightarrow>
     k = [] \<or> (\<exists>e. is_not_found e \<and> GetNode k (Inl e) \<in> A) \<or> (\<exists>n. P n \<and> GetNode k (Inr n) \<in> A)"

text \<open>A Machine may be written ShuttingDown if its Node was seen without the always-on label and
  already cordoned, and a list read straight from the API server holds no pod that keeps it on.\<close>

fun power_off_evidence :: "machine \<Rightarrow> action set \<Rightarrow> action \<Rightarrow> bool" where
  "power_off_evidence m A (UpdateMachineStatus m' r) =
     (m_name m' = m_name m \<and> m_spec m' = m_spec m \<and>
      node_answer (\<lambda>n. \<not> alwaysOnLabelled n) (nodeName_of m) A \<and>
      node_answer node_unschedulable (nodeName_of m) A \<and>
      (\<exists>pods. ListPodsOnNode Fresh (nodeName_of m) (Inr pods) \<in> A \<and> (\<forall>pod\<in>set pods. \<not> keepsNodeOn pod)) \<and>
      (\<exists>t. ReadClock t \<in> A \<and> st_shutdownStartTime (m_status m') = Some t))"
| "power_off_evidence m A _ = False"

text \<open>In Off, a status write after a failed power-on repeats the state of the Machine at hand.\<close>

definition repeated_state :: "machine \<Rightarrow> action set \<Rightarrow> action \<Rightarrow> bool" where
  "repeated_state m A a \<longleftrightarrow> state_of m = ShuttingDown"

text \<open>A Machine may be powered on if its Node was seen not Ready, its provider is registered and can
  power on, and either the wake trigger is set or it has been booting for a poll interval.\<close>

fun power_on_evidence :: "'w machine_reconciler \<Rightarrow> machine \<Rightarrow> action set \<Rightarrow> action \<Rightarrow> bool" where
  "power_on_evidence R m A (PowerOnCall p m' r) =
     (m' = m \<and> p = provider_of m \<and>
      (\<exists>prov. registry_get (mr_Registry R) p = Some prov \<and> CanPowerOn (prov_Capabilities prov)) \<and>
      node_answer (\<lambda>n. \<not> reportsReady n) (nodeName_of m) A \<and>
      (wakeRequested m \<or>
       (\<exists>t n. st_bootStartTime (m_status m) = Some t \<and> ReadClock n \<in> A \<and> bootPollInterval \<le> time_sub n t)))"
| "power_on_evidence R m A _ = False"

section \<open>Samples\<close>

definition sample_reconciler :: "world machine_reconciler" where
  "sample_reconciler =
     \<lparr>mr_env = store_env, mr_Registry = [(''wol'', store_provider)], mr_BootTimeout = 10 * minute,
      mr_ShutdownTimeout = 10 * minute, mr_NodeLossGracePeriod = minute, mr_Evict = None\<rparr>"

definition protected_pod :: pod where
  "protected_pod = (sample_pod ''p'' ''n'')\<lparr>pod_annotations := [(AnnotationDoNotDisrupt, AnnotationDoNotDisruptValue)]\<rparr>"

definition sample_world :: "machine_state \<Rightarrow> cond_status \<Rightarrow> bool \<Rightarrow> world" where
  "sample_world st ready cordoned =
     (empty_world 100)\<lparr>w_machines := [sample_machine ''m'' ''n'' st],
       w_nodes := [sample_node ''n'' ready cordoned], w_pools := [sample_pool ''a'' True]\<rparr>"

definition drain_world :: world where
  "drain_world = (sample_world Draining CondTrue True)\<lparr>w_pods := [protected_pod]\<rparr>"

definition wake_world :: world where
  "wake_world = (sample_world Off CondFalse False)\<lparr>w_machines :=
     [set_annotations (AList.update AnnotationWakeNow AnnotationWakeNowValue) (sample_machine ''m'' ''n'' Off)]\<rparr>"

section \<open>Evidence\<close>

lemma withinD:
  assumes "list_all (within c) as"
  shows "EvictPod pod ru \<in> set as \<Longrightarrow> may_evict c pod"
    and "PowerOnCall p m ru \<in> set as \<Longrightarrow> may_power c m"
    and "UpdateMachineStatus m r \<in> set as \<Longrightarrow> may_write c m"
    and "PatchNode n n' rn \<in> set as \<Longrightarrow> may_patch c n n'"
  using assms by (auto simp: list_all_iff dest!: bspec)

lemma returned_insert:
  "returned (insert (PatchMachine m m' (Inr m'')) A) = insert m'' (returned A)"
  "returned A \<subseteq> returned (insert a A)"
  by (auto simp: returned_def)

lemma node_answer_mono: "node_answer P k A \<Longrightarrow> A \<subseteq> B \<Longrightarrow> node_answer P k B"
  by (auto simp: node_answer_def)

lemma node_answerI:
  "node_answer P [] A"
  "is_not_found e \<Longrightarrow> GetNode k (Inl e) \<in> A \<Longrightarrow> node_answer P k A"
  "P n \<Longrightarrow> GetNode k (Inr n) \<in> A \<Longrightarrow> node_answer P k A"
  by (auto simp: node_answer_def)

locale evidence =
  fixes X :: "action \<Rightarrow> bool"
    and K :: "machine \<Rightarrow> action set \<Rightarrow> action \<Rightarrow> bool"
  assumes mono: "K m A a \<Longrightarrow> A \<subseteq> B \<Longrightarrow> K m B a"
    and patch_unmarked: "\<not> X (PatchMachine m m' r)"
    and passive_unmarked: "is_passive a \<Longrightarrow> \<not> X a"
begin

lemma held_none: "list_all (\<lambda>a. \<not> X a) as \<Longrightarrow> held X K m B as"
  by (auto simp: held_def list_all_iff intro: grounded_all)

lemma held_all: "(\<And>a. a \<in> set as \<Longrightarrow> X a \<Longrightarrow> K m B a) \<Longrightarrow> held X K m B as"
  unfolding held_def by (rule grounded_all) (auto intro: mono)

lemma held_mono: "held X K m A as \<Longrightarrow> A \<subseteq> B \<Longrightarrow> held X K m B as"
  unfolding held_def by (erule grounded_mono) (auto intro: mono)

lemma held_Cons: "held X K m B (a # as) \<longleftrightarrow> (X a \<longrightarrow> K m B a) \<and> held X K m (insert a B) as"
  by (simp add: held_def)

lemma held_append: "held X K m B (as @ bs) \<longleftrightarrow> held X K m B as \<and> held X K m (B \<union> set as) bs"
  by (simp add: held_def grounded_append)

lemma here: "held X K m {} as \<Longrightarrow> justified X K m as"
  unfolding held_def justified_def by (erule grounded_mono) (auto intro: mono)

lemma none: "list_all (\<lambda>a. \<not> X a) as \<Longrightarrow> justified X K m as"
  by (rule here) (rule held_none)

text \<open>After an interaction that is not of the kind, and after a patch that returned another Machine.\<close>

lemma after_any:
  assumes "justified X K m' as" and "\<not> X a" and "insert m' (returned A) \<subseteq> insert m (returned (insert a A))"
    and "A = {}"
  shows "justified X K m (a # as)"
proof -
  have "grounded (\<lambda>A b. X b \<longrightarrow> (\<exists>m''\<in>insert m (returned A). K m'' A b)) ({a} \<union> B) as"
    if "grounded (\<lambda>A b. X b \<longrightarrow> (\<exists>m''\<in>insert m' (returned A). K m'' A b)) B as" for B
    using that
  proof (induction as arbitrary: B)
    case (Cons b as)
    have "m'' \<in> insert m (returned ({a} \<union> B))" if "m'' \<in> insert m' (returned B)" for m''
      using that assms(3,4) by (auto simp: returned_def)
    with Cons.prems have "X b \<longrightarrow> (\<exists>m''\<in>insert m (returned ({a} \<union> B)). K m'' ({a} \<union> B) b)"
      using mono [of _ B b "{a} \<union> B"] by (auto 4 4)
    with Cons.IH [of "insert b B"] Cons.prems show ?case by (simp add: insert_commute)
  qed simp
  from this [of "{}"] assms(1,2) show ?thesis by (simp add: justified_def)
qed

lemma after: "\<not> X a \<Longrightarrow> justified X K m as \<Longrightarrow> justified X K m (a # as)"
  by (erule after_any [where A = "{}"]) (auto simp: returned_def)

lemma after_patch: "justified X K m' as \<Longrightarrow> justified X K m (PatchMachine orig new (Inr m') # as)"
  by (erule after_any [where A = "{}"]) (auto simp: returned_def patch_unmarked)

lemma after_removeDrainAnnotation:
  assumes "\<And>m. wp (f m) (\<lambda>as r. justified X K m as)"
  shows "wp (bind (removeDrainAnnotation E m) f) (\<lambda>as r. justified X K m as)"
  by (auto intro!: wp_bind drain_now.wp_remove wp_mono [OF assms] after_patch
      simp: none patch_unmarked)

text \<open>Along a program that has the interactions \<open>B\<close> behind it.\<close>

lemma held_quiet: "emits (\<lambda>a. \<not> X a) p \<Longrightarrow> wp p (\<lambda>as r. held X K m B as)"
  by (auto intro: held_none elim!: emits_wp)

lemma held_bind:
  assumes "emits (\<lambda>a. \<not> X a) p" and "\<And>v. wp (f v) (\<lambda>as r. held X K m B as)"
  shows "wp (bind p f) (\<lambda>as r. held X K m B as)"
proof (rule wp_bind_emits [OF assms(1)])
  fix as v
  assume "list_all (\<lambda>a. \<not> X a) as"
  then show "wp (f v) (\<lambda>bs r. held X K m B (as @ bs))"
    by (intro wp_mono [OF assms(2)]) (auto simp: held_append held_none intro: held_mono)
qed (auto simp: held_none)

lemma held_then:
  assumes "wp p (\<lambda>as r. held X K m B as)" and "\<And>v. emits (\<lambda>a. \<not> X a) (f v)"
  shows "wp (bind p f) (\<lambda>as r. held X K m B as)"
proof (rule wp_bind, rule wp_mono [OF assms(1)], goal_cases)
  case (1 as r)
  have "wp (f v) (\<lambda>bs r. held X K m B (as @ bs))" for v
    by (rule emits_wp [OF assms(2)]) (use 1 in \<open>auto simp: held_append held_none\<close>)
  with 1 show ?case by (auto split: sum.splits)
qed

text \<open>A marked action of a reconcile that consists of passive interactions and the dispatch.\<close>

lemma justified_at:
  assumes "justified X K m (pre @ a # post)" and "X a"
  shows "\<exists>m'\<in>insert m (returned (bs \<union> set pre)). K m' (bs \<union> set pre) a"
proof -
  obtain m' where "m' \<in> insert m (returned (set pre))" and "K m' (set pre) a"
    using grounded_at [OF assms(1) [unfolded justified_def]] assms(2) by auto
  then show ?thesis using mono [of m' "set pre" a "bs \<union> set pre"] by (auto simp: returned_def)
qed

lemma in_dispatch:
  assumes "wp (dispatch R m) (\<lambda>as r. justified X K m as)" and "actions (dispatch R m) w = ds @ a # post" and "X a"
  shows "\<exists>m'\<in>insert m (returned (set (bs @ ds))). K m' (set (bs @ ds)) a"
  using justified_at [OF wpD [OF assms(1), of w, unfolded assms(2)] assms(3), of "set bs"] by simp

end

interpretation evictions: evidence is_eviction "eviction_evidence L" for L
proof unfold_locales
  fix m A a B
  assume "eviction_evidence L m A a" and "A \<subseteq> B"
  then show "eviction_evidence L m B a" by (cases a) auto
next
  show "is_passive a \<Longrightarrow> \<not> is_eviction a" for a by (cases a) (simp_all add: is_passive_def)
qed simp

interpretation power_ons: evidence is_power_on "power_on_evidence R" for R
proof unfold_locales
  fix m A a B
  assume "power_on_evidence R m A a" and "A \<subseteq> B"
  then show "power_on_evidence R m B a"
    by (cases a) (auto intro: node_answer_mono)
next
  show "is_passive a \<Longrightarrow> \<not> is_power_on a" for a by (cases a) (simp_all add: is_passive_def)
qed simp

interpretation power_offs: evidence is_power_off power_off_evidence
proof unfold_locales
  fix m A a B
  assume "power_off_evidence m A a" and "A \<subseteq> B"
  then show "power_off_evidence m B a"
    by (cases a) (auto intro: node_answer_mono)
next
  show "is_passive a \<Longrightarrow> \<not> is_power_off a" for a by (cases a) (simp_all add: is_passive_def)
qed simp

interpretation repeats: evidence is_power_off repeated_state
  by unfold_locales (auto simp: repeated_state_def power_offs.passive_unmarked)

section \<open>Evictions\<close>

lemma wp_none:
  assumes "emits (within c) p" and "\<And>a. within c a \<Longrightarrow> \<not> X a"
  shows "wp p (\<lambda>as r. list_all (\<lambda>a. \<not> X a) as)"
  using assms by (auto simp: emits_def list_all_iff elim!: wp_mono)

lemma no_eviction: "within (only_evict (\<lambda>_. False)) a \<Longrightarrow> \<not> is_eviction a"
  by (cases a) auto

lemma no_power_on: "within (only_power (\<lambda>_. False)) a \<Longrightarrow> \<not> is_power_on a"
  by (cases a) auto

lemma no_power_off: "within (only_write (\<lambda>m. state_of m \<noteq> ShuttingDown)) a \<Longrightarrow> \<not> is_power_off a"
  by (cases a) auto

lemma evictions_after_policy:
  "wp (bind (drainPolicy (mr_env R) m) (\<lambda>(timeout, force).
         bind (drainTimedOut R m timeout) (\<lambda>timedOut.
         if timedOut then failDrain R m timeout else drainPass R m force)))
    (\<lambda>as r. justified is_eviction (eviction_evidence (env_lib (mr_env R))) m as)"
proof (rule wp_bind, rule wp_drainPolicy, goal_cases)
  case (1 e)
  show ?case by (simp add: evictions.none)
next
  case (2 pools)
  let ?L = "env_lib (mr_env R)"
  let ?policy = "drainPolicyOf (poolsOf ?L pools m)"
  obtain timeout force where policy: "?policy = (timeout, force)" by (cases ?policy)
  have rest: "emits (within (only_evict (\<lambda>pod. isDrainable pod force)))
      (bind (drainTimedOut R m timeout) (\<lambda>timedOut.
         if timedOut then failDrain R m timeout else drainPass R m force))"
    by (auto intro!: emits_rules)
  have "eviction_evidence ?L m {ListPools (Inr pools)} a"
    if "list_all (within (only_evict (\<lambda>pod. isDrainable pod force))) as" and "a \<in> set as" and "is_eviction a"
    for as a
  proof (cases a)
    case (EvictPod pod ru)
    with that have "isDrainable pod force" using withinD(1) by fastforce
    moreover have "force \<Longrightarrow> \<exists>p. poolsOf ?L pools m = [p] \<and> drain_force (ps_drain (pool_spec p))"
      using drainPolicyOf_force [of "poolsOf ?L pools m"] by (simp add: policy)
    ultimately show ?thesis using EvictPod by (auto simp: isDrainable_iff)
  qed (use that in simp_all)
  then show ?case
    unfolding policy prod.case sum.case append.simps
    by (intro emits_wp [OF rest] evictions.here) (simp add: evictions.held_Cons evictions.held_all)
qed

lemma evictions_none:
  assumes "emits (within (only_evict (\<lambda>_. False))) p"
  shows "wp p (\<lambda>as r. justified is_eviction (eviction_evidence L) m as)"
  by (rule wp_mono [OF wp_none [OF assms no_eviction] evictions.none])

lemma evictions_reconcileDraining:
  "wp (reconcileDraining R m)
     (\<lambda>as r. justified is_eviction (eviction_evidence (env_lib (mr_env R))) m as)"
proof -
  have abort: "emits (within (only_evict (\<lambda>_. False))) (abortDrain R m')" for m'
    by (auto intro!: emits_rules)
  show ?thesis
    unfolding reconcileDraining_def Let_def
    by (auto intro!: wp_rules wp_mono [OF evictions_none [OF abort]] wp_mono [OF evictions_after_policy]
        evictions.after evictions.after_patch simp: evictions.none)
qed

lemma evictions_dispatch:
  "wp (dispatch R m) (\<lambda>as r. justified is_eviction (eviction_evidence (env_lib (mr_env R))) m as)"
proof (cases "state_of m = Draining")
  case True
  then show ?thesis by (simp add: dispatch_def evictions_reconcileDraining)
next
  case False
  then have "emits (within (only_evict (\<lambda>_. False))) (dispatch R m)"
    by (cases "state_of m") (auto simp: dispatch_def intro!: emits_rules)
  then show ?thesis by (rule evictions_none)
qed

section \<open>Power-off\<close>

definition ready_for_off :: "machine \<Rightarrow> action set \<Rightarrow> bool" where
  "ready_for_off m A \<longleftrightarrow> node_answer (\<lambda>n. \<not> alwaysOnLabelled n) (nodeName_of m) A \<and>
     node_answer node_unschedulable (nodeName_of m) A \<and>
     (\<exists>pods. ListPodsOnNode Fresh (nodeName_of m) (Inr pods) \<in> A \<and> (\<forall>pod\<in>set pods. \<not> keepsNodeOn pod))"

lemma ready_for_off_mono: "ready_for_off m A \<Longrightarrow> A \<subseteq> B \<Longrightarrow> ready_for_off m B"
  unfolding ready_for_off_def by (blast intro: node_answer_mono)

lemma handover_enterShuttingDown:
  assumes "ready_for_off m B"
  shows "wp (enterShuttingDown R m) (\<lambda>as r. held is_power_off power_off_evidence m B as)"
proof -
  have "ready_for_off m (insert (ReadClock t) B)" for t using assms by (rule ready_for_off_mono) auto
  then show ?thesis
    unfolding enterShuttingDown_def client_defs Let_def
    by (auto intro!: wp_rules simp: power_offs.held_Cons power_offs.held_none ready_for_off_def)
qed

lemma power_off_drainPass:
  assumes B: "node_answer (\<lambda>n. \<not> alwaysOnLabelled n) (nodeName_of m) B"
  shows "wp (drainPass R m force) (\<lambda>as r. held is_power_off power_off_evidence m B as)"
proof -
  have turns: "wp (bind (fold_prog (\<lambda>_ pod. evictTurn R m force pod) () workload) (\<lambda>_. ret q))
      (\<lambda>as r. held is_power_off power_off_evidence m A as)" for workload q A
    by (rule power_offs.held_quiet, rule emits_mono [OF _ no_power_off]) (auto intro!: emits_rules)
  have hand: "wp (enterShuttingDown R m) (\<lambda>as r. held is_power_off power_off_evidence m
      (insert (ListPodsOnNode Fresh (nodeName_of m) (Inr pods)) A) as)"
    if "B \<subseteq> A" and "node_answer node_unschedulable (nodeName_of m) A" and "\<not> list_ex keepsNodeOn pods" for A pods
    using that(1,3) node_answer_mono [OF B, of "insert (ListPodsOnNode Fresh (nodeName_of m) (Inr pods)) A"]
      node_answer_mono [OF that(2), of "insert (ListPodsOnNode Fresh (nodeName_of m) (Inr pods)) A"]
    by (intro handover_enterShuttingDown) (auto simp: ready_for_off_def list_ex_iff)
  have hand_nameless: "wp (enterShuttingDown R m) (\<lambda>as r. held is_power_off power_off_evidence m
      (insert (ListPodsOnNode Fresh [] (Inr pods)) B) as)" if "nodeName_of m = []" and "\<not> list_ex keepsNodeOn pods" for pods
    using hand [of B pods] that by (simp add: node_answerI(1))
  have seen: "node_answer node_unschedulable k (insert a (insert (GetNode k (Inl e)) A))" if "is_not_found e" for k a e A
    using that by (auto simp: node_answer_def)
  have cordoned: "node_answer node_unschedulable k (insert a (insert (GetNode k (Inr nd)) A))" if "node_unschedulable nd"
    for k a nd A
    using that by (auto simp: node_answer_def)
  show ?thesis
    unfolding drainPass_def setCordon_def client_defs Let_def
    by (auto intro!: turns hand hand_nameless wp_rules seen cordoned
        simp: power_offs.held_Cons power_offs.held_none node_answerI(1) split: sum.splits)
qed

lemma power_off_after_guard:
  assumes B: "node_answer (\<lambda>n. \<not> alwaysOnLabelled n) (nodeName_of m) B"
  shows "wp (bind (drainPolicy (mr_env R) m) (\<lambda>(timeout, force).
         bind (drainTimedOut R m timeout) (\<lambda>timedOut.
         if timedOut then failDrain R m timeout else drainPass R m force)))
    (\<lambda>as r. held is_power_off power_off_evidence m B as)"
proof -
  have quiet: "emits (\<lambda>a. \<not> is_power_off a) p"
    if "emits (within (only_write (\<lambda>m. state_of m \<noteq> ShuttingDown))) p" for p :: "('a, 'b) go"
    using that no_power_off by (rule emits_mono)
  have policy: "emits (within c) (drainPolicy (mr_env R) m)" for c
    unfolding pool_defs client_defs by (auto intro!: emits_rules)
  show ?thesis
    by (intro power_offs.held_bind power_off_drainPass [OF B] wp_if wp_case_prod power_offs.held_quiet quiet)
      (auto intro!: emits_rules policy quiet)
qed

lemma power_offs_none:
  assumes "emits (within (only_write (\<lambda>m. state_of m \<noteq> ShuttingDown))) p"
  shows "wp p (\<lambda>as r. justified is_power_off power_off_evidence m as)"
  by (rule wp_mono [OF wp_none [OF assms no_power_off] power_offs.none])

lemma power_off_guarded:
  "wp (bind (nodeAlwaysOn (mr_env R) (nodeName_of m)) (\<lambda>alwaysOn.
         if alwaysOn then abortDrain R m
         else bind (drainPolicy (mr_env R) m) (\<lambda>(timeout, force).
              bind (drainTimedOut R m timeout) (\<lambda>timedOut.
              if timedOut then failDrain R m timeout else drainPass R m force))))
     (\<lambda>as r. justified is_power_off power_off_evidence m as)"
proof (rule wp_bind, rule wp_nodeAlwaysOn, goal_cases)
  case 1
  then have "node_answer (\<lambda>n. \<not> alwaysOnLabelled n) (nodeName_of m) {}" by (simp add: node_answerI)
  from power_off_after_guard [OF this, of R] show ?case
    by (auto elim!: wp_mono intro: power_offs.here)
next
  case (2 e)
  then have "node_answer (\<lambda>n. \<not> alwaysOnLabelled n) (nodeName_of m) {GetNode (nodeName_of m) (Inl e)}"
    by (simp add: node_answerI)
  from power_off_after_guard [OF this, of R] show ?case
    by (auto elim!: wp_mono intro!: power_offs.here simp: power_offs.held_Cons)
next
  case (3 e)
  then show ?case by (simp add: power_offs.none)
next
  case (4 nd)
  have abort: "wp (abortDrain R m) (\<lambda>as r. justified is_power_off power_off_evidence m as)"
    by (rule power_offs_none) (auto intro!: emits_rules)
  show ?case
  proof (cases "alwaysOnLabelled nd")
    case True
    with abort show ?thesis by (auto elim!: wp_mono intro: power_offs.after)
  next
    case False
    then have "node_answer (\<lambda>n. \<not> alwaysOnLabelled n) (nodeName_of m) {GetNode (nodeName_of m) (Inr nd)}"
      by (auto intro: node_answerI)
    from power_off_after_guard [OF this, of R] False show ?thesis
      by (auto elim!: wp_mono intro!: power_offs.here simp: power_offs.held_Cons)
  qed
qed

lemma power_off_reconcileDraining:
  "wp (reconcileDraining R m) (\<lambda>as r. justified is_power_off power_off_evidence m as)"
  unfolding reconcileDraining_def Let_def
  by (intro power_offs.after_removeDrainAnnotation power_off_guarded)

text \<open>In Off the status is written on success and on a failed power-on; the latter keeps the state.\<close>

lemma repeats_reconcileOff:
  "wp (reconcileOff R m) (\<lambda>as r. justified is_power_off repeated_state m as)"
proof -
  have rest: "wp (bind (map_error g (nodeIsReady (mr_env R) (nodeName_of m))) (\<lambda>ready.
      if ready then bind (event obj ty reason msg) (\<lambda>_. promoteToReady R m)
      else if \<not> wakeRequested m then ret NoRequeue else wakeMachine R m))
      (\<lambda>as r. justified is_power_off repeated_state m as)" (is "wp ?p _") for g obj ty reason msg m
  proof -
    have "emits (within (only_write (\<lambda>m'. state_of m' = ShuttingDown \<longrightarrow> state_of m = ShuttingDown))) ?p"
      unfolding nodeIsReady_def client_defs by (auto intro!: emits_rules)
    then have "emits (\<lambda>a. is_power_off a \<longrightarrow> repeated_state m {} a) ?p"
    proof (rule emits_mono)
      show "within (only_write (\<lambda>m'. state_of m' = ShuttingDown \<longrightarrow> state_of m = ShuttingDown)) a \<Longrightarrow>
          is_power_off a \<longrightarrow> repeated_state m {} a" for a
        by (cases a) (auto simp: repeated_state_def)
    qed
    then show ?thesis
      by (rule emits_wp) (auto intro!: repeats.here repeats.held_all simp: list_all_iff repeated_state_def)
  qed
  show ?thesis
    unfolding reconcileOff_def Let_def
    by (intro repeats.after_removeDrainAnnotation rest)
qed

section \<open>Power-on\<close>

text \<open>What the two callers of a provider check of it.\<close>

definition called_properly :: "'w machine_reconciler \<Rightarrow> machine \<Rightarrow> action \<Rightarrow> bool" where
  "called_properly R m a \<longleftrightarrow> (is_power_on a \<longrightarrow>
     (\<exists>r prov. a = PowerOnCall (provider_of m) m r \<and>
       registry_get (mr_Registry R) (provider_of m) = Some prov \<and> CanPowerOn (prov_Capabilities prov)))"

lemma called_properly_passive: "\<not> is_power_on a \<Longrightarrow> called_properly R m a"
  by (simp add: called_properly_def)

lemma called_properly_wakeMachine: "emits (called_properly R m) (wakeMachine R m)"
  unfolding wakeMachine_def power_on_def piece_defs Let_def
  by (auto intro!: emits_rules simp: called_properly_def)

definition retry_evidence :: "'w machine_reconciler \<Rightarrow> machine \<Rightarrow> action set \<Rightarrow> action \<Rightarrow> bool" where
  "retry_evidence R m A a \<longleftrightarrow> called_properly R m a \<and>
     (\<exists>t n. st_bootStartTime (m_status m) = Some t \<and> ReadClock n \<in> A \<and> bootPollInterval \<le> time_sub n t)"

interpretation retries: evidence is_power_on "retry_evidence R" for R
  by unfold_locales (auto simp: retry_evidence_def power_ons.passive_unmarked)

lemma retries_resend: "wp (resendPowerOn R m) (\<lambda>as r. held is_power_on (retry_evidence R) m B as)"
  unfolding resendPowerOn_def power_on_def RecordPowerOn_def client_defs
  by (auto intro!: wp_rules simp: retries.held_Cons retries.held_none called_properly_def retry_evidence_def not_less) blast+

text \<open>A Node that is not reported Ready was seen so, or does not exist.\<close>

lemma wp_nodeIsReady_answer:
  assumes "\<And>as e. list_all is_read as \<Longrightarrow> Q as (Inl e)" and "\<And>as. list_all is_read as \<Longrightarrow> Q as (Inr True)"
    and "\<And>as. list_all is_read as \<Longrightarrow> node_answer (\<lambda>n. \<not> reportsReady n) k (set as) \<Longrightarrow> Q as (Inr False)"
  shows "wp (nodeIsReady E k) Q"
proof (rule wp_nodeIsReady, goal_cases)
  case (4 nd)
  then show ?case
    using assms(2) [of "[GetNode k (Inr nd)]"] assms(3) [of "[GetNode k (Inr nd)]"]
    by (cases "reportsReady nd") (auto intro: node_answerI)
qed (use assms in \<open>auto simp: node_answer_def\<close>)

lemma power_ons_none:
  assumes "emits (within (only_power (\<lambda>_. False))) p"
  shows "wp p (\<lambda>as r. justified is_power_on (power_on_evidence R) m as)"
  by (rule wp_mono [OF wp_none [OF assms no_power_on] power_ons.none])

lemma list_all_read_no_power_on: "list_all is_read bs \<Longrightarrow> list_all (\<lambda>a. \<not> is_power_on a) bs"
proof -
  have "\<not> is_power_on b" if "is_read b" for b using that by (cases b) auto
  then show "list_all is_read bs \<Longrightarrow> list_all (\<lambda>a. \<not> is_power_on a) bs" by (simp add: list_all_iff)
qed

definition asked_for :: "'w machine_reconciler \<Rightarrow> machine \<Rightarrow> action set \<Rightarrow> action \<Rightarrow> bool" where
  "asked_for R m A a \<longleftrightarrow> called_properly R m a \<and> (wakeRequested m \<or>
     (\<exists>t n. st_bootStartTime (m_status m) = Some t \<and> ReadClock n \<in> A \<and> bootPollInterval \<le> time_sub n t))"

lemma power_on_after_answer:
  assumes "held is_power_on (asked_for R) m {} as" and "list_all is_read bs"
    and "node_answer (\<lambda>n. \<not> reportsReady n) (nodeName_of m) (set bs)"
  shows "justified is_power_on (power_on_evidence R) m (bs @ as)"
proof (rule power_ons.here)
  have evidence: "set bs \<subseteq> D \<longrightarrow> is_power_on a \<longrightarrow> power_on_evidence R m D a"
    if "is_power_on a \<longrightarrow> asked_for R m A a" and "A \<subseteq> D" for A D a
  proof (intro impI)
    assume "set bs \<subseteq> D" and "is_power_on a"
    with that(1) obtain r prov where call: "a = PowerOnCall (provider_of m) m r"
      "registry_get (mr_Registry R) (provider_of m) = Some prov" "CanPowerOn (prov_Capabilities prov)"
      by (auto simp: asked_for_def called_properly_def)
    moreover have "node_answer (\<lambda>n. \<not> reportsReady n) (nodeName_of m) D"
      using assms(3) \<open>set bs \<subseteq> D\<close> by (rule node_answer_mono)
    ultimately show "power_on_evidence R m D a" using that by (auto simp: asked_for_def)
  qed
  have "grounded (\<lambda>A a. set bs \<subseteq> A \<longrightarrow> is_power_on a \<longrightarrow> power_on_evidence R m A a) (set bs) as"
    by (rule grounded_mono [OF assms(1) [unfolded held_def]]) (simp, rule evidence)
  then have "held is_power_on (power_on_evidence R) m (set bs) as"
    unfolding held_def by (rule grounded_base) simp
  then show "held is_power_on (power_on_evidence R) m {} (bs @ as)"
    using assms(2) by (simp add: power_ons.held_append power_ons.held_none list_all_read_no_power_on)
qed

lemma power_on_reconcileOff:
  "wp (reconcileOff R m) (\<lambda>as r. justified is_power_on (power_on_evidence R) m as)"
proof -
  have promote: "emits (within (only_power (\<lambda>_. False))) (bind (event obj ty reason msg) (\<lambda>_. promoteToReady R m))"
    for obj ty reason msg m
    unfolding client_defs by (auto intro!: emits_rules)
  have wake: "wp (wakeMachine R m) (\<lambda>as r. justified is_power_on (power_on_evidence R) m (bs @ as))"
    if "list_all is_read bs" and "node_answer (\<lambda>n. \<not> reportsReady n) (nodeName_of m) (set bs)" and "wakeRequested m"
    for bs m
    by (rule emits_wp [OF called_properly_wakeMachine], rule power_on_after_answer)
      (use that in \<open>auto simp: held_def asked_for_def list_all_iff intro: grounded_all\<close>)
  have rest: "wp (bind (map_error g (nodeIsReady (mr_env R) (nodeName_of m))) (\<lambda>ready.
      if ready then bind (event obj ty reason msg) (\<lambda>_. promoteToReady R m)
      else if \<not> wakeRequested m then ret NoRequeue else wakeMachine R m))
      (\<lambda>as r. justified is_power_on (power_on_evidence R) m as)" for g obj ty reason msg m
    by (intro wp_bind wp_map_error wp_nodeIsReady_answer)
      (auto intro!: wake power_ons.none wp_ret wp_mono [OF wp_none [OF promote no_power_on]]
        simp: list_all_read_no_power_on)
  show ?thesis
    unfolding reconcileOff_def Let_def
    by (intro power_ons.after_removeDrainAnnotation rest)
qed

lemma power_on_reconcileBooting:
  "wp (reconcileBooting R m) (\<lambda>as r. justified is_power_on (power_on_evidence R) m as)"
proof -
  let ?tail = "\<lambda>m. bind (bootTimedOut R m) (\<lambda>timedOut.
        if timedOut
        then failBoot R m reasonBootTimeout
               (Msg ''Node %q not Ready within %s'' [TQuoted (nodeName_of m), TDur (mr_BootTimeout R)])
        else bind (resendPowerOn R m) (\<lambda>_.
             bind (requeueForBoot R m) (\<lambda>d. ret (RequeueAfter d))))"
  have promote: "wp (promoteToReady R m) (\<lambda>as r. justified is_power_on (power_on_evidence R) m (bs @ as))"
    if "list_all is_read bs" for m bs
  proof (rule wp_mono [OF wp_none [OF _ no_power_on]])
    show "emits (within (only_power (\<lambda>_. False))) (promoteToReady R m)" by (auto intro!: emits_rules)
  qed (use that in \<open>auto intro!: power_ons.none simp: list_all_read_no_power_on\<close>)
  have quiet: "emits (\<lambda>a. \<not> is_power_on a) p" if "emits (within (only_power (\<lambda>_. False))) p" for p :: "('a, 'b) go"
    using that no_power_on by (rule emits_mono)
  have timers: "emits (within c) (bootTimedOut R m)" "emits (within c) (requeueForBoot R m)" for c m
    unfolding timer_defs client_defs by (auto intro!: emits_rules)
  have tail: "wp (?tail m) (\<lambda>as r. held is_power_on (retry_evidence R) m {} as)" for m
    by (intro retries.held_bind retries.held_then retries_resend wp_if retries.held_quiet quiet)
      (auto intro!: emits_rules timers quiet)
  have backed: "justified is_power_on (power_on_evidence R) m (bs @ as)"
    if "list_all is_read bs" "node_answer (\<lambda>n. \<not> reportsReady n) (nodeName_of m) (set bs)"
      "held is_power_on (retry_evidence R) m {} as" for m as bs
    by (rule power_on_after_answer)
      (use that in \<open>auto simp: held_def retry_evidence_def asked_for_def elim!: grounded_mono\<close>)
  have step: "wp (bind (map_error g (nodeIsReady (mr_env R) (nodeName_of m))) (\<lambda>ready.
      if ready then promoteToReady R m else ?tail m))
      (\<lambda>as r. justified is_power_on (power_on_evidence R) m as)" for g m
    by (intro wp_bind wp_map_error wp_nodeIsReady_answer)
      (auto intro!: promote wp_mono [OF tail] backed intro: power_ons.none simp: list_all_read_no_power_on)
  show ?thesis
    unfolding reconcileBooting_def Let_def
    by (intro power_ons.after_removeDrainAnnotation step)
qed

section \<open>The whole reconcile\<close>

text \<open>A reconcile of \<open>name\<close> changes nothing, or it is the dispatch on the Machine it fetched, after
  passive interactions that cleared it.\<close>

lemma wp_otherMachinesOnNode_clear:
  "wp (otherMachinesOnNode E m) (\<lambda>bs r. list_all is_passive bs \<and> (r = Inr [] \<longrightarrow> nodeName_of m = [] \<or>
     (\<exists>ms. ListMachinesOnNode (nodeName_of m) (Inr ms) \<in> set bs \<and> (\<forall>other\<in>set ms. m_name other = m_name m))))"
  by (rule wp_otherMachinesOnNode) (auto simp: filter_empty_conv)

lemma machineReconcile_cases:
  obtains (idle) "list_all is_passive (actions (machineReconcile R name) w)"
  | (dispatched) m bs w' where "actions (machineReconcile R name) w = bs @ actions (dispatch R m) w'"
      "result (machineReconcile R name) w = result (dispatch R m) w'"
      "list_all is_passive bs" "cleared name m (set bs)"
proof -
  obtain r w1 where got: "env_get_machine (mr_env R) name w = (r, w1)" by fastforce
  show thesis
  proof (cases r)
    case (Inl e)
    with got show thesis
      by (intro idle) (auto simp: machineReconcile_def get_machine_def Let_def prog_defs actions_def)
  next
    case (Inr m)
    obtain ro bs w2 where others: "otherMachinesOnNode (mr_env R) m w1 = (ro, bs, w2)"
      by (cases "otherMachinesOnNode (mr_env R) m w1") auto
    note clear = wp_run [OF wp_otherMachinesOnNode_clear others]
    show thesis
    proof (cases "ro = Inr []")
      case True
      obtain rd cs w3 where "dispatch R m w2 = (rd, cs, w3)" by (cases "dispatch R m w2") auto
      with got Inr others True clear show thesis
        by (intro dispatched [of "GetMachine name (Inr m) # bs" m w2])
          (auto simp: machineReconcile_def get_machine_def Let_def prog_defs actions_def result_def cleared_def)
    next
      case False
      with got Inr others clear show thesis
        by (intro idle) (auto simp: machineReconcile_def get_machine_def event_def Let_def prog_defs actions_def
            split: sum.splits)
    qed
  qed
qed

lemma cleared_mono: "cleared name m A \<Longrightarrow> A \<subseteq> B \<Longrightarrow> cleared name m B"
  by (auto simp: cleared_def)

text \<open>An action that is not passive happens in the dispatch, after what cleared the Machine.\<close>

lemma reconcile_split:
  assumes "actions (machineReconcile R name) w = pre @ a # post" and "\<not> is_passive a"
  obtains m bs ds w' where "pre = bs @ ds" and "actions (dispatch R m) w' = ds @ a # post"
    and "list_all is_passive bs" and "cleared name m (set bs)"
proof (cases rule: machineReconcile_cases [of R name w])
  case idle
  with assms show thesis by simp
next
  case (dispatched m bs w')
  have "\<exists>ds. pre = bs @ ds \<and> actions (dispatch R m) w' = ds @ a # post"
    using dispatched(1,3) assms by (auto simp: append_eq_append_conv2 append_eq_Cons_conv Cons_eq_append_conv)
  with that dispatched(3,4) show thesis by blast
qed

text \<open>An action of a kind that a dispatch performs only in the states \<open>S\<close>.\<close>

lemma dispatch_state:
  assumes "actions (dispatch R m) w = ds @ a # post" and "X a"
    and "state_of m \<notin> S \<Longrightarrow> emits (within c) (dispatch R m)" and "\<And>b. within c b \<Longrightarrow> \<not> X b"
  shows "state_of m \<in> S"
proof (rule ccontr)
  assume "state_of m \<notin> S"
  then have "list_all (within c) (actions (dispatch R m) w)" by (intro emitsD assms(3))
  with assms(1,2,4) show False by auto
qed

lemma dispatch_evicts:
  "state_of m \<notin> {Draining} \<Longrightarrow> emits (within (only_evict (\<lambda>_. False))) (dispatch R m)"
  by (cases "state_of m") (auto simp: dispatch_def intro!: emits_rules)

lemma dispatch_powers_on:
  "state_of m \<notin> {Off, Booting} \<Longrightarrow> emits (within (only_power (\<lambda>_. False))) (dispatch R m)"
  by (cases "state_of m") (auto simp: dispatch_def intro!: emits_rules)

lemma dispatch_powers_off:
  "state_of m \<notin> {Off, Draining} \<Longrightarrow>
   emits (within (only_write (\<lambda>m. state_of m \<noteq> ShuttingDown))) (dispatch R m)"
  by (cases "state_of m") (auto simp: dispatch_def intro!: emits_rules)

lemma power_on_dispatch:
  assumes "state_of m \<in> {Off, Booting}"
  shows "wp (dispatch R m) (\<lambda>as r. justified is_power_on (power_on_evidence R) m as)"
  using assms by (auto simp: dispatch_def power_on_reconcileOff power_on_reconcileBooting)

section \<open>Properties\<close>

text \<open>C1. A reconcile evicts a pod only while its Machine is Draining and is the only one that claims its
  Node. The pod is workload and not terminating already, and a pod that carries the do-not-disrupt
  annotation is evicted only if exactly one NodePool selects the Machine and that pool forces
  drains. All of this is known from answers that the reconcile got before the eviction.\<close>

theorem eviction_safe:
  assumes "actions (machineReconcile R name) w = pre @ EvictPod pod r # post"
  shows "isWorkload pod \<and> pod_deletionTimestamp pod = None \<and>
    (\<exists>m. cleared name m (set pre) \<and> state_of m = Draining \<and>
      (hasDoNotDisrupt pod \<longrightarrow> (\<exists>m'\<in>insert m (returned (set pre)). \<exists>pools p. ListPools (Inr pools) \<in> set pre \<and>
         poolsOf (env_lib (mr_env R)) pools m' = [p] \<and> drain_force (ps_drain (pool_spec p)))))"
proof -
  from assms obtain m bs ds w' where pre: "pre = bs @ ds" and run: "actions (dispatch R m) w' = ds @ EvictPod pod r # post"
      and clear: "cleared name m (set bs)" by (rule reconcile_split) simp
  have "state_of m \<in> {Draining}" by (rule dispatch_state [where X = is_eviction, OF run _ dispatch_evicts no_eviction]) simp_all
  moreover have "\<exists>m'\<in>insert m (returned (set pre)). eviction_evidence (env_lib (mr_env R)) m' (set pre) (EvictPod pod r)"
    unfolding pre by (rule evictions.in_dispatch [OF evictions_dispatch run]) simp
  moreover have "cleared name m (set pre)" using clear by (rule cleared_mono) (simp add: pre)
  ultimately show ?thesis by auto
qed

theorem eviction_safe_witness:
  "EvictPod protected_pod (Inr ()) \<in> set (actions (machineReconcile sample_reconciler ''m'') drain_world) \<and>
   hasDoNotDisrupt protected_pod \<and>
   (\<exists>pre post pools m p. actions (machineReconcile sample_reconciler ''m'') drain_world = pre @ EvictPod protected_pod (Inr ()) # post \<and>
      ListPools (Inr pools) \<in> set pre \<and> poolsOf store_lib pools m = [p] \<and> drain_force (ps_drain (pool_spec p)))"
proof -
  have evicted: "EvictPod protected_pod (Inr ()) \<in> set (actions (machineReconcile sample_reconciler ''m'') drain_world)"
    by code_simp
  then obtain pre post where run: "actions (machineReconcile sample_reconciler ''m'') drain_world =
      pre @ EvictPod protected_pod (Inr ()) # post" by (meson split_list)
  have protected: "hasDoNotDisrupt protected_pod" by code_simp
  have lib: "env_lib (mr_env sample_reconciler) = store_lib" by (simp add: sample_reconciler_def store_env_def)
  from eviction_safe [OF run] evicted protected run show ?thesis unfolding lib by blast
qed

text \<open>C2. The power-off gate: a reconcile writes a Machine as ShuttingDown, the state on which the
  shutdown agent acts, only after its Node was seen without the always-on label and was seen already cordoned
  (so a cordon that this pass placed is never followed by the hand-over in the same pass), after a pod list
  read straight from the API server held no pod that keeps the Node on, and with the power-off anchored
  at an instant read from the clock. The only other way to write that state is to repeat it after a
  failed power-on of a Machine that the API server itself returned as ShuttingDown before.\<close>

theorem power_off_gate:
  assumes "actions (machineReconcile R name) w = pre @ UpdateMachineStatus m' r # post"
    and "state_of m' = ShuttingDown"
  shows "\<exists>m. cleared name m (set pre) \<and>
    (state_of m = Off \<and> (\<exists>m0\<in>returned (set pre). state_of m0 = ShuttingDown) \<or>
     state_of m = Draining \<and> (\<exists>m0\<in>insert m (returned (set pre)).
      m_name m' = m_name m0 \<and> m_spec m' = m_spec m0 \<and>
      node_answer (\<lambda>n. \<not> alwaysOnLabelled n) (nodeName_of m0) (set pre) \<and>
      node_answer node_unschedulable (nodeName_of m0) (set pre) \<and>
      (\<exists>pods. ListPodsOnNode Fresh (nodeName_of m0) (Inr pods) \<in> set pre \<and> (\<forall>pod\<in>set pods. \<not> keepsNodeOn pod)) \<and>
      (\<exists>t. ReadClock t \<in> set pre \<and> st_shutdownStartTime (m_status m') = Some t)))"
proof -
  let ?a = "UpdateMachineStatus m' r"
  have off: "is_power_off ?a" using assms(2) by simp
  from assms(1) obtain m bs ds w' where pre: "pre = bs @ ds" and run: "actions (dispatch R m) w' = ds @ ?a # post"
      and clear: "cleared name m (set bs)" by (rule reconcile_split) simp
  have cleared: "cleared name m (set pre)" using clear by (rule cleared_mono) (simp add: pre)
  have "state_of m \<in> {Off, Draining}" by (rule dispatch_state [where X = is_power_off, OF run off dispatch_powers_off no_power_off])
  then consider "state_of m = Off" | "state_of m = Draining" by blast
  then show ?thesis
  proof cases
    case 1
    then have "wp (dispatch R m) (\<lambda>as r. justified is_power_off repeated_state m as)"
      by (simp add: dispatch_def repeats_reconcileOff)
    from repeats.in_dispatch [OF this run off, of bs] cleared 1 show ?thesis by (auto simp: repeated_state_def pre)
  next
    case 2
    then have "wp (dispatch R m) (\<lambda>as r. justified is_power_off power_off_evidence m as)"
      by (simp add: dispatch_def power_off_reconcileDraining)
    from power_offs.in_dispatch [OF this run off, of bs]
    have "\<exists>m0\<in>insert m (returned (set pre)). power_off_evidence m0 (set pre) ?a" by (simp only: pre)
    with cleared 2 show ?thesis by auto
  qed
qed

theorem power_off_gate_witness:
  "\<exists>pre m' post. actions (machineReconcile sample_reconciler ''m'') (sample_world Draining CondTrue True) =
       pre @ UpdateMachineStatus m' (Inr m') # post \<and>
     state_of m' = ShuttingDown \<and> (\<exists>m. cleared ''m'' m (set pre) \<and> state_of m \<in> {Off, Draining})"
proof -
  let ?w = "sample_world Draining CondTrue True"
  let ?m = "hd (w_machines (final (machineReconcile sample_reconciler ''m'') ?w))"
  have written: "UpdateMachineStatus ?m (Inr ?m) \<in> set (actions (machineReconcile sample_reconciler ''m'') ?w)"
    and down: "state_of ?m = ShuttingDown"
    by code_simp+
  from written obtain pre post where run: "actions (machineReconcile sample_reconciler ''m'') ?w =
      pre @ UpdateMachineStatus ?m (Inr ?m) # post" by (meson split_list)
  from power_off_gate [OF run down] run down show ?thesis by blast
qed

text \<open>C3. The power-on gate: a reconcile calls a power provider only for a Machine that it fetched in Off
  or Booting (or that the API server returned to a patch since), under the provider name of its spec, with
  a provider registered under that name that can power on, only after it saw that the Node does not exist or is not
  Ready, and only if the wake trigger is set or the boot has already lasted a poll interval.\<close>

theorem power_on_gate:
  assumes "actions (machineReconcile R name) w = pre @ PowerOnCall p m' r # post"
  shows "\<exists>m. cleared name m (set pre) \<and> state_of m \<in> {Off, Booting} \<and> m' \<in> insert m (returned (set pre)) \<and>
    p = provider_of m' \<and>
    (\<exists>prov. registry_get (mr_Registry R) p = Some prov \<and> CanPowerOn (prov_Capabilities prov)) \<and>
    node_answer (\<lambda>n. \<not> reportsReady n) (nodeName_of m') (set pre) \<and>
    (wakeRequested m' \<or> (\<exists>t n. st_bootStartTime (m_status m') = Some t \<and> ReadClock n \<in> set pre \<and>
       bootPollInterval \<le> time_sub n t))"
proof -
  from assms obtain m bs ds w' where pre: "pre = bs @ ds" and run: "actions (dispatch R m) w' = ds @ PowerOnCall p m' r # post"
      and clear: "cleared name m (set bs)" by (rule reconcile_split) simp
  have st: "state_of m \<in> {Off, Booting}" by (rule dispatch_state [where X = is_power_on, OF run _ dispatch_powers_on no_power_on]) simp_all
  have "\<exists>m0\<in>insert m (returned (set pre)). power_on_evidence R m0 (set pre) (PowerOnCall p m' r)"
    unfolding pre by (rule power_ons.in_dispatch [OF power_on_dispatch [OF st] run]) simp
  moreover have "cleared name m (set pre)" using clear by (rule cleared_mono) (simp add: pre)
  ultimately show ?thesis using st by auto
qed

theorem power_on_gate_witness:
  "\<exists>pre post. actions (machineReconcile sample_reconciler ''m'') wake_world =
     pre @ PowerOnCall ''wol'' (hd (w_machines wake_world)) (Inr ()) # post \<and>
   (\<exists>prov. registry_get (mr_Registry sample_reconciler) ''wol'' = Some prov \<and> CanPowerOn (prov_Capabilities prov))"
proof -
  have "PowerOnCall ''wol'' (hd (w_machines wake_world)) (Inr ()) \<in>
      set (actions (machineReconcile sample_reconciler ''m'') wake_world)"
    by code_simp
  then obtain pre post where run: "actions (machineReconcile sample_reconciler ''m'') wake_world =
      pre @ PowerOnCall ''wol'' (hd (w_machines wake_world)) (Inr ()) # post" by (meson split_list)
  from power_on_gate [OF run] run show ?thesis by blast
qed

end
