(* ===== verification/Machine_Lifecycle.thy ===== *)
theory Machine_Lifecycle
  imports Machine_Safety
begin

text \<open>
  The state machine of a Machine over whole reconciles: which transitions a reconcile writes, that every
  transient state it writes carries its timer anchor, that a Machine in a transient state is never left
  without a next step, and that polling ends when its budget is used up.
\<close>

section \<open>The lifecycle\<close>

text \<open>The transitions of \<^verbatim>\<open>Machine.status.state\<close> that the design allows.\<close>

inductive lifecycle :: "machine_state \<Rightarrow> machine_state \<Rightarrow> bool" where
  initialized: "lifecycle Unset Off"
| woken: "lifecycle Off Booting"
| adopted: "lifecycle Off Ready"
| adoption_rejected: "lifecycle Off Failed"
| booted: "lifecycle Booting Ready"
| boot_failed: "lifecycle Booting Failed"
| drain_started: "lifecycle Ready Draining"
| node_lost: "lifecycle Ready Off"
| drain_aborted: "lifecycle Draining Ready"
| drain_failed: "lifecycle Draining Failed"
| drained: "lifecycle Draining ShuttingDown"
| powered_off: "lifecycle ShuttingDown Off"
| shutdown_failed: "lifecycle ShuttingDown Failed"

code_pred lifecycle .

section \<open>Status writes\<close>

fun is_status_write :: "action \<Rightarrow> bool" where
  "is_status_write (UpdateMachineStatus m r) = True"
| "is_status_write _ = False"

text \<open>In Off the written state is a transition or, after a failed power-on, the state at hand.\<close>

fun off_write :: "machine \<Rightarrow> action set \<Rightarrow> action \<Rightarrow> bool" where
  "off_write m A (UpdateMachineStatus m' r) =
     (state_of m' = Booting \<and> st_bootStartTime (m_status m') \<noteq> None \<or> state_of m' \<in> {Ready, Failed} \<or>
      (\<exists>cs. m' = update_status (\<lambda>s. s\<lparr>st_conditions := cs\<rparr>) m))"
| "off_write m A _ = False"

text \<open>A Machine in a transient state carries the anchor of the timer that bounds the state.\<close>

definition anchored :: "machine \<Rightarrow> bool" where
  "anchored m \<longleftrightarrow>
     (state_of m = Booting \<longrightarrow> st_bootStartTime (m_status m) \<noteq> None) \<and>
     (state_of m = Draining \<longrightarrow> st_drainStartTime (m_status m) \<noteq> None) \<and>
     (state_of m = ShuttingDown \<longrightarrow> st_shutdownStartTime (m_status m) \<noteq> None)"

section \<open>Next steps and budgets\<close>

definition moved :: "machine_state \<Rightarrow> action list \<Rightarrow> bool" where
  "moved s as \<longleftrightarrow> (\<exists>m' m''. UpdateMachineStatus m' (Inr m'') \<in> set as \<and> state_of m' \<noteq> s)"





text \<open>The budget of a transient state at an instant: the boot and shutdown budgets of the configuration,
  the drain budget of the pools.\<close>

fun in_budget :: "'w machine_reconciler \<Rightarrow> machine_state \<Rightarrow> machine \<Rightarrow> action set \<Rightarrow> bool" where
  "in_budget R Booting m A =
     (\<forall>t. st_bootStartTime (m_status m) = Some t \<longrightarrow> (\<exists>n. ReadClock n \<in> A \<and> time_sub n t < mr_BootTimeout R))"
| "in_budget R Draining m A =
     (\<forall>t. st_drainStartTime (m_status m) = Some t \<longrightarrow> (\<exists>n pools. ReadClock n \<in> A \<and> ListPools (Inr pools) \<in> A \<and>
        time_sub n t \<le> fst (drainPolicyOf (poolsOf (env_lib (mr_env R)) pools m))))"
| "in_budget R ShuttingDown m A =
     (\<forall>t. st_shutdownStartTime (m_status m) = Some t \<longrightarrow> (\<exists>n. ReadClock n \<in> A \<and> time_sub n t \<le> mr_ShutdownTimeout R))"
| "in_budget R s m A = True"

definition waits :: "go_error + requeue \<Rightarrow> bool" where
  "waits r \<longleftrightarrow> (\<exists>d. r = Inr (RequeueAfter d))"

section \<open>Samples\<close>

definition stopping_machine :: "time \<Rightarrow> machine" where
  "stopping_machine t = update_status (\<lambda>s. s\<lparr>st_shutdownStartTime := Some t\<rparr>) (sample_machine ''m'' ''n'' ShuttingDown)"

definition stopping_world :: "time \<Rightarrow> world" where
  "stopping_world t = (sample_world ShuttingDown CondTrue True)\<lparr>w_machines := [stopping_machine t]\<rparr>"

definition contested_world :: world where
  "contested_world = wake_world\<lparr>w_machines := w_machines wake_world @ [sample_machine ''twin'' ''n'' Off]\<rparr>"

section \<open>The transitions of one dispatch\<close>

inductive_simps lifecycle_simps [simp]:
  "lifecycle Unset s" "lifecycle Off s" "lifecycle Booting s" "lifecycle Ready s"
  "lifecycle Draining s" "lifecycle ShuttingDown s" "lifecycle Failed s"

interpretation off_writes: evidence is_status_write off_write
proof unfold_locales
  show "off_write m B a" if "off_write m A a" and "A \<subseteq> B" for m A a B
    using that by (cases a) auto
  show "is_passive a \<Longrightarrow> \<not> is_status_write a" for a by (cases a) (simp_all add: is_passive_def)
qed simp

lemma off_writes_reconcileOff:
  "wp (reconcileOff R m) (\<lambda>as r. justified is_status_write off_write m as)"
proof -
  have rest: "wp (bind (map_error g (nodeIsReady (mr_env R) (nodeName_of m))) (\<lambda>ready.
      if ready then bind (event obj ty reason msg) (\<lambda>_. promoteToReady R m)
      else if \<not> wakeRequested m then ret NoRequeue else wakeMachine R m))
      (\<lambda>as r. justified is_status_write off_write m as)" (is "wp ?p _") for g obj ty reason msg m
  proof -
    have "emits (within (only_write (\<lambda>m'. off_write m {} (UpdateMachineStatus m' (Inr m'))))) ?p"
      unfolding nodeIsReady_def client_defs by (auto intro!: emits_rules)
    then have "emits (\<lambda>a. is_status_write a \<longrightarrow> off_write m {} a) ?p"
    proof (rule emits_mono)
      show "within (only_write (\<lambda>m'. off_write m {} (UpdateMachineStatus m' (Inr m')))) a \<Longrightarrow>
          is_status_write a \<longrightarrow> off_write m {} a" for a
        by (cases a) auto
    qed
    then show ?thesis
      by (rule emits_wp) (auto intro!: off_writes.here off_writes.held_all simp: list_all_iff)
  qed
  show ?thesis
    unfolding reconcileOff_def Let_def
    by (intro off_writes.after_removeDrainAnnotation rest)
qed

definition good_write :: "machine_state \<Rightarrow> machine \<Rightarrow> bool" where
  "good_write s m' \<longleftrightarrow> lifecycle s (state_of m') \<and> anchored m'"

lemma good_writes_dispatch:
  assumes "state_of m \<noteq> Off"
  shows "emits (within (only_write (good_write (state_of m)))) (dispatch R m)"
  using assms by (cases "state_of m") (auto simp: dispatch_def good_write_def anchored_def intro!: emits_rules)

text \<open>A status write of a reconcile is a transition of the fetched Machine, or a repetition in Off.\<close>

lemma status_write_cases:
  assumes "UpdateMachineStatus m' r \<in> set (actions (machineReconcile R name) w)" (is "?a \<in> ?A")
  obtains m where "cleared name m ?A" and "good_write (state_of m) m'"
  | m m0 cs where "cleared name m ?A" and "state_of m = Off" and "m0 \<in> insert m (returned ?A)"
      and "m' = update_status (\<lambda>s. s\<lparr>st_conditions := cs\<rparr>) m0"
proof (cases rule: machineReconcile_cases [of R name w])
  case idle
  with assms show thesis by (auto simp: list_all_iff)
next
  case (dispatched m bs w')
  have clear: "cleared name m ?A" using dispatched by (auto intro: cleared_mono)
  have "\<not> is_passive ?a" by simp
  then have here: "?a \<in> set (actions (dispatch R m) w')"
    using assms dispatched by (auto simp: list_all_iff)
  show thesis
  proof (cases "state_of m = Off")
    case False
    have "good_write (state_of m) m'"
      using withinD(3) [OF emitsD [OF good_writes_dispatch [OF False]] here] by simp
    with clear show thesis by (rule that(1))
  next
    case True
    have "wp (dispatch R m) (\<lambda>as r. justified is_status_write off_write m as)"
      by (simp add: dispatch_def True off_writes_reconcileOff)
    moreover obtain ds post where "actions (dispatch R m) w' = ds @ ?a # post" using here by (meson split_list)
    ultimately obtain m0 where m0: "m0 \<in> insert m (returned (set (bs @ ds)))" "off_write m0 (set (bs @ ds)) ?a"
      and sub: "set (bs @ ds) \<subseteq> ?A"
      using off_writes.in_dispatch [of R m w' ds ?a post bs] dispatched(1) by auto
    have "m0 \<in> insert m (returned ?A)" using m0(1) sub unfolding returned_def by blast
    moreover have "off_write m0 ?A ?a" using m0(2) sub by (rule off_writes.mono)
    ultimately have "\<exists>m0\<in>insert m (returned ?A). off_write m0 ?A ?a" by blast
    then show thesis
      using that(1) [OF clear] that(2) [OF clear True] True
      by (auto simp: good_write_def anchored_def)
  qed
qed

section \<open>Next steps\<close>


lemma moved_cons [simp]: "moved s as \<Longrightarrow> moved s (a # as)" "moved s as \<Longrightarrow> moved s (bs @ as)"
  by (auto simp: moved_def)


text \<open>Postconditions of a handler that look back: they hold after an error, they survive whatever happened before, and a
  Machine that the server returned may stand for the one the handler started with.\<close>

locale outcome =
  fixes Q :: "machine \<Rightarrow> action list \<Rightarrow> go_error + requeue \<Rightarrow> bool"
  assumes error: "Q m as (Inl e)" and before: "Q m as r \<Longrightarrow> Q m (bs @ as) r"
    and stand_in: "Q m' as r \<Longrightarrow> Q m (PatchMachine orig new (Inr m') # as) r"
begin

lemma bind:
  assumes "\<And>v. wp (f v) (Q m)"
  shows "wp (Effects.bind p f) (Q m)"
  by (rule wp_bind, rule wp_any) (auto split: sum.splits intro!: wp_mono [OF assms] before error)

lemma after_removal:
  assumes "\<And>m. wp (f m) (Q m)"
  shows "wp (Effects.bind (removeDrainAnnotation E m) f) (Q m)"
  by (rule wp_bind, rule drain_now.wp_remove) (auto intro!: wp_mono [OF assms] error stand_in)

lemma throw: "wp (Effects.throw e) (Q m)"
  by (simp add: wp_throw error)

end

text \<open>Outcomes of one form: a wait is backed by what was seen, for the Machine at hand.\<close>

definition backed :: "(machine \<Rightarrow> action set \<Rightarrow> duration \<Rightarrow> bool) \<Rightarrow> machine \<Rightarrow> action list \<Rightarrow> go_error + requeue \<Rightarrow> bool" where
  "backed P m as r \<longleftrightarrow>
     (\<forall>d. r = Inr (RequeueAfter d) \<longrightarrow> (\<exists>m0\<in>insert m (returned (set as)). P m0 (set as) d))"

locale wait_evidence =
  fixes P :: "machine \<Rightarrow> action set \<Rightarrow> duration \<Rightarrow> bool"
  assumes mono: "P m A d \<Longrightarrow> A \<subseteq> B \<Longrightarrow> P m B d"
begin

lemma backedI:
  assumes "\<And>d. r = Inr (RequeueAfter d) \<Longrightarrow> \<exists>m0\<in>M. P m0 A d"
    and "A \<subseteq> set as" and "M \<subseteq> insert m (returned (set as))"
  shows "backed P m as r"
  unfolding backed_def
proof (intro allI impI)
  fix d
  assume "r = Inr (RequeueAfter d)"
  then obtain m0 where m0: "m0 \<in> M" "P m0 A d" using assms(1) by blast
  with mono [OF m0(2) assms(2)] assms(3) show "\<exists>m0\<in>insert m (returned (set as)). P m0 (set as) d" by blast
qed

end

sublocale wait_evidence \<subseteq> outcome "backed P"
proof unfold_locales
  show "backed P m (bs @ as) r" if "backed P m as r" for m as r bs
    by (rule backedI [where A = "set as" and M = "insert m (returned (set as))"])
      (use that in \<open>auto simp: backed_def returned_def\<close>)
  show "backed P m (PatchMachine orig new (Inr m') # as) r" if "backed P m' as r" for m orig new m' as r
    by (rule backedI [where A = "set as" and M = "insert m' (returned (set as))"])
      (use that in \<open>auto simp: backed_def returned_insert(1)\<close>)
qed (simp add: backed_def)

lemma backed_no_wait: "wp p (\<lambda>as r. \<not> waits r) \<Longrightarrow> wp p (backed P m)"
  by (erule wp_mono) (auto simp: backed_def waits_def)














section \<open>Budgets\<close>

lemma waits_simps [simp]:
  "\<not> waits (Inl e)" "\<not> waits (Inr NoRequeue)" "\<not> waits (Inr RequeueNow)" "waits (Inr (RequeueAfter d))"
  by (simp_all add: waits_def)

lemma in_budget_mono: "in_budget R s m A \<Longrightarrow> A \<subseteq> B \<Longrightarrow> in_budget R s m B"
  by (cases s) (auto, blast+)

lemma no_wait_bind: "(\<And>v. wp (f v) (\<lambda>as r. \<not> waits r)) \<Longrightarrow> wp (bind p f) (\<lambda>as r. \<not> waits r)"
  by (rule wp_bind, rule wp_any) (auto split: sum.splits)

lemma no_wait_leaves:
  "wp (throw e) (\<lambda>as r. \<not> waits r)" "wp (ret NoRequeue) (\<lambda>as r. \<not> waits r)"
  by (simp_all add: wp_throw wp_ret)

lemmas no_wait_rules = no_wait_leaves no_wait_bind wp_if wp_case_option wp_case_sum wp_case_prod

lemma no_wait:
  "wp (failBoot R m reason msg) (\<lambda>as r. \<not> waits r)"
  "wp (promoteToReady R m) (\<lambda>as r. \<not> waits r)"
  "wp (failDrain R m timeout) (\<lambda>as r. \<not> waits r)"
  "wp (abortDrain R m) (\<lambda>as r. \<not> waits r)"
  unfolding failBoot_def promoteToReady_def enterReady_def failDrain_def abortDrain_def Let_def
  by (rule no_wait_rules)+

text \<open>A wait of a program is within the budget if it is in its tail, or if a check at its head said so.\<close>

lemma budget_bind:
  assumes "\<And>v. wp (f v) (\<lambda>as r. waits r \<longrightarrow> in_budget R s m (B \<union> set as))"
  shows "wp (bind p f) (\<lambda>as r. waits r \<longrightarrow> in_budget R s m (B \<union> set as))"
  by (rule wp_bind, rule wp_any)
    (auto split: sum.splits intro!: wp_mono [OF assms] elim!: in_budget_mono)

lemma budget_check:
  assumes "wp p (\<lambda>as r. r = Inr False \<longrightarrow> in_budget R s m (B \<union> set as))" and "wp q (\<lambda>as r. \<not> waits r)"
  shows "wp (bind p (\<lambda>expired. if expired then q else q')) (\<lambda>as r. waits r \<longrightarrow> in_budget R s m (B \<union> set as))"
proof (rule wp_bind, rule wp_mono [OF assms(1)], goal_cases)
  case (1 as r)
  have "wp q (\<lambda>bs r'. waits r' \<longrightarrow> in_budget R s m (B \<union> set (as @ bs)))"
    by (rule wp_mono [OF assms(2)]) simp
  moreover have "wp q' (\<lambda>bs r'. waits r' \<longrightarrow> in_budget R s m (B \<union> set (as @ bs)))" if "r = Inr False"
    by (rule wp_any) (use 1 that in \<open>auto elim!: in_budget_mono\<close>)
  ultimately show ?case by (auto split: sum.splits)
qed

lemma budget_leaf:
  assumes "wp p (\<lambda>as r. \<not> waits r)"
  shows "wp p (\<lambda>as r. waits r \<longrightarrow> in_budget R s m (B \<union> set as))"
  by (rule wp_mono [OF assms]) simp

lemma budget_bootTimedOut:
  "wp (bootTimedOut R m) (\<lambda>as r. r = Inr False \<longrightarrow> in_budget R Booting m (B \<union> set as))"
  unfolding bootTimedOut_def client_defs by (auto intro!: wp_rules simp: not_le) blast

lemma budget_shutdownTimedOut:
  "wp (shutdownTimedOut R m) (\<lambda>as r. r = Inr False \<longrightarrow> in_budget R ShuttingDown m (B \<union> set as))"
  unfolding shutdownTimedOut_def client_defs by (auto intro!: wp_rules simp: not_less) blast

lemma budget_drainTimedOut:
  assumes "ListPools (Inr pools) \<in> B" and "fst (drainPolicyOf (poolsOf (env_lib (mr_env R)) pools m)) = timeout"
  shows "wp (drainTimedOut R m timeout) (\<lambda>as r. r = Inr False \<longrightarrow> in_budget R Draining m (B \<union> set as))"
  unfolding drainTimedOut_def client_defs using assms by (auto intro!: wp_rules simp: not_less) blast

abbreviation budgeted :: "'w machine_reconciler \<Rightarrow> machine_state \<Rightarrow> machine \<Rightarrow> action list \<Rightarrow> go_error + requeue \<Rightarrow> bool" where
  "budgeted R s \<equiv> backed (\<lambda>m A d. in_budget R s m A)"

interpretation budgeting: wait_evidence "\<lambda>m A d. in_budget R s m A" for R s
  by unfold_locales (rule in_budget_mono)

lemma budgeted_here:
  "wp p (\<lambda>as r. waits r \<longrightarrow> in_budget R s m ({} \<union> set as)) \<Longrightarrow> wp p (budgeted R s m)"
  by (erule wp_mono) (auto simp: backed_def)

lemma budgeted_reconcileBooting: "wp (reconcileBooting R m) (budgeted R Booting m)"
  unfolding reconcileBooting_def Let_def
  by (rule budgeting.after_removal budgeted_here)+
    (rule budget_check budget_bootTimedOut no_wait budget_leaf [OF no_wait(2)] wp_if budget_bind)+

lemma budgeted_reconcileShuttingDown: "wp (reconcileShuttingDown R m) (budgeted R ShuttingDown m)"
  unfolding reconcileShuttingDown_def Let_def
  by (rule budgeted_here)
    (rule wp_if budget_check budget_shutdownTimedOut no_wait_rules budget_bind budget_leaf)+

lemma budgeted_reconcileDraining: "wp (reconcileDraining R m) (budgeted R Draining m)"
proof -
  have policy: "wp (bind (drainPolicy (mr_env R) m) (\<lambda>(timeout, force).
      bind (drainTimedOut R m timeout) (\<lambda>timedOut.
      if timedOut then failDrain R m timeout else drainPass R m force)))
      (\<lambda>as r. waits r \<longrightarrow> in_budget R Draining m (B \<union> set as))" for m B
  proof (rule wp_bind, rule wp_drainPolicy, goal_cases)
    case (2 pools)
    let ?p = "drainPolicyOf (poolsOf (env_lib (mr_env R)) pools m)"
    have "wp (bind (drainTimedOut R m (fst ?p)) (\<lambda>timedOut.
        if timedOut then failDrain R m (fst ?p) else drainPass R m (snd ?p)))
        (\<lambda>as r. waits r \<longrightarrow> in_budget R Draining m (insert (ListPools (Inr pools)) B \<union> set as))"
      by (rule budget_check [OF budget_drainTimedOut [of pools]]) (simp_all add: no_wait)
    then show ?case by (simp add: case_prod_unfold)
  qed simp
  show ?thesis
    unfolding reconcileDraining_def Let_def
    by (rule budgeting.after_removal budgeted_here)+
      (rule policy wp_if budget_leaf [OF no_wait(4)] budget_bind)+
qed

lemma budgeted_dispatch:
  "state_of m \<in> {Booting, Draining, ShuttingDown} \<Longrightarrow> wp (dispatch R m) (budgeted R (state_of m) m)"
  by (auto simp: dispatch_def budgeted_reconcileBooting budgeted_reconcileDraining budgeted_reconcileShuttingDown
      simp del: in_budget.simps)

section \<open>The reconcile of a fetched Machine\<close>

lemma machineReconcile_fetched:
  assumes "env_get_machine (mr_env R) name w = (Inr m, w1)"
  obtains (failed) e where "result (machineReconcile R name) w = Inl e" "list_all is_passive (actions (machineReconcile R name) w)"
  | (held) ms other where "result (machineReconcile R name) w = Inr (RequeueAfter duplicateNodeRecheck)"
      "list_all is_passive (actions (machineReconcile R name) w)"
      "ListMachinesOnNode (nodeName_of m) (Inr ms) \<in> set (actions (machineReconcile R name) w)"
      "other \<in> set ms" "m_name other \<noteq> m_name m"
  | (dispatched) bs w' where "actions (machineReconcile R name) w = bs @ actions (dispatch R m) w'"
      "result (machineReconcile R name) w = result (dispatch R m) w'" "list_all is_passive bs"
proof -
  have contract: "wp (otherMachinesOnNode (mr_env R) m) (\<lambda>bs r. list_all is_passive bs \<and>
      (\<forall>x xs. r = Inr (x # xs) \<longrightarrow> (\<exists>ms other. ListMachinesOnNode (nodeName_of m) (Inr ms) \<in> set bs \<and>
         other \<in> set ms \<and> m_name other \<noteq> m_name m)))"
    by (rule wp_otherMachinesOnNode) (auto simp: Cons_eq_map_conv dest!: filter_eq_ConsD)
  obtain r bs w2 where others: "otherMachinesOnNode (mr_env R) m w1 = (r, bs, w2)"
    by (cases "otherMachinesOnNode (mr_env R) m w1") auto
  note clear = wp_run [OF contract others]
  note run = machineReconcile_def get_machine_def event_def Let_def prog_defs actions_def result_def
  consider e where "r = Inl e" | "r = Inr []" | x xs where "r = Inr (x # xs)"
    by (cases r) (auto, metis list.exhaust)
  then show thesis
  proof cases
    case 1
    with assms others clear show thesis by (intro failed) (auto simp: run)
  next
    case 2
    obtain rd cs w3 where "dispatch R m w2 = (rd, cs, w3)" by (cases "dispatch R m w2") auto
    with assms others clear 2 show thesis
      by (intro dispatched [of "GetMachine name (Inr m) # bs" w2]) (auto simp: run)
  next
    case 3
    then obtain ms other where "ListMachinesOnNode (nodeName_of m) (Inr ms) \<in> set bs"
      "other \<in> set ms" "m_name other \<noteq> m_name m" using clear by blast
    with assms others clear 3 show thesis by (intro held [of ms other]) (auto simp: run)
  qed
qed

text \<open>What backs the waits of the handlers backs those of a reconcile, unless the Node is contested.\<close>

context wait_evidence
begin

lemma reconcile_backed:
  assumes "env_get_machine (mr_env R) name w = (Inr m, w1)" and "wp (dispatch R m) (backed P m)"
    and "result (machineReconcile R name) w = Inr (RequeueAfter d)"
  shows "(\<exists>m0\<in>insert m (returned (set (actions (machineReconcile R name) w))).
      P m0 (set (actions (machineReconcile R name) w)) d) \<or>
    (\<exists>ms other. ListMachinesOnNode (nodeName_of m) (Inr ms) \<in> set (actions (machineReconcile R name) w) \<and>
      other \<in> set ms \<and> m_name other \<noteq> m_name m)"
  using assms(1)
proof (cases rule: machineReconcile_fetched)
  case (dispatched bs w')
  from before [OF wpD [of _ _ w', OF assms(2)], of bs] show ?thesis
    using assms(3) by (auto simp: backed_def dispatched)
qed (use assms(3) in auto)

end

section \<open>Properties\<close>

text \<open>C17. Every status that a reconcile writes is a transition of the lifecycle from the state it fetched. The
  only exception is a failed power-on in Off, which writes the state back as it is.\<close>

theorem lifecycle_respected:
  assumes "UpdateMachineStatus m' r \<in> set (actions (machineReconcile R name) w)" (is "_ \<in> ?A")
  shows "\<exists>m. cleared name m ?A \<and>
    (lifecycle (state_of m) (state_of m') \<or>
     state_of m = Off \<and> (\<exists>m0\<in>insert m (returned ?A). state_of m' = state_of m0))"
  using assms by (rule status_write_cases) (auto simp: good_write_def)

theorem lifecycle_respected_witness:
  "\<exists>m' r. UpdateMachineStatus m' r \<in> set (actions (machineReconcile sample_reconciler ''m'') wake_world) \<and>
     state_of m' = Booting \<and> (\<exists>m. cleared ''m'' m (set (actions (machineReconcile sample_reconciler ''m'') wake_world)))"
proof -
  let ?m = "hd (w_machines (final (machineReconcile sample_reconciler ''m'') wake_world))"
  have written: "UpdateMachineStatus ?m (Inr ?m) \<in> set (actions (machineReconcile sample_reconciler ''m'') wake_world)"
    and booting: "state_of ?m = Booting"
    by code_simp+
  from lifecycle_respected [OF written] written booting show ?thesis by blast
qed

text \<open>C18. The anchors of the timers are an invariant: if the fetched Machine and those the API server returned
  to a patch carry the anchor of their state (boot, drain or shutdown start), so does every Machine the
  reconcile writes. No Machine enters a transient state without the clock that ends it.\<close>

theorem anchors_kept:
  assumes "\<And>m. GetMachine name (Inr m) \<in> set (actions (machineReconcile R name) w) \<Longrightarrow> anchored m"
    and "\<And>m. m \<in> returned (set (actions (machineReconcile R name) w)) \<Longrightarrow> anchored m"
    and "UpdateMachineStatus m' r \<in> set (actions (machineReconcile R name) w)"
  shows "anchored m'"
  using assms(3)
proof (rule status_write_cases)
  fix m m0 cs
  assume "cleared name m (set (actions (machineReconcile R name) w))"
    and "m0 \<in> insert m (returned (set (actions (machineReconcile R name) w)))"
    and "m' = update_status (\<lambda>s. s\<lparr>st_conditions := cs\<rparr>) m0"
  then show "anchored m'" using assms(1,2) by (auto simp: cleared_def anchored_def)
qed (simp add: good_write_def)

theorem anchors_kept_witness:
  "\<exists>m'. UpdateMachineStatus m' (Inr m') \<in> set (actions (machineReconcile sample_reconciler ''m'') wake_world) \<and>
     state_of m' = Booting \<and> anchored m'"
proof -
  let ?A = "set (actions (machineReconcile sample_reconciler ''m'') wake_world)"
  let ?m = "hd (w_machines (final (machineReconcile sample_reconciler ''m'') wake_world))"
  have written: "UpdateMachineStatus ?m (Inr ?m) \<in> ?A" and booting: "state_of ?m = Booting"
    by code_simp+
  have "list_all (\<lambda>a. case a of GetMachine n (Inr m) \<Rightarrow> state_of m = Off | PatchMachine m n r \<Rightarrow> False | _ \<Rightarrow> True)
      (actions (machineReconcile sample_reconciler ''m'') wake_world)"
    by code_simp
  then have "GetMachine ''m'' (Inr m) \<in> ?A \<Longrightarrow> anchored m" and "m \<in> returned ?A \<Longrightarrow> anchored m" for m
    by (auto simp: list_all_iff anchored_def returned_def dest!: bspec)
  from anchors_kept [OF this written] written booting show ?thesis by blast
qed




text \<open>C29. Polling is bounded by the budget of the state. A reconcile that fetched a Booting, Draining or
  ShuttingDown Machine and asks to run again read a clock that is still within the boot budget, the drain
  budget of the Machine's pools, or the shutdown budget, counted from the anchor. Past the budget it fails
  the Machine. (A Machine whose Node another Machine claims is held instead.)\<close>

theorem polling_in_budget:
  assumes "env_get_machine (mr_env R) name w = (Inr m, w1)" and "state_of m \<in> {Booting, Draining, ShuttingDown}"
    and "result (machineReconcile R name) w = Inr (RequeueAfter d)"
  shows "(\<exists>m0\<in>insert m (returned (set (actions (machineReconcile R name) w))).
      in_budget R (state_of m) m0 (set (actions (machineReconcile R name) w))) \<or>
    (\<exists>ms other. ListMachinesOnNode (nodeName_of m) (Inr ms) \<in> set (actions (machineReconcile R name) w) \<and>
      other \<in> set ms \<and> m_name other \<noteq> m_name m)"
  using budgeting.reconcile_backed [OF assms(1) budgeted_dispatch [OF assms(2)] assms(3)] .

theorem polling_in_budget_witness:
  "result (machineReconcile sample_reconciler ''m'') (stopping_world 70) = Inr (RequeueAfter (15 * second)) \<and>
   in_budget sample_reconciler ShuttingDown (stopping_machine 70)
     (set (actions (machineReconcile sample_reconciler ''m'') (stopping_world 70)))"
proof -
  let ?A = "set (actions (machineReconcile sample_reconciler ''m'') (stopping_world 70))"
  have got: "env_get_machine (mr_env sample_reconciler) ''m'' (stopping_world 70) = (Inr (stopping_machine 70), stopping_world 70)"
    and st: "state_of (stopping_machine 70) = ShuttingDown"
    and res: "result (machineReconcile sample_reconciler ''m'') (stopping_world 70) = Inr (RequeueAfter (15 * second))"
    by code_simp+
  have "list_all (\<lambda>a. case a of ListMachinesOnNode k (Inr ms) \<Rightarrow> list_all (\<lambda>m. m_name m = ''m'') ms
      | PatchMachine m n r \<Rightarrow> False | _ \<Rightarrow> True) (actions (machineReconcile sample_reconciler ''m'') (stopping_world 70))"
    by code_simp
  then have "returned ?A = {}" and "ListMachinesOnNode k (Inr ms) \<in> ?A \<Longrightarrow> other \<in> set ms \<Longrightarrow> m_name other = ''m''" for k ms other
    by (auto simp: list_all_iff returned_def dest!: bspec)
  moreover have "m_name (stopping_machine 70) = ''m''" by code_simp
  ultimately show ?thesis using polling_in_budget [OF got _ res] st res by auto
qed

text \<open>C30. Failed is terminal, and a contested Node is left alone: the reconcile of a Machine that is Failed, or
  whose Node another Machine claims too, performs reads and reports only. It changes no object, evicts no
  pod and calls no power provider.\<close>

theorem held_machines_untouched:
  assumes "env_get_machine (mr_env R) name w = (Inr m, w1)"
    and "state_of m = Failed \<or>
      nodeName_of m \<noteq> [] \<and> env_list_machines_on_node (mr_env R) (nodeName_of m) w1 = (Inr ms, w2) \<and>
      (\<exists>other\<in>set ms. m_name other \<noteq> m_name m)"
  shows "list_all is_passive (actions (machineReconcile R name) w)"
  using assms(2)
proof
  assume "state_of m = Failed"
  then have quiet: "actions (dispatch R m) w' = []" for w'
    by (simp add: dispatch_def actions_def ret_def)
  from assms(1) show ?thesis by (cases rule: machineReconcile_fetched) (simp_all add: quiet)
next
  assume claimed: "nodeName_of m \<noteq> [] \<and> env_list_machines_on_node (mr_env R) (nodeName_of m) w1 = (Inr ms, w2) \<and>
      (\<exists>other\<in>set ms. m_name other \<noteq> m_name m)"
  then have "filter (\<lambda>other. m_name other \<noteq> m_name m) ms \<noteq> []" by (auto simp: filter_empty_conv)
  with assms(1) claimed show ?thesis
    by (simp add: machineReconcile_def otherMachinesOnNode_def client_defs Let_def prog_defs actions_def)
qed

theorem held_machines_untouched_witness:
  "list_all is_passive (actions (machineReconcile sample_reconciler ''m'') contested_world)"
proof -
  have got: "env_get_machine (mr_env sample_reconciler) ''m'' contested_world = (Inr (hd (w_machines contested_world)), contested_world)"
    and claimed: "nodeName_of (hd (w_machines contested_world)) \<noteq> [] \<and>
      env_list_machines_on_node (mr_env sample_reconciler) (nodeName_of (hd (w_machines contested_world))) contested_world =
        (Inr (w_machines contested_world), contested_world) \<and>
      (\<exists>other\<in>set (w_machines contested_world). m_name other \<noteq> m_name (hd (w_machines contested_world)))"
    by code_simp+
  from held_machines_untouched [OF got disjI2 [OF claimed]] show ?thesis .
qed

end
