(* ===== verification/Machine_Nodes.thy ===== *)
theory Machine_Nodes
  imports Machine_Safety
begin

text \<open>
  What the Machine reconciler does to Node objects and to the metadata of Machines: which fields of a
  Node it changes, when it lifts a cordon, that applying a template is idempotent and keeps a Node's
  taints unique, and that the only metadata it ever removes from a Machine are consumed triggers.
\<close>

section \<open>Kinds of writes\<close>

fun is_uncordon :: "action \<Rightarrow> bool" where
  "is_uncordon (PatchNode n n' r) = (node_unschedulable n \<and> \<not> node_unschedulable n')"
| "is_uncordon _ = False"

definition marker_seen :: "machine \<Rightarrow> action set \<Rightarrow> action \<Rightarrow> bool" where
  "marker_seen m A a \<longleftrightarrow> (\<exists>n. GetNode (nodeName_of m) (Inr n) \<in> A \<and> has_key (node_annotations n) AnnotationCordonedByONP) \<and>
     (case a of PatchNode n n' r \<Rightarrow> GetNode (nodeName_of m) (Inr n) \<in> A | _ \<Rightarrow> True)"

text \<open>A Node write keeps everything but labels, taints, the cordon and its marker; the always-on label
  is not among the labels it may touch.\<close>

definition node_write_ok :: "node \<Rightarrow> node \<Rightarrow> bool" where
  "node_write_ok n n' \<longleftrightarrow>
     node_name n' = node_name n \<and> node_allocatable n' = node_allocatable n \<and>
     node_conditions n' = node_conditions n \<and> node_rest n' = node_rest n \<and>
     map_of (node_labels n') LabelAlwaysOn = map_of (node_labels n) LabelAlwaysOn \<and>
     (\<forall>k. has_key (node_labels n) k \<longrightarrow> has_key (node_labels n') k) \<and>
     (\<forall>k. k \<noteq> AnnotationCordonedByONP \<longrightarrow>
        map_of (node_annotations n') k = map_of (node_annotations n) k)"

text \<open>A patch of a Machine's metadata removes one of the two triggers and nothing else.\<close>

fun trigger_removal :: "action \<Rightarrow> bool" where
  "trigger_removal (PatchMachine m m' r) =
     (\<exists>k\<in>{AnnotationWakeNow, AnnotationDrainNow}. has_key (m_annotations m) k \<and>
        m' = set_annotations (AList.delete k) m)"
| "trigger_removal (PatchMachineStatus m m' r) =
     (\<exists>t. m' = update_status (\<lambda>s. s\<lparr>st_notReadySince := t\<rparr>) m)"
| "trigger_removal _ = True"

definition taint_id :: "taint \<Rightarrow> string \<times> string" where
  "taint_id t = (taint_key t, taint_effect t)"

text \<open>The value a taint list has for a key and effect.\<close>

definition taint_lookup :: "taint list \<Rightarrow> string \<times> string \<Rightarrow> string option" where
  "taint_lookup ts i = map_option taint_value (find (\<lambda>t. taint_id t = i) ts)"

section \<open>Samples\<close>

definition sample_taint :: taint where
  "sample_taint = \<lparr>taint_key = ''gpu'', taint_value = ''yes'', taint_effect = TaintEffectNoSchedule, taint_timeAdded = None\<rparr>"

definition adopted_world :: world where
  "adopted_world = (sample_world Off CondTrue True)\<lparr>w_nodes := [cordonNode (sample_node ''n'' CondTrue False)]\<rparr>"

section \<open>Templates\<close>

lemma map_of_mergeLabels_other:
  "\<not> has_key desired k \<Longrightarrow> map_of (fst (mergeLabels labels desired)) k = map_of labels k"
  by (induction labels desired rule: mergeLabels.induct) (auto simp: has_key_def update_conv split: if_splits)

lemma has_key_mergeLabels: "has_key labels k \<Longrightarrow> has_key (fst (mergeLabels labels desired)) k"
  by (induction labels desired rule: mergeLabels.induct) auto

lemma sget_mergeLabels:
  "distinct_keys desired \<Longrightarrow>
   sget (fst (mergeLabels labels desired)) k = (case map_of desired k of Some v \<Rightarrow> v | None \<Rightarrow> sget labels k)"
proof (induction labels desired rule: mergeLabels.induct)
  case (2 labels k' v desired)
  then have notin: "map_of desired k' = None" and dist: "distinct_keys desired"
    by (auto simp: distinct_keys_def map_of_eq_None_iff)
  show ?case
    using "2.IH"(1) [OF _ dist] "2.IH"(2) [OF _ dist] notin
    by (auto split: option.splits if_splits)
qed simp

lemma mergeLabels_fixed:
  "(\<And>k v. (k, v) \<in> set desired \<Longrightarrow> sget labels k = v) \<Longrightarrow> mergeLabels labels desired = (labels, False)"
  by (induction labels desired rule: mergeLabels.induct) auto

lemma mergeTaint_ids:
  "map taint_id (fst (mergeTaint ts t)) =
     (if taint_id t \<in> set (map taint_id ts) then map taint_id ts else map taint_id ts @ [taint_id t])"
  by (induction ts t rule: mergeTaint.induct) (auto simp: taint_id_def split: prod.splits)

lemma mergeTaint_distinct:
  "distinct (map taint_id ts) \<Longrightarrow> distinct (map taint_id (fst (mergeTaint ts t)))"
  by (simp only: mergeTaint_ids) auto

lemma taint_lookup_mergeTaint:
  "taint_lookup (fst (mergeTaint ts t)) i =
     (if i = taint_id t then Some (taint_value t) else taint_lookup ts i)"
  by (induction ts t rule: mergeTaint.induct) (auto simp: taint_lookup_def taint_id_def split: prod.splits)

lemma mergeTaint_fixed:
  "taint_lookup ts (taint_id t) = Some (taint_value t) \<Longrightarrow> mergeTaint ts t = (ts, False)"
  by (induction ts t rule: mergeTaint.induct) (auto simp: taint_lookup_def taint_id_def split: if_splits)

lemma taint_lookup_mergeTaints:
  assumes "distinct (map taint_id new)"
  shows "taint_lookup (fst (mergeTaints ts new)) i =
    (case find (\<lambda>t. taint_id t = i) new of Some t \<Rightarrow> Some (taint_value t) | None \<Rightarrow> taint_lookup ts i)"
  using assms
proof (induction ts new rule: mergeTaints.induct)
  case (2 ts t new)
  obtain ts' c where m: "mergeTaint ts t = (ts', c)" by (cases "mergeTaint ts t")
  have look: "taint_lookup ts' i = (if i = taint_id t then Some (taint_value t) else taint_lookup ts i)"
    using taint_lookup_mergeTaint [of ts t i] m by simp
  have "find (\<lambda>s. taint_id s = taint_id t) new = None"
    using "2.prems" by (auto simp: find_None_iff) (metis image_eqI)
  with 2 m look show ?case by (auto split: prod.splits option.splits)
qed simp

lemma mergeTaints_fixed:
  "(\<And>t. t \<in> set new \<Longrightarrow> taint_lookup ts (taint_id t) = Some (taint_value t)) \<Longrightarrow> mergeTaints ts new = (ts, False)"
  by (induction ts new rule: mergeTaints.induct) (auto simp: mergeTaint_fixed)

lemma mergeTaints_distinct:
  "distinct (map taint_id ts) \<Longrightarrow> distinct (map taint_id (fst (mergeTaints ts new)))"
proof (induction ts new rule: mergeTaints.induct)
  case (2 ts t new)
  then show ?case using mergeTaint_distinct [of ts t] by (auto split: prod.splits)
qed simp

section \<open>Node writes\<close>

lemma node_write_ok_pieces:
  "node_write_ok n (cordonNode n)" "node_write_ok n (uncordonNode n)"
  "node_write_ok n (set_node_annotations (AList.delete AnnotationCordonedByONP) n)"
  by (simp_all add: node_write_ok_def cordonNode_def uncordonNode_def set_node_annotations_def
      update_conv delete_conv)

lemma node_write_ok_template:
  "\<not> has_key labels LabelAlwaysOn \<Longrightarrow> node_write_ok n (fst (applyTemplateTo labels taints n))"
  using map_of_mergeLabels_other [of labels LabelAlwaysOn "node_labels n"]
    has_key_mergeLabels [of "node_labels n" _ labels]
  by (auto simp: node_write_ok_def applyTemplateTo_def split: prod.splits)

lemma node_writes_dispatch: "emits (within (only_patch node_write_ok)) (dispatch R m)"
  by (cases "state_of m")
    (auto simp: dispatch_def node_write_ok_pieces node_write_ok_template intro!: emits_rules)

lemma keeps_cordon_template:
  "node_unschedulable (fst (applyTemplateTo labels taints n)) = node_unschedulable n"
  by (simp add: applyTemplateTo_def split: prod.splits)

interpretation uncordons: evidence is_uncordon marker_seen
proof unfold_locales
  show "is_passive a \<Longrightarrow> \<not> is_uncordon a" for a by (cases a) (simp_all add: is_passive_def)
qed (auto simp: marker_seen_def split: action.splits)

lemma no_uncordon: "within (only_patch (\<lambda>n n'. node_unschedulable n \<longrightarrow> node_unschedulable n')) a \<Longrightarrow> \<not> is_uncordon a"
  by (cases a) auto

lemma uncordons_quiet:
  "emits (within (only_patch (\<lambda>n n'. node_unschedulable n \<longrightarrow> node_unschedulable n'))) p \<Longrightarrow> emits (\<lambda>a. \<not> is_uncordon a) p"
  by (erule emits_mono) (rule no_uncordon)

lemma uncordons_uncordonIfONPCordoned:
  "wp (uncordonIfONPCordoned E (nodeName_of m)) (\<lambda>as r. held is_uncordon marker_seen m B as)"
  unfolding uncordonIfONPCordoned_def setCordon_def client_defs
  by (auto intro!: wp_rules simp: uncordons.held_Cons uncordons.held_none marker_seen_def split: sum.splits) blast+

lemma uncordons_promoteToReady:
  "wp (promoteToReady R m) (\<lambda>as r. held is_uncordon marker_seen m B as)"
  unfolding promoteToReady_def Let_def
  by (intro uncordons.held_then uncordons_uncordonIfONPCordoned uncordons_quiet)
    (auto intro!: emits_rules simp: keeps_cordon_template timer_defs client_defs capacityDrift_def)

lemma uncordons_abortDrain:
  "wp (abortDrain R m) (\<lambda>as r. held is_uncordon marker_seen m B as)"
  unfolding abortDrain_def Let_def
  by (intro uncordons.held_then uncordons_uncordonIfONPCordoned uncordons_quiet)
    (auto intro!: emits_rules simp: client_defs)

lemma uncordons_failDrain:
  "wp (failDrain R m t) (\<lambda>as r. held is_uncordon marker_seen m B as)"
  unfolding failDrain_def Let_def
  by (intro uncordons.held_then uncordons_uncordonIfONPCordoned uncordons_quiet)
    (auto intro!: emits_rules simp: client_defs metric_defs)

lemma uncordons_held:
  assumes "wp p (\<lambda>as r. held is_uncordon marker_seen m {} as)"
  shows "wp p (\<lambda>as r. justified is_uncordon marker_seen m as)"
  by (rule wp_mono [OF assms]) (auto intro: uncordons.here)

lemmas uncordon_rules = uncordons_promoteToReady uncordons_abortDrain uncordons_failDrain uncordons.held_bind wp_if
  wp_case_prod uncordons.held_quiet uncordons_quiet

lemma uncordons_reconcileOff: "wp (reconcileOff R m) (\<lambda>as r. justified is_uncordon marker_seen m as)"
  unfolding reconcileOff_def Let_def
  by (intro uncordons.after_removeDrainAnnotation uncordons_held uncordon_rules)
    (auto intro!: emits_rules simp: client_defs nodeIsReady_def)

lemma uncordons_reconcileBooting: "wp (reconcileBooting R m) (\<lambda>as r. justified is_uncordon marker_seen m as)"
  unfolding reconcileBooting_def Let_def
  by (intro uncordons.after_removeDrainAnnotation uncordons_held uncordon_rules)
    (auto intro!: emits_rules simp: client_defs nodeIsReady_def timer_defs)

lemma uncordons_reconcileDraining: "wp (reconcileDraining R m) (\<lambda>as r. justified is_uncordon marker_seen m as)"
  unfolding reconcileDraining_def Let_def
  by (intro uncordons.after_removeDrainAnnotation uncordons_held uncordon_rules)
    (auto intro!: emits_rules simp: client_defs nodeAlwaysOn_def pool_defs cordonNode_def)

lemma uncordons_dispatch: "wp (dispatch R m) (\<lambda>as r. justified is_uncordon marker_seen m as)"
proof (cases "state_of m \<in> {Off, Booting, Draining}")
  case True
  then show ?thesis
    by (auto simp: dispatch_def uncordons_reconcileOff uncordons_reconcileBooting uncordons_reconcileDraining)
next
  case False
  then have "emits (\<lambda>a. \<not> is_uncordon a) (dispatch R m)"
    by (intro uncordons_quiet, cases "state_of m") (auto simp: dispatch_def intro!: emits_rules)
  then show ?thesis by (rule emits_wp) (rule uncordons.none)
qed

section \<open>Machine metadata\<close>

lemma trigger_removal_pieces:
  "emits trigger_removal (removeWakeAnnotation E m)" "emits trigger_removal (removeDrainAnnotation E m)"
  "emits trigger_removal (stampNotReadySince E m)" "emits trigger_removal (clearNotReadySince E m)"
  unfolding trigger_defs client_defs by (auto intro!: emits_rules)

lemma trigger_removal_dispatch: "emits trigger_removal (dispatch R m)"
proof -
  note defs = initialize_def reconcileOff_def reconcileBooting_def reconcileReady_def reconcileReadyNodeLost_def
    startDraining_def reconcileDraining_def reconcileShuttingDown_def wakeMachine_def promoteToReady_def
    enterReady_def failBoot_def resendPowerOn_def abortDrain_def failDrain_def drainPass_def
    enterShuttingDown_def evictTurn_def evictPod_def power_on_def setCondition_def
  show ?thesis
    unfolding dispatch_def defs metric_defs guard_defs pool_defs timer_defs node_write_defs client_defs Let_def
    by (cases "state_of m") (auto intro!: emits_rules trigger_removal_pieces)
qed

section \<open>Properties\<close>

text \<open>C31. Node writes are minimal: a Node that a reconcile patches keeps its name, allocatable, conditions and
  every annotation but ONP's cordon marker; no label is removed, and the always-on label, which keeps
  operators' nodes from being powered off, is left exactly as it is.\<close>

theorem node_writes_minimal:
  assumes "PatchNode n n' r \<in> set (actions (machineReconcile R name) w)"
  shows "node_name n' = node_name n \<and> node_allocatable n' = node_allocatable n \<and>
    node_conditions n' = node_conditions n \<and> node_rest n' = node_rest n \<and>
    map_of (node_labels n') LabelAlwaysOn = map_of (node_labels n) LabelAlwaysOn \<and>
    (\<forall>k. has_key (node_labels n) k \<longrightarrow> has_key (node_labels n') k) \<and>
    (\<forall>k. k \<noteq> AnnotationCordonedByONP \<longrightarrow> map_of (node_annotations n') k = map_of (node_annotations n) k)"
proof -
  have "node_write_ok n n'"
  proof (cases rule: machineReconcile_cases [of R name w])
    case idle
    with assms show ?thesis by (auto simp: list_all_iff)
  next
    case (dispatched m bs w')
    have "\<not> is_passive (PatchNode n n' r)" by simp
    with dispatched assms have "PatchNode n n' r \<in> set (actions (dispatch R m) w')" by (auto simp: list_all_iff)
    from withinD(4) [OF emitsD [OF node_writes_dispatch] this] show ?thesis by simp
  qed
  then show ?thesis by (simp add: node_write_ok_def)
qed

theorem node_writes_minimal_witness:
  "\<exists>n n'. PatchNode n n' (Inr n') \<in> set (actions (machineReconcile sample_reconciler ''m'') (sample_world Draining CondTrue False)) \<and>
     node_unschedulable n' \<and> map_of (node_labels n') LabelAlwaysOn = map_of (node_labels n) LabelAlwaysOn"
proof -
  let ?n = "sample_node ''n'' CondTrue False"
  have cordoned: "PatchNode ?n (cordonNode ?n) (Inr (cordonNode ?n)) \<in>
      set (actions (machineReconcile sample_reconciler ''m'') (sample_world Draining CondTrue False))"
    by code_simp
  have "node_unschedulable (cordonNode ?n)" by code_simp
  with node_writes_minimal [OF cordoned] cordoned show ?thesis by blast
qed

text \<open>C32. Only ONP's own cordon is lifted: a reconcile makes a cordoned Node schedulable only after it saw the
  marker that ONP sets when it cordons, on an answer about the Node of the Machine at hand; the Node it patches is itself
  an answer about that Node.\<close>

theorem uncordon_only_own:
  assumes "actions (machineReconcile R name) w = pre @ PatchNode n n' r # post"
    and "node_unschedulable n" and "\<not> node_unschedulable n'"
  shows "\<exists>m m0 k. cleared name m (set pre) \<and> m0 \<in> insert m (returned (set pre)) \<and>
    GetNode (nodeName_of m0) (Inr k) \<in> set pre \<and> has_key (node_annotations k) AnnotationCordonedByONP \<and>
    GetNode (nodeName_of m0) (Inr n) \<in> set pre"
proof -
  from assms(1) obtain m bs ds w' where pre: "pre = bs @ ds" and run: "actions (dispatch R m) w' = ds @ PatchNode n n' r # post"
      and clear: "cleared name m (set bs)" by (rule reconcile_split) simp
  have "\<exists>m0\<in>insert m (returned (set pre)). marker_seen m0 (set pre) (PatchNode n n' r)"
    unfolding pre by (rule uncordons.in_dispatch [OF uncordons_dispatch run]) (simp add: assms(2,3))
  moreover have "cleared name m (set pre)" using clear by (rule cleared_mono) (simp add: pre)
  ultimately show ?thesis unfolding marker_seen_def by auto
qed

theorem uncordon_only_own_witness:
  "\<exists>pre n n' post. actions (machineReconcile sample_reconciler ''m'') adopted_world = pre @ PatchNode n n' (Inr n') # post \<and>
     node_unschedulable n \<and> \<not> node_unschedulable n' \<and>
     (\<exists>m k. GetNode (nodeName_of m) (Inr k) \<in> set pre \<and> has_key (node_annotations k) AnnotationCordonedByONP \<and>
       GetNode (nodeName_of m) (Inr n) \<in> set pre)"
proof -
  let ?n = "hd (w_nodes adopted_world)"
  have lifted: "PatchNode ?n (uncordonNode ?n) (Inr (uncordonNode ?n)) \<in>
      set (actions (machineReconcile sample_reconciler ''m'') adopted_world)"
    and nodes: "node_unschedulable ?n" "\<not> node_unschedulable (uncordonNode ?n)"
    by code_simp+
  from lifted obtain pre post where run: "actions (machineReconcile sample_reconciler ''m'') adopted_world =
      pre @ PatchNode ?n (uncordonNode ?n) (Inr (uncordonNode ?n)) # post" by (meson split_list)
  from uncordon_only_own [OF run nodes] run nodes show ?thesis by blast
qed

text \<open>The reconcile consumes triggers and touches no other metadata: a patch of a Machine removes
  wake-now or drain-now from a Machine that carries it, a patch of its status sets the node-loss anchor,
  and nothing else is changed by either.\<close>

theorem machine_patches_minimal:
  "list_all trigger_removal (actions (machineReconcile R name) w)"
proof (cases rule: machineReconcile_cases [of R name w])
  case idle
  have "is_passive a \<Longrightarrow> trigger_removal a" for a by (cases a) (auto simp: is_passive_def)
  with idle show ?thesis by (auto simp: list_all_iff)
next
  case (dispatched m bs w')
  have "is_passive a \<Longrightarrow> trigger_removal a" for a by (cases a) (auto simp: is_passive_def)
  with dispatched emitsD [OF trigger_removal_dispatch, of R m w'] show ?thesis by (auto simp: list_all_iff)
qed

text \<open>Applying a template is idempotent, and it puts the template on the Node: when the template names
  each label and each pair of taint key and effect once, every template taint is then on the Node with its
  value, the labels read as the template says, a Node whose taints are unique per key and effect keeps them
  so (the API server rejects others), and a second application changes nothing.\<close>

theorem template_idempotent:
  assumes "distinct_keys labels" and "distinct (map taint_id taints)" and "distinct (map taint_id (node_taints n))"
  shows "let n' = fst (applyTemplateTo labels taints n) in
    (\<forall>(k, v)\<in>set labels. sget (node_labels n') k = v) \<and>
    (\<forall>t\<in>set taints. taint_lookup (node_taints n') (taint_id t) = Some (taint_value t)) \<and>
    distinct (map taint_id (node_taints n')) \<and>
    applyTemplateTo labels taints n' = (n', False)"
proof -
  define ls where "ls = fst (mergeLabels (node_labels n) labels)"
  define ts where "ts = fst (mergeTaints (node_taints n) taints)"
  have n': "fst (applyTemplateTo labels taints n) = n\<lparr>node_labels := ls, node_taints := ts\<rparr>"
    by (simp add: applyTemplateTo_def ls_def ts_def split: prod.splits)
  have l: "sget ls k = v" if "(k, v) \<in> set labels" for k v
    using that assms(1) by (auto simp: ls_def sget_mergeLabels distinct_keys_def)
  have "find (\<lambda>s. taint_id s = taint_id t) taints = Some t" if "t \<in> set taints" for t
    using that assms(2) by (induction taints) (force simp: image_iff)+
  then have t: "taint_lookup ts (taint_id t) = Some (taint_value t)" if "t \<in> set taints" for t
    using that by (simp add: ts_def taint_lookup_mergeTaints [OF assms(2)])
  have "distinct (map taint_id ts)" unfolding ts_def by (rule mergeTaints_distinct [OF assms(3)])
  moreover have "applyTemplateTo labels taints (n\<lparr>node_labels := ls, node_taints := ts\<rparr>) =
      (n\<lparr>node_labels := ls, node_taints := ts\<rparr>, False)"
    by (simp add: applyTemplateTo_def mergeLabels_fixed [OF l] mergeTaints_fixed [OF t])
  ultimately show ?thesis using l t by (auto simp: n' Let_def)
qed

theorem template_idempotent_witness:
  "applyTemplateTo [(''zone'', ''a'')] [sample_taint] (fst (applyTemplateTo [(''zone'', ''a'')] [sample_taint] (sample_node ''n'' CondTrue False))) =
     (fst (applyTemplateTo [(''zone'', ''a'')] [sample_taint] (sample_node ''n'' CondTrue False)), False)"
proof -
  have "distinct_keys [(''zone'', ''a'')]" and "distinct (map taint_id [sample_taint])"
    and "distinct (map taint_id (node_taints (sample_node ''n'' CondTrue False)))"
    by code_simp+
  from template_idempotent [OF this] show ?thesis by (simp add: Let_def)
qed

end
