(* ===== verification/Fit.thy ===== *)
theory Fit
  imports Cluster
begin

text \<open>
  Package \<^verbatim>\<open>internal/scheduler\<close>: could a pending Pod run on a Node of a given shape? Every rule
  is a predicate that answers with the empty string or with a reason; \<^verbatim>\<open>Fit\<close> returns the first
  reason. The lemmas say when each rule passes, and that \<^verbatim>\<open>Fit\<close> is their conjunction.
\<close>

section \<open>Rules\<close>

record fit_result =
  Fits :: bool
  Reason :: string

type_synonym predicate = "pod \<Rightarrow> node \<Rightarrow> string"

definition TaintNodeUnschedulable :: string where
  "TaintNodeUnschedulable = ''node.kubernetes.io/unschedulable''"

definition schedulable :: "lib \<Rightarrow> predicate" where
  "schedulable L pod node =
     (if \<not> node_unschedulable node then []
      else if TolerationsTolerateTaint L (pod_tolerations pod)
                \<lparr>taint_key = TaintNodeUnschedulable, taint_value = [], taint_effect = TaintEffectNoSchedule,
                 taint_timeAdded = None\<rparr>
      then []
      else ''node is cordoned'')"

definition matchesNodeAffinity :: "lib \<Rightarrow> predicate" where
  "matchesNodeAffinity L pod node =
     (case RequiredNodeAffinityMatch L pod node of
        Inl e \<Rightarrow> ''node selector / required affinity not satisfied''
      | Inr ok \<Rightarrow> if \<not> ok then ''node selector / required affinity not satisfied'' else [])"

definition isHardTaint :: "taint \<Rightarrow> bool" where
  "isHardTaint t \<longleftrightarrow> taint_effect t = TaintEffectNoSchedule \<or> taint_effect t = TaintEffectNoExecute"

definition toleratesHardTaints :: "lib \<Rightarrow> predicate" where
  "toleratesHardTaints L pod node =
     (case FindMatchingUntoleratedTaint L (node_taints node) (pod_tolerations pod) isHardTaint of
        Some taint \<Rightarrow> ''untolerated taint {key='' @ taint_key taint @ '' effect='' @ taint_effect taint @ ''}''
      | None \<Rightarrow> [])"

text \<open>Reading a resource that a list does not have gives the zero quantity.\<close>

definition qget :: "resource_list \<Rightarrow> string \<Rightarrow> quantity" where
  "qget r name = (case map_of r name of None \<Rightarrow> 0 | Some q \<Rightarrow> q)"

fun fitsResources :: "lib \<Rightarrow> resource_list \<Rightarrow> resource_list \<Rightarrow> string" where
  "fitsResources L [] allocatable = []"
| "fitsResources L ((name, req) # requests) allocatable =
     (let avail = qget allocatable name
      in if quantity_cmp L req avail > 0
         then ''insufficient '' @ name @ '': requests '' @ quantity_string L req @ '' > allocatable '' @
              quantity_string L avail
         else fitsResources L requests allocatable)"

definition fitsRequests :: "lib \<Rightarrow> predicate" where
  "fitsRequests L pod node = fitsResources L (PodRequests L pod) (node_allocatable node)"

definition defaultPredicates :: "lib \<Rightarrow> predicate list" where
  "defaultPredicates L = [schedulable L, matchesNodeAffinity L, toleratesHardTaints L, fitsRequests L]"

fun firstReason :: "predicate list \<Rightarrow> predicate" where
  "firstReason [] pod node = []"
| "firstReason (p # ps) pod node = (let reason = p pod node in if reason \<noteq> [] then reason else firstReason ps pod node)"

definition fit_pod :: "lib \<Rightarrow> pod \<Rightarrow> node \<Rightarrow> predicate list \<Rightarrow> fit_result" where
  "fit_pod L pod node extra =
     (let reason = firstReason (defaultPredicates L) pod node
      in if reason \<noteq> [] then \<lparr>Fits = False, Reason = reason\<rparr>
         else (let reason = firstReason extra pod node
               in if reason \<noteq> [] then \<lparr>Fits = False, Reason = reason\<rparr>
                  else \<lparr>Fits = True, Reason = []\<rparr>))"

fun VolumeNodeAffinity :: "lib \<Rightarrow> node_selector list \<Rightarrow> predicate" where
  "VolumeNodeAffinity L [] pod node = []"
| "VolumeNodeAffinity L (ns # required) pod node =
     (case NewNodeSelector L ns of
        Inl e \<Rightarrow> ''volume node affinity conflict''
      | Inr matches \<Rightarrow>
          if \<not> matches node then ''volume node affinity conflict''
          else VolumeNodeAffinity L required pod node)"

section \<open>When a rule passes\<close>

lemma firstReason_Nil: "firstReason ps pod node = [] \<longleftrightarrow> (\<forall>p\<in>set ps. p pod node = [])"
  by (induction ps) (auto simp: Let_def)

lemma schedulable_Nil:
  "schedulable L pod node = [] \<longleftrightarrow>
     (node_unschedulable node \<longrightarrow> TolerationsTolerateTaint L (pod_tolerations pod)
        \<lparr>taint_key = TaintNodeUnschedulable, taint_value = [], taint_effect = TaintEffectNoSchedule,
         taint_timeAdded = None\<rparr>)"
  by (simp add: schedulable_def)

lemma matchesNodeAffinity_Nil: "matchesNodeAffinity L pod node = [] \<longleftrightarrow> RequiredNodeAffinityMatch L pod node = Inr True"
  by (auto simp: matchesNodeAffinity_def split: sum.splits)

lemma toleratesHardTaints_Nil:
  "toleratesHardTaints L pod node = [] \<longleftrightarrow>
     FindMatchingUntoleratedTaint L (node_taints node) (pod_tolerations pod) isHardTaint = None"
  by (auto simp: toleratesHardTaints_def split: option.splits)

lemma fitsResources_Nil:
  assumes "quantity_ok L"
  shows "fitsResources L requests allocatable = [] \<longleftrightarrow> (\<forall>(name, req)\<in>set requests. req \<le> qget allocatable name)"
  by (induction requests) (auto simp: Let_def quantity_okD [OF assms] sgn_if split: if_splits)

lemma VolumeNodeAffinity_Nil:
  "VolumeNodeAffinity L required pod node = [] \<longleftrightarrow>
     (\<forall>ns\<in>set required. \<exists>matches. NewNodeSelector L ns = Inr matches \<and> matches node)"
  by (induction required) (auto split: sum.splits)

lemma fit_pod_Fits: "Fits (fit_pod L pod node extra) \<longleftrightarrow> (\<forall>p\<in>set (defaultPredicates L @ extra). p pod node = [])"
  by (auto simp: fit_pod_def Let_def firstReason_Nil)

lemma fit_pod_Reason: "Reason (fit_pod L pod node extra) = [] \<longleftrightarrow> Fits (fit_pod L pod node extra)"
  by (simp add: fit_pod_def Let_def)

end
