(* ===== verification/Scale_Up.thy ===== *)
theory Scale_Up
  imports Machine_Controller Fit
begin

text \<open>
  \<^verbatim>\<open>internal/controller/scaleup_controller.go\<close>: choose a powered-off Machine to wake for one
  unschedulable Pod. The reconciler walks the members of every pool, fit-checks the Pod against the Node
  that each Machine will present once Ready, and collects the members that its guards (pool membership,
  \<^verbatim>\<open>maxNodes\<close>, \<^verbatim>\<open>cooldown.scaleUp\<close>, a wake in flight) allow to be woken. The variables
  that the Go loops update are the record \<open>scan\<close>.
\<close>

section \<open>Constants\<close>

definition scaleUpRequeue :: duration where
  "scaleUpRequeue = 30 * second"

definition noFitRequeue :: duration where
  "noFitRequeue = 60 * second"

definition readySettle :: duration where
  "readySettle = 2 * minute"

definition minCooldownRequeue :: duration where
  "minCooldownRequeue = second"

definition reasonScaleUp :: string where
  "reasonScaleUp = ''ScaleUp''"

definition reasonScaleUpBlocked :: string where
  "reasonScaleUpBlocked = ''ScaleUpBlocked''"

definition LabelHostname :: string where
  "LabelHostname = ''kubernetes.io/hostname''"

definition ResourceCPU :: string where
  "ResourceCPU = ''cpu''"

definition ResourceMemory :: string where
  "ResourceMemory = ''memory''"

section \<open>The Node a Machine will present\<close>

definition isExtendedResource :: "string \<Rightarrow> bool" where
  "isExtendedResource name \<longleftrightarrow> CHR ''/'' \<in> set name"

definition persistentTaints :: "taint list \<Rightarrow> taint list" where
  "persistentTaints taints = filter (\<lambda>t. \<not> prefix ''node.kubernetes.io/'' (taint_key t)) taints"

text \<open>The two loops of \<^verbatim>\<open>syntheticAllocatable\<close>: cap by what the Node reported, subtract what is
  still bound to it.\<close>

fun capByReported :: "lib \<Rightarrow> resource_list \<Rightarrow> resource_list \<Rightarrow> resource_list" where
  "capByReported L out [] = out"
| "capByReported L out ((name, reported) # rest) =
     capByReported L
       (case map_of out name of
          None \<Rightarrow> AList.update name reported out
        | Some declared \<Rightarrow>
            if \<not> isExtendedResource name \<and> quantity_cmp L reported declared < 0
            then AList.update name reported out else out) rest"

fun subtractBound :: "lib \<Rightarrow> resource_list \<Rightarrow> resource_list \<Rightarrow> resource_list" where
  "subtractBound L out [] = out"
| "subtractBound L out ((name, used) # rest) =
     subtractBound L
       (case map_of out name of
          None \<Rightarrow> out
        | Some avail \<Rightarrow>
            (let left = quantity_sub L avail used
             in AList.update name (if quantity_sign L left < 0 then 0 else left) out)) rest"

definition syntheticAllocatable :: "lib \<Rightarrow> resource_list \<Rightarrow> node option \<Rightarrow> resource_list \<Rightarrow> resource_list" where
  "syntheticAllocatable L capacity real bound =
     subtractBound L
       (case real of None \<Rightarrow> capacity | Some n \<Rightarrow> capByReported L capacity (node_allocatable n)) bound"

definition nodeForMachine :: "lib \<Rightarrow> machine \<Rightarrow> nodepool \<Rightarrow> node option \<Rightarrow> resource_list \<Rightarrow> node" where
  "nodeForMachine L m pool real bound =
     (let base = [(LabelHostname, nodeName_of m)];
          labels = (case real of None \<Rightarrow> base | Some n \<Rightarrow> overlay base (node_labels n));
          taints = (case real of None \<Rightarrow> [] | Some n \<Rightarrow> persistentTaints (node_taints n));
          cordoned = (case real of None \<Rightarrow> False
            | Some n \<Rightarrow> node_unschedulable n \<and> \<not> has_key (node_annotations n) AnnotationCordonedByONP)
      in \<lparr>node_name = nodeName_of m,
          node_labels = overlay (overlay labels (tmpl_labels (ps_template (pool_spec pool)))) (spec_labels (m_spec m)),
          node_annotations = [],
          node_unschedulable = cordoned,
          node_taints = fst (mergeTaints taints (tmpl_taints (ps_template (pool_spec pool)))),
          node_allocatable = syntheticAllocatable L (spec_capacity (m_spec m)) real bound,
          node_conditions = [], node_rest = []\<rparr>)"

fun addRequests :: "lib \<Rightarrow> resource_list \<Rightarrow> resource_list \<Rightarrow> resource_list" where
  "addRequests L acc [] = acc"
| "addRequests L acc ((name, q) # rest) =
     addRequests L (AList.update name (quantity_add L (qget acc name) q) acc) rest"

definition holdsPlace :: "pod \<Rightarrow> bool" where
  "holdsPlace pod \<longleftrightarrow>
     \<not> (pod_deletionTimestamp pod \<noteq> None \<or> pod_phase pod = PodSucceeded \<or> pod_phase pod = PodFailed)"

definition boundRequests :: "'w env \<Rightarrow> string \<Rightarrow> ('w, resource_list) go" where
  "boundRequests E nodeName =
     bind (map_error (Wrapf ''list pods on node %q: %w'' [TQuoted nodeName])
             (list_pods_on_node E Cached nodeName)) (\<lambda>pods.
     ret (fold (\<lambda>pod acc. addRequests (env_lib E) acc (PodRequests (env_lib E) pod)) (filter holdsPlace pods) []))"

section \<open>Volumes\<close>

definition claimOf :: "pod \<Rightarrow> volume \<Rightarrow> string option" where
  "claimOf pod vol =
     (case vol_claimName vol of
        Some c \<Rightarrow> Some c
      | None \<Rightarrow> if vol_ephemeral vol then Some (pod_name pod @ ''-'' @ vol_name vol) else None)"

definition volumeAffinity :: "'w env \<Rightarrow> pod \<Rightarrow> node_selector list \<Rightarrow> volume \<Rightarrow> ('w, node_selector list) go" where
  "volumeAffinity E pod required vol =
     (case claimOf pod vol of
        None \<Rightarrow> ret required
      | Some claim \<Rightarrow>
          bind (attempt (get_claim E (pod_namespace pod) claim)) (\<lambda>r. case r of
            Inl e \<Rightarrow> if is_not_found e then ret required
                     else throw (Wrapf ''get claim %s/%s: %w'' [TStr (pod_namespace pod), TStr claim] e)
          | Inr pvc \<Rightarrow>
              if claim_volumeName pvc = [] then ret required
              else bind (attempt (get_volume E (claim_volumeName pvc))) (\<lambda>r. case r of
                Inl e \<Rightarrow> if is_not_found e then ret required
                         else throw (Wrapf ''get volume %s: %w'' [TStr (claim_volumeName pvc)] e)
              | Inr pv \<Rightarrow>
                  (case pv_nodeAffinity pv of
                     Some (Some ns) \<Rightarrow> ret (required @ [ns])
                   | _ \<Rightarrow> ret required))))"

definition podVolumeAffinities :: "'w env \<Rightarrow> pod \<Rightarrow> ('w, node_selector list) go" where
  "podVolumeAffinities E pod = fold_prog (volumeAffinity E pod) [] (pod_volumes pod)"

section \<open>Guards\<close>

fun countMembers :: "machine list \<Rightarrow> int gomap \<Rightarrow> int gomap" where
  "countMembers [] counts = counts"
| "countMembers (m # ms) counts =
     countMembers ms (AList.update (m_name m) ((case map_of counts (m_name m) of None \<Rightarrow> 0 | Some n \<Rightarrow> n) + 1) counts)"

definition poolMembers :: "'w env \<Rightarrow> nodepool \<Rightarrow> ('w, machine list) go" where
  "poolMembers E pool =
     map_error (Wrapf ''list machines for pool %q: %w'' [TQuoted (pool_name pool)])
       (list_machines_matching E Cached (ps_machineSelector (pool_spec pool)))"

definition poolMemberships :: "'w env \<Rightarrow> nodepool list \<Rightarrow> ('w, int gomap) go" where
  "poolMemberships E pools =
     fold_prog (\<lambda>counts pool.
       case LabelSelectorAsSelector (env_lib E) (ps_machineSelector (pool_spec pool)) of
         Inl e \<Rightarrow> ret counts
       | Inr _ \<Rightarrow> bind (poolMembers E pool) (\<lambda>ms. ret (countMembers ms counts))) [] pools"

definition isActive :: "machine \<Rightarrow> bool" where
  "isActive m =
     (case state_of m of
        Ready \<Rightarrow> True | Booting \<Rightarrow> True | Draining \<Rightarrow> True | ShuttingDown \<Rightarrow> True
      | Off \<Rightarrow> wakeRequested m
      | _ \<Rightarrow> False)"

definition countsAgainstCap :: "'w env \<Rightarrow> machine \<Rightarrow> ('w, bool) go" where
  "countsAgainstCap E m =
     (if isActive m then ret True
      else if state_of m \<noteq> Failed then ret False
      else nodeIsReady E (nodeName_of m))"

definition poolAtCap :: "'w env \<Rightarrow> nodepool \<Rightarrow> machine list \<Rightarrow> ('w, bool) go" where
  "poolAtCap E pool members =
     (case ps_maxNodes (pool_spec pool) of
        None \<Rightarrow> ret False
      | Some maxNodes \<Rightarrow>
          bind (fold_prog (\<lambda>active m. bind (countsAgainstCap E m) (\<lambda>counts.
                  ret (if counts then wrap32 (active + 1) else active))) 0 members) (\<lambda>active.
          ret (maxNodes \<le> active)))"

text \<open>\<^verbatim>\<open>coolingUntil\<close> answers with the zero time when the pool is not cooling down.\<close>

definition coolingUntil :: "'w env \<Rightarrow> nodepool \<Rightarrow> ('w, time) go" where
  "coolingUntil E pool =
     (case (cool_scaleUp (ps_cooldown (pool_spec pool)), pst_lastScaleUpTime (pool_status pool)) of
        (Some cd, Some lst) \<Rightarrow>
          bind (now E) (\<lambda>n. ret (if \<not> n < lst + cd then 0 else lst + cd))
      | _ \<Rightarrow> ret 0)"

definition settling :: "'w env \<Rightarrow> machine \<Rightarrow> ('w, bool) go" where
  "settling E m =
     (if state_of m \<noteq> Ready then ret False
      else (case FindStatusCondition (env_lib E) (st_conditions (m_status m)) ConditionReady of
              None \<Rightarrow> ret False
            | Some c \<Rightarrow>
                if cond_status c \<noteq> CondTrue then ret False
                else bind (since E (cond_lastTransition c)) (\<lambda>d. ret (d < readySettle))))"

definition isWaking :: "lib \<Rightarrow> machine \<Rightarrow> bool" where
  "isWaking L m =
     (if state_of m = Booting then True
      else if state_of m \<noteq> Off \<or> \<not> wakeRequested m then False
      else (case FindStatusCondition L (st_conditions (m_status m)) ConditionPowerOnSucceeded of
              None \<Rightarrow> True
            | Some c \<Rightarrow> cond_status c \<noteq> CondFalse))"

definition PodScheduled :: string where
  "PodScheduled = ''PodScheduled''"

definition PodReasonUnschedulable :: string where
  "PodReasonUnschedulable = ''Unschedulable''"

definition isScaleUpCandidate :: "pod \<Rightarrow> bool" where
  "isScaleUpCandidate pod =
     (if pod_nodeName pod \<noteq> [] \<or> pod_phase pod \<noteq> PodPending then False
      else (case find (\<lambda>c. pc_type c = PodScheduled) (pod_conditions pod) of
              None \<Rightarrow> False
            | Some c \<Rightarrow> pc_status c = CondFalse \<and> pc_reason c = PodReasonUnschedulable))"

fun unschedulablePodPredicate :: "pod watch_event \<Rightarrow> bool" where
  "unschedulablePodPredicate (CreateEvent pod) = isScaleUpCandidate pod"
| "unschedulablePodPredicate (UpdateEvent old pod) = isScaleUpCandidate pod"
| "unschedulablePodPredicate (DeleteEvent pod) = False"
| "unschedulablePodPredicate (GenericEvent pod) = False"

section \<open>Choosing a Machine\<close>

record wake_candidate =
  wc_machine :: machine
  wc_pool :: nodepool

definition cpuMilli :: "machine \<Rightarrow> quantity" where
  "cpuMilli m = qget (spec_capacity (m_spec m)) ResourceCPU"

definition memBytes :: "machine \<Rightarrow> quantity" where
  "memBytes m = qget (spec_capacity (m_spec m)) ResourceMemory"

definition candidateBefore :: "lib \<Rightarrow> wake_candidate \<Rightarrow> wake_candidate \<Rightarrow> bool" where
  "candidateBefore L x y =
     (let a = wc_machine x; b = wc_machine y; c = quantity_cmp L (cpuMilli a) (cpuMilli b)
      in if c \<noteq> 0 then c < 0
         else (let c = quantity_cmp L (memBytes a) (memBytes b)
               in if c \<noteq> 0 then c < 0 else m_name a < m_name b))"

definition smallestCandidate :: "lib \<Rightarrow> wake_candidate list \<Rightarrow> wake_candidate" where
  "smallestCandidate L candidates = hd (sort_slice (candidateBefore L) candidates)"

definition stampScaleUp :: "'w env \<Rightarrow> nodepool \<Rightarrow> ('w, nodepool) go" where
  "stampScaleUp E pool =
     bind (now E) (\<lambda>t.
     map_error (Wrapf ''stamp scale-up time on nodepool %q: %w'' [TQuoted (pool_name pool)])
       (patch_pool_status E pool (pool\<lparr>pool_status := (pool_status pool)\<lparr>pst_lastScaleUpTime := Some t\<rparr>\<rparr>)))"

definition requestWake :: "'w env \<Rightarrow> machine \<Rightarrow> ('w, machine) go" where
  "requestWake E m =
     map_error (Wrapf ''set wake-now annotation on machine %q: %w'' [TQuoted (m_name m)])
       (patch_machine E m (set_annotations (AList.update AnnotationWakeNow AnnotationWakeNowValue) m))"

record scan =
  sc_candidates :: "wake_candidate list"
  sc_wakeInFlight :: bool
  sc_maxedPool :: string
  sc_coolingUntil :: time

text \<open>One turn of the inner loop: the member \<open>m\<close> of \<open>pool\<close>.\<close>

definition scanMember ::
  "'w env \<Rightarrow> pod \<Rightarrow> node_selector list \<Rightarrow> int gomap \<Rightarrow> nodepool \<Rightarrow> bool \<Rightarrow> time \<Rightarrow> scan \<Rightarrow> machine \<Rightarrow> ('w, scan) go" where
  "scanMember E pod affinities memberships pool maxed poolCoolingUntil sc m =
     bind (backingNode E (nodeName_of m)) (\<lambda>real.
     bind (boundRequests E (nodeName_of m)) (\<lambda>bound.
     if \<not> Fits (fit_pod (env_lib E) pod (nodeForMachine (env_lib E) m pool real bound)
                 [VolumeNodeAffinity (env_lib E) affinities]) then ret sc
     else bind (if isWaking (env_lib E) m then ret True else settling E m) (\<lambda>inFlight.
       if inFlight then ret (sc\<lparr>sc_wakeInFlight := True\<rparr>)
       else if state_of m \<noteq> Off \<or> wakeRequested m then ret sc
       else if (case map_of memberships (m_name m) of None \<Rightarrow> 0 | Some n \<Rightarrow> n) > 1 then ret sc
       else if maxed then ret (sc\<lparr>sc_maxedPool := pool_name pool\<rparr>)
       else if \<not> is_zero_time poolCoolingUntil then
         ret (if is_zero_time (sc_coolingUntil sc) \<or> poolCoolingUntil < sc_coolingUntil sc
              then sc\<lparr>sc_coolingUntil := poolCoolingUntil\<rparr> else sc)
       else ret (sc\<lparr>sc_candidates := sc_candidates sc @ [\<lparr>wc_machine = m, wc_pool = pool\<rparr>]\<rparr>))))"

text \<open>One turn of the outer loop.\<close>

definition scanPool ::
  "'w env \<Rightarrow> pod \<Rightarrow> node_selector list \<Rightarrow> int gomap \<Rightarrow> scan \<Rightarrow> nodepool \<Rightarrow> ('w, scan) go" where
  "scanPool E pod affinities memberships sc pool =
     (case LabelSelectorAsSelector (env_lib E) (ps_machineSelector (pool_spec pool)) of
        Inl e \<Rightarrow> ret sc
      | Inr _ \<Rightarrow>
          bind (poolMembers E pool) (\<lambda>machines.
          bind (poolAtCap E pool machines) (\<lambda>maxed.
          bind (coolingUntil E pool) (\<lambda>poolCoolingUntil.
          fold_prog (scanMember E pod affinities memberships pool maxed poolCoolingUntil) sc machines))))"

text \<open>What follows the loops: wait for a wake in flight, wake the smallest candidate, wait out a
  cooldown, report a full pool, or look again later.\<close>

definition decideScaleUp :: "'w env \<Rightarrow> pod \<Rightarrow> scan \<Rightarrow> ('w, requeue) go" where
  "decideScaleUp E pod sc =
     (if sc_wakeInFlight sc then ret (RequeueAfter scaleUpRequeue)
      else if sc_candidates sc \<noteq> [] then
        (let winner = smallestCandidate (env_lib E) (sc_candidates sc) in
         bind (stampScaleUp E (wc_pool winner)) (\<lambda>_.
         bind (requestWake E (wc_machine winner)) (\<lambda>m.
         bind (event (MachineObj (m_name m)) Normal reasonScaleUp
                 (Msg ''waking machine %q to schedule pod %s/%s''
                   [TQuoted (m_name m), TStr (pod_namespace pod), TStr (pod_name pod)])) (\<lambda>_.
         bind (event (PodObj (pod_namespace pod) (pod_name pod)) Normal reasonScaleUp
                 (Msg ''waking machine %q to host pod'' [TQuoted (m_name m)])) (\<lambda>_.
         ret (RequeueAfter scaleUpRequeue))))))
      else if \<not> is_zero_time (sc_coolingUntil sc) then
        bind (now E) (\<lambda>n.
          let wait = time_sub (sc_coolingUntil sc) n
          in ret (RequeueAfter (if wait < minCooldownRequeue then minCooldownRequeue else wait)))
      else if sc_maxedPool sc \<noteq> [] then
        bind (event (PodObj (pod_namespace pod) (pod_name pod)) Warning reasonScaleUpBlocked
                (Msg ''pool %q is at its maxNodes cap; not waking a node for this pod'' [TQuoted (sc_maxedPool sc)]))
          (\<lambda>_. ret (RequeueAfter noFitRequeue))
      else ret (RequeueAfter noFitRequeue))"

definition emptyScan :: scan where
  "emptyScan = \<lparr>sc_candidates = [], sc_wakeInFlight = False, sc_maxedPool = [], sc_coolingUntil = 0\<rparr>"

definition scaleUpReconcile :: "'w env \<Rightarrow> string \<Rightarrow> string \<Rightarrow> ('w, requeue) go" where
  "scaleUpReconcile E ns name =
     bind (attempt (get_pod E ns name)) (\<lambda>r. case r of
       Inl e \<Rightarrow> if is_not_found e then ret NoRequeue else throw e
     | Inr pod \<Rightarrow>
         if \<not> (case pod_deletionTimestamp pod of None \<Rightarrow> True | Some t \<Rightarrow> is_zero_time t) then ret NoRequeue
         else if \<not> isScaleUpCandidate pod then ret NoRequeue
         else
           bind (map_error (Wrapf ''list nodepools: %w'' []) (list_pools E)) (\<lambda>pools.
           bind (poolMemberships E pools) (\<lambda>memberships.
           bind (podVolumeAffinities E pod) (\<lambda>affinities.
           bind (fold_prog (scanPool E pod affinities memberships) emptyScan pools) (\<lambda>sc.
           decideScaleUp E pod sc)))))"

end
