(* ===== verification/Rate_Limit.thy ===== *)
theory Rate_Limit
  imports Guards
begin

text \<open>
  The contract that the two pool cooldowns share: \<^verbatim>\<open>cooldown.scaleUp\<close> with
  \<^verbatim>\<open>coolingUntil\<close> and \<^verbatim>\<open>stampScaleUp\<close>, \<^verbatim>\<open>cooldown.scaleDown\<close> with
  \<^verbatim>\<open>coolingDownUntil\<close> and \<^verbatim>\<open>stampScaleDown\<close>. A decision stamps an anchor on the pool;
  the guard answers with the zero time only when the window that starts at the anchor has ended.
\<close>

text \<open>A configured window with an anchor has ended by an instant that was read. (The code uses the zero
  \<^verbatim>\<open>time.Time\<close> for \<open>not cooling\<close>; no clock reads earlier.)\<close>

definition lapsed :: "duration option \<Rightarrow> time option \<Rightarrow> action set \<Rightarrow> bool" where
  "lapsed window anchor A \<longleftrightarrow>
     (\<forall>cd t. window = Some cd \<longrightarrow> anchor = Some t \<longrightarrow> (\<exists>n. ReadClock n \<in> A \<and> (0 \<le> n \<longrightarrow> t + cd \<le> n)))"

lemma lapsed_mono: "lapsed window anchor A \<Longrightarrow> A \<subseteq> B \<Longrightarrow> lapsed window anchor B"
  unfolding lapsed_def by blast

locale rate_limit =
  fixes until :: "'w env \<Rightarrow> nodepool \<Rightarrow> ('w, time) go"
    and window :: "nodepool \<Rightarrow> duration option"
    and anchor :: "nodepool \<Rightarrow> time option"
    and stamp :: "nodepool \<Rightarrow> time \<Rightarrow> nodepool"
  assumes until_reads: "wp (until E p) (\<lambda>as r. list_all is_read as \<and>
      (\<exists>u. r = Inr u \<and> (is_zero_time u \<longrightarrow> lapsed (window p) (anchor p) (set as))))"
    and anchor_stamp: "anchor (stamp p t) = Some t"
    and window_stamp: "window (stamp p t) = window p"
begin

text \<open>A decision that reads a pool stamped at \<open>t\<close> passes the guard only once the window after \<open>t\<close> is over.\<close>

lemma spaced:
  "wp (until E (stamp p t)) (\<lambda>as r. \<exists>u. r = Inr u \<and> (is_zero_time u \<longrightarrow> lapsed (window p) (Some t) (set as)))"
  by (rule wp_mono [OF until_reads]) (auto simp: anchor_stamp window_stamp)

end

end
