(* ===== verification/Scale_Up_Safety.thy ===== *)
theory Scale_Up_Safety
  imports Scale_Up Machine_Nodes Rate_Limit "HOL-Library.Product_Lexorder"
begin

text \<open>
  What the scale-up reconciler wakes and when: only an Off Machine whose future Node the Pod fits, at most
  one per reconcile, the smallest one, within its pool's \<^verbatim>\<open>maxNodes\<close> and cooldown, and never a
  Machine that several pools select. The simulated Node is compared with the Node that the Machine
  reconciler produces when the Machine becomes Ready.
\<close>

section \<open>Evidence\<close>

text \<open>What the API server said about the Node \<open>k\<close>.\<close>

fun node_seen :: "string \<Rightarrow> node option \<Rightarrow> action set \<Rightarrow> bool" where
  "node_seen k None A = (k = [] \<or> (\<exists>e. is_not_found e \<and> GetNode k (Inl e) \<in> A))"
| "node_seen k (Some n) A = (GetNode k (Inr n) \<in> A)"

definition requests_of :: "lib \<Rightarrow> pod list \<Rightarrow> resource_list" where
  "requests_of L pods = fold (\<lambda>pod acc. addRequests L acc (PodRequests L pod)) (filter holdsPlace pods) []"

definition volumes_resolved :: "node_selector list \<Rightarrow> action set \<Rightarrow> bool" where
  "volumes_resolved affinities A \<longleftrightarrow>
     (\<forall>n pv ns. GetVolume n (Inr pv) \<in> A \<longrightarrow> pv_nodeAffinity pv = Some (Some ns) \<longrightarrow> ns \<in> set affinities)"

fun is_volume_read :: "action \<Rightarrow> bool" where
  "is_volume_read (GetVolume n r) = True"
| "is_volume_read _ = False"

text \<open>The Pod fits the Node that the Machine will present, built from answers in \<open>A\<close>.\<close>

definition fits_machine :: "lib \<Rightarrow> pod \<Rightarrow> node_selector list \<Rightarrow> nodepool \<Rightarrow> machine \<Rightarrow> action set \<Rightarrow> bool" where
  "fits_machine L pod affinities pool m A \<longleftrightarrow>
     (\<exists>real pods. node_seen (nodeName_of m) real A \<and> ListPodsOnNode Cached (nodeName_of m) (Inr pods) \<in> A \<and>
        Fits (fit_pod L pod (nodeForMachine L m pool real (requests_of L pods)) [VolumeNodeAffinity L affinities]))"

text \<open>The members that take a slot for certain: the active ones. A count of fewer than \<open>2 ^ 31\<close> members
  does not overflow the \<open>int32\<close> counter.\<close>

definition below_cap :: "nodepool \<Rightarrow> machine list \<Rightarrow> bool" where
  "below_cap pool members \<longleftrightarrow>
     (\<forall>k. ps_maxNodes (pool_spec pool) = Some k \<longrightarrow> length members < 2 ^ 31 \<longrightarrow>
        int (length (filter isActive members)) < k)"

definition cooled_down :: "nodepool \<Rightarrow> action set \<Rightarrow> bool" where
  "cooled_down pool A \<longleftrightarrow>
     lapsed (cool_scaleUp (ps_cooldown (pool_spec pool))) (pst_lastScaleUpTime (pool_status pool)) A"

definition members_listed :: "nodepool \<Rightarrow> machine list \<Rightarrow> action set \<Rightarrow> bool" where
  "members_listed pool members A \<longleftrightarrow>
     ListMachinesMatching Cached (ps_machineSelector (pool_spec pool)) (Inr members) \<in> A"

definition candidate_ok ::
  "lib \<Rightarrow> pod \<Rightarrow> node_selector list \<Rightarrow> int gomap \<Rightarrow> nodepool list \<Rightarrow> action set \<Rightarrow> wake_candidate \<Rightarrow> bool" where
  "candidate_ok L pod affinities memberships pools A c \<longleftrightarrow>
     state_of (wc_machine c) = Off \<and> \<not> wakeRequested (wc_machine c) \<and> wc_pool c \<in> set pools \<and>
     (case map_of memberships (m_name (wc_machine c)) of None \<Rightarrow> 0 | Some n \<Rightarrow> n) \<le> 1 \<and>
     fits_machine L pod affinities (wc_pool c) (wc_machine c) A \<and>
     (\<exists>members. members_listed (wc_pool c) members A \<and> wc_machine c \<in> set members \<and> below_cap (wc_pool c) members) \<and>
     cooled_down (wc_pool c) A"

text \<open>How often the answers of a list of interactions name the Machine \<open>name\<close> as a member of a pool.\<close>

fun named_in :: "string \<Rightarrow> action \<Rightarrow> int" where
  "named_in name (ListMachinesMatching rd s (Inr ms)) = int (length (filter (\<lambda>m. m_name m = name) ms))"
| "named_in name _ = 0"

fun is_wake :: "action \<Rightarrow> bool" where
  "is_wake (PatchMachine m m' r) = True"
| "is_wake _ = False"

definition misfits_machine :: "lib \<Rightarrow> pod \<Rightarrow> node_selector list \<Rightarrow> nodepool \<Rightarrow> machine \<Rightarrow> action set \<Rightarrow> bool" where
  "misfits_machine L pod affinities pool m A \<longleftrightarrow>
     (\<exists>real pods. node_seen (nodeName_of m) real A \<and> ListPodsOnNode Cached (nodeName_of m) (Inr pods) \<in> A \<and>
        \<not> Fits (fit_pod L pod (nodeForMachine L m pool real (requests_of L pods)) [VolumeNodeAffinity L affinities]))"

text \<open>No wake in flight serves the Pod: every member that is already waking was found not to fit it.\<close>

definition none_in_flight :: "lib \<Rightarrow> pod \<Rightarrow> node_selector list \<Rightarrow> nodepool \<Rightarrow> machine list \<Rightarrow> action set \<Rightarrow> bool" where
  "none_in_flight L pod affinities pool ms A \<longleftrightarrow>
     (\<forall>m\<in>set ms. isWaking L m \<longrightarrow> misfits_machine L pod affinities pool m A)"

text \<open>The pools that can be listed at all.\<close>

definition selectable :: "lib \<Rightarrow> nodepool \<Rightarrow> bool" where
  "selectable L pool \<longleftrightarrow> (\<exists>f. LabelSelectorAsSelector L (ps_machineSelector (pool_spec pool)) = Inr f)"

text \<open>Every pool was listed, and the answers name the Machine at most once.\<close>

definition in_one_pool :: "lib \<Rightarrow> nodepool list \<Rightarrow> machine \<Rightarrow> action list \<Rightarrow> bool" where
  "in_one_pool L pools m as \<longleftrightarrow>
     (\<forall>pool\<in>set pools. selectable L pool \<longrightarrow> (\<exists>ms. members_listed pool ms (set as))) \<and>
     sum_list (map (named_in (m_name m)) as) \<le> 1"

definition stamped :: "nodepool \<Rightarrow> time \<Rightarrow> nodepool" where
  "stamped pool t = pool\<lparr>pool_status := (pool_status pool)\<lparr>pst_lastScaleUpTime := Some t\<rparr>\<rparr>"

definition woken :: "machine \<Rightarrow> machine" where
  "woken m = set_annotations (AList.update AnnotationWakeNow AnnotationWakeNowValue) m"

text \<open>The interactions of a wake: stamp the pool's cooldown, then set the trigger, then report.\<close>

definition wake_of :: "wake_candidate \<Rightarrow> action list \<Rightarrow> bool" where
  "wake_of c as \<longleftrightarrow> (\<exists>t p r zs. list_all is_report zs \<and>
     as = ReadClock t # PatchPoolStatus (wc_pool c) (stamped (wc_pool c) t) (Inr p) #
          PatchMachine (wc_machine c) (woken (wc_machine c)) r # zs)"

section \<open>Samples\<close>

definition pending_pod :: pod where
  "pending_pod = (sample_pod ''p'' [])\<lparr>pod_phase := PodPending,
     pod_conditions := [\<lparr>pc_type = PodScheduled, pc_status = CondFalse, pc_reason = PodReasonUnschedulable\<rparr>]\<rparr>"

definition pending_world :: world where
  "pending_world = (sample_world Off CondFalse False)\<lparr>w_pods := [pending_pod]\<rparr>"

section \<open>Contracts of the parts\<close>

lemma node_seen_mono: "node_seen k real A \<Longrightarrow> A \<subseteq> B \<Longrightarrow> node_seen k real B"
  by (cases real) auto

lemma cooled_down_mono: "cooled_down pool A \<Longrightarrow> A \<subseteq> B \<Longrightarrow> cooled_down pool B"
  unfolding cooled_down_def by (rule lapsed_mono)

lemma candidate_ok_mono:
  assumes "candidate_ok L pod affs counts pools A c" and "A \<subseteq> B"
  shows "candidate_ok L pod affs counts pools B c"
proof -
  note seen = node_seen_mono [OF _ assms(2)]
  have "fits_machine L pod affs (wc_pool c) (wc_machine c) B"
    using assms seen unfolding candidate_ok_def fits_machine_def by blast
  moreover have "cooled_down (wc_pool c) B"
    using assms unfolding candidate_ok_def by (auto intro: cooled_down_mono)
  ultimately show ?thesis using assms unfolding candidate_ok_def members_listed_def by blast
qed

lemma wp_boundRequests:
  assumes "\<And>e. Q [ListPodsOnNode Cached k (Inl e)] (Inl (Wrapf ''list pods on node %q: %w'' [TQuoted k] e))"
    and "\<And>pods. Q [ListPodsOnNode Cached k (Inr pods)] (Inr (requests_of (env_lib E) pods))"
  shows "wp (boundRequests E k) Q"
  unfolding boundRequests_def client_defs using assms
  by (auto intro!: wp_rules simp: requests_of_def)

lemma wp_backingNode_seen:
  assumes "\<And>as e. list_all is_read as \<Longrightarrow> Q as (Inl e)"
    and "\<And>as real. list_all is_read as \<Longrightarrow> node_seen k real (set as) \<Longrightarrow> Q as (Inr real)"
  shows "wp (backingNode E k) Q"
  by (rule wp_backingNode) (use assms in auto)

interpretation scale_ups: rate_limit coolingUntil "\<lambda>p. cool_scaleUp (ps_cooldown (pool_spec p))"
  "\<lambda>p. pst_lastScaleUpTime (pool_status p)" stamped
proof unfold_locales
  show "wp (coolingUntil E p) (\<lambda>as r. list_all is_read as \<and> (\<exists>u. r = Inr u \<and> (is_zero_time u \<longrightarrow>
      lapsed (cool_scaleUp (ps_cooldown (pool_spec p))) (pst_lastScaleUpTime (pool_status p)) (set as))))"
    for E :: "'w env" and p
    unfolding coolingUntil_def client_defs
    by (auto intro!: wp_rules simp: lapsed_def is_zero_time_def split: option.splits)
qed (simp_all add: stamped_def)

lemma wp_coolingUntil:
  "wp (coolingUntil E pool) (\<lambda>as r. list_all is_read as \<and>
     (\<exists>t. r = Inr t \<and> (is_zero_time t \<longrightarrow> cooled_down pool (set as))))"
  using scale_ups.until_reads unfolding cooled_down_def .

text \<open>The counter of \<^verbatim>\<open>poolAtCap\<close> is at least the number of active members.\<close>

lemma wp_countsAgainstCap:
  "wp (countsAgainstCap E m) (\<lambda>as r. list_all is_read as \<and> (\<forall>b. r = Inr b \<longrightarrow> isActive m \<longrightarrow> b))"
  unfolding countsAgainstCap_def by (auto intro!: wp_rules)

lemma wrap32_small: "0 \<le> x \<Longrightarrow> x < 2 ^ 31 \<Longrightarrow> wrap32 x = x"
  by (rule fits_wrap) (simp_all add: fits_width_def)

lemma wp_count_active:
  assumes "length members < 2 ^ 31"
  shows "wp (fold_prog (\<lambda>active m. bind (countsAgainstCap E m) (\<lambda>counts.
      ret (if counts then wrap32 (active + 1) else active))) 0 members)
    (\<lambda>as r. list_all is_read as \<and> (\<forall>n. r = Inr n \<longrightarrow> int (length (filter isActive members)) \<le> n))"
proof (rule wp_fold_prog_prefix [where I = "\<lambda>ds bs n. list_all is_read bs \<and>
    int (length (filter isActive ds)) \<le> n \<and> n \<le> int (length ds)"], goal_cases)
  case (2 ds m rest bs n)
  then have step: "wrap32 (n + 1) = n + 1"
    using assms by (intro wrap32_small) auto
  show ?case
  proof (rule wp_bind, rule wp_mono [OF wp_countsAgainstCap], goal_cases)
    case (1 as r)
    with 2 step show ?case by (cases r) (auto intro!: wp_ret)
  qed
qed auto

definition plain_read :: "action \<Rightarrow> bool" where
  "plain_read a \<longleftrightarrow> is_read a \<and> \<not> is_volume_read a"

lemma emits_scan_parts:
  "emits plain_read (poolAtCap E pool ms)" "emits plain_read (coolingUntil E pool)"
  "emits plain_read (settling E m)" "emits plain_read (poolMembers E pool)" "emits plain_read (boundRequests E k)"
  "emits plain_read (backingNode E k)" "emits plain_read (poolMemberships E pools)"
  unfolding countsAgainstCap_def poolAtCap_def coolingUntil_def settling_def poolMembers_def boundRequests_def
    poolMemberships_def guard_defs client_defs
  by (auto intro!: emits_rules simp: plain_read_def split: option.splits)

lemma emits_podVolumeAffinities: "emits is_read (podVolumeAffinities E pod)"
  unfolding podVolumeAffinities_def volumeAffinity_def client_defs
  by (auto intro!: emits_rules split: option.splits)

lemma wp_poolAtCap:
  "wp (poolAtCap E pool members) (\<lambda>as r. r = Inr False \<longrightarrow> below_cap pool members)"
proof (cases "ps_maxNodes (pool_spec pool)")
  case None
  then show ?thesis by (simp add: poolAtCap_def wp_ret below_cap_def)
next
  case (Some k)
  show ?thesis
  proof (cases "length members < 2 ^ 31")
    case True
    then show ?thesis
      unfolding poolAtCap_def Some option.case
      by (intro wp_bind wp_mono [OF wp_count_active]) (auto intro!: wp_ret simp: below_cap_def Some split: sum.splits)
  next
    case False
    then show ?thesis by (auto intro!: wp_any simp: below_cap_def)
  qed
qed

text \<open>A turn of the inner loop adds at most the member at hand, and only past every guard.\<close>

definition adds_at_most :: "int gomap \<Rightarrow> nodepool \<Rightarrow> bool \<Rightarrow> time \<Rightarrow> scan \<Rightarrow> machine \<Rightarrow> scan \<Rightarrow> bool" where
  "adds_at_most counts pool maxed cooling sc m sc' \<longleftrightarrow>
     sc_candidates sc' = sc_candidates sc \<or>
     sc_candidates sc' = sc_candidates sc @ [\<lparr>wc_machine = m, wc_pool = pool\<rparr>] \<and>
     state_of m = Off \<and> \<not> wakeRequested m \<and>
     (case map_of counts (m_name m) of None \<Rightarrow> 0 | Some n \<Rightarrow> n) \<le> 1 \<and> \<not> maxed \<and> is_zero_time cooling"

lemma wp_scanMember:
  "wp (scanMember E pod affs counts pool maxed cooling sc m) (\<lambda>as r. \<forall>sc'. r = Inr sc' \<longrightarrow>
     adds_at_most counts pool maxed cooling sc m sc' \<and>
     (sc_candidates sc' \<noteq> sc_candidates sc \<longrightarrow> fits_machine (env_lib E) pod affs pool m (set as)))"
proof -
  let ?guards = "bind (if isWaking (env_lib E) m then ret True else settling E m) (\<lambda>inFlight.
       if inFlight then ret (sc\<lparr>sc_wakeInFlight := True\<rparr>)
       else if state_of m \<noteq> Off \<or> wakeRequested m then ret sc
       else if (case map_of counts (m_name m) of None \<Rightarrow> 0 | Some n \<Rightarrow> n) > 1 then ret sc
       else if maxed then ret (sc\<lparr>sc_maxedPool := pool_name pool\<rparr>)
       else if \<not> is_zero_time cooling then
         ret (if is_zero_time (sc_coolingUntil sc) \<or> cooling < sc_coolingUntil sc
              then sc\<lparr>sc_coolingUntil := cooling\<rparr> else sc)
       else ret (sc\<lparr>sc_candidates := sc_candidates sc @ [\<lparr>wc_machine = m, wc_pool = pool\<rparr>]\<rparr>))"
  have guards: "wp ?guards (\<lambda>as r. \<forall>sc'. r = Inr sc' \<longrightarrow> adds_at_most counts pool maxed cooling sc m sc')"
    by (rule wp_bind, rule wp_any) (auto split: sum.splits intro!: wp_if wp_ret simp: adds_at_most_def)
  have fits: "fits_machine (env_lib E) pod affs pool m A"
    if "node_seen (nodeName_of m) real A" and "ListPodsOnNode Cached (nodeName_of m) (Inr pods) \<in> A"
      and "Fits (fit_pod (env_lib E) pod (nodeForMachine (env_lib E) m pool real (requests_of (env_lib E) pods))
        [VolumeNodeAffinity (env_lib E) affs])" for A real pods
    using that by (auto simp: fits_machine_def)
  show ?thesis
    unfolding scanMember_def
  proof (rule wp_bind, rule wp_backingNode_seen, goal_cases)
    case (2 as real)
    show ?case
      unfolding sum.case
    proof (rule wp_bind, rule wp_boundRequests, goal_cases)
      case (2 pods)
      note answer = \<open>node_seen (nodeName_of m) real (set as)\<close>
      show ?case
        unfolding sum.case
      proof (rule wp_if, goal_cases)
        case 1
        show ?case by (simp add: wp_ret adds_at_most_def)
      next
        case 2
        show ?case
          by (rule wp_mono [OF guards]) (use 2 in \<open>auto intro!: fits [of real _ pods] node_seen_mono [OF answer]\<close>)
      qed
    qed simp
  qed simp
qed

text \<open>A whole pool: every candidate it adds is cleared for waking.\<close>

lemma candidate_added:
  assumes "adds_at_most counts pool maxed cooling sc m sc'" and "c \<in> set (sc_candidates sc')" and "c \<notin> set (sc_candidates sc)"
    and "sc_candidates sc' \<noteq> sc_candidates sc \<longrightarrow> fits_machine L pod affs pool m A"
    and "\<not> maxed \<longrightarrow> below_cap pool ms" and "is_zero_time cooling \<longrightarrow> cooled_down pool B"
    and "members_listed pool ms B" and "m \<in> set ms" and "pool \<in> set pools" and "A \<subseteq> C" and "B \<subseteq> C"
  shows "candidate_ok L pod affs counts pools C c"
proof -
  have c: "c = \<lparr>wc_machine = m, wc_pool = pool\<rparr>" and "sc_candidates sc' \<noteq> sc_candidates sc"
    using assms(1-3) by (auto simp: adds_at_most_def)
  then have "fits_machine L pod affs pool m C"
    using assms(4,10) node_seen_mono [of _ _ A C] unfolding fits_machine_def by blast
  moreover have "is_zero_time cooling" using assms(1-3) by (auto simp: adds_at_most_def)
  then have "cooled_down pool C" using assms(6,11) by (auto intro: cooled_down_mono)
  ultimately show ?thesis
    using assms(1-3,5,7-9,11) c unfolding adds_at_most_def candidate_ok_def members_listed_def by auto
qed

lemma wp_scanMembers:
  assumes cap: "\<not> maxed \<longrightarrow> below_cap pool ms" and cool: "is_zero_time cooling \<longrightarrow> cooled_down pool B"
    and listed: "members_listed pool ms B" and "pool \<in> set pools"
  shows "wp (fold_prog (scanMember E pod affs counts pool maxed cooling) sc ms) (\<lambda>as r. \<forall>sc'. r = Inr sc' \<longrightarrow>
    (\<forall>c\<in>set (sc_candidates sc'). c \<in> set (sc_candidates sc) \<or>
       candidate_ok (env_lib E) pod affs counts pools (B \<union> set as) c))"
proof (rule wp_fold_prog [where I = "\<lambda>bs sc'. \<forall>c\<in>set (sc_candidates sc'). c \<in> set (sc_candidates sc) \<or>
    candidate_ok (env_lib E) pod affs counts pools (B \<union> set bs) c"], goal_cases)
  case (2 bs acc m)
  show ?case
  proof (rule wp_mono [OF wp_scanMember], goal_cases)
    case (1 as r)
    show ?case
    proof (cases r)
      case (Inr sc')
      have "c \<in> set (sc_candidates sc) \<or> candidate_ok (env_lib E) pod affs counts pools (B \<union> set (bs @ as)) c"
        if "c \<in> set (sc_candidates sc')" for c
      proof (cases "c \<in> set (sc_candidates acc)")
        case True
        with 2(2) show ?thesis by (auto intro: candidate_ok_mono)
      next
        case False
        have "candidate_ok (env_lib E) pod affs counts pools (B \<union> set (bs @ as)) c"
          by (rule candidate_added [OF _ that False _ cap cool listed 2(1) assms(4)]) (use 1 Inr in auto)
        then show ?thesis ..
      qed
      with Inr show ?thesis by simp
    qed simp
  qed
qed auto

lemma wp_scanPool:
  assumes "pool \<in> set pools"
  shows "wp (scanPool E pod affs counts sc pool) (\<lambda>as r. \<forall>sc'. r = Inr sc' \<longrightarrow>
    (\<forall>c\<in>set (sc_candidates sc'). c \<in> set (sc_candidates sc) \<or>
       candidate_ok (env_lib E) pod affs counts pools (set as) c))"
proof (cases "LabelSelectorAsSelector (env_lib E) (ps_machineSelector (pool_spec pool))")
  case (Inl e)
  then show ?thesis by (simp add: scanPool_def wp_ret)
next
  case (Inr sel)
  show ?thesis
    unfolding scanPool_def Inr sum.case poolMembers_def list_machines_matching_def
  proof (rule wp_bind, rule wp_map_error, rule wp_call, simp_all, rule wp_bind, rule wp_mono [OF wp_poolAtCap], goal_cases)
    case (1 ms bs r)
    show ?case
    proof (cases r)
      case (Inr maxed)
      show ?thesis
        unfolding Inr sum.case
      proof (rule wp_bind, rule wp_mono [OF wp_coolingUntil], goal_cases)
        case (1 cs r')
        then obtain cooling where cooling: "r' = Inr cooling" "is_zero_time cooling \<longrightarrow> cooled_down pool (set cs)" by auto
        let ?B = "insert (ListMachinesMatching Cached (ps_machineSelector (pool_spec pool)) (Inr ms)) (set bs \<union> set cs)"
        have "members_listed pool ms ?B" by (simp add: members_listed_def)
        moreover have "is_zero_time cooling \<longrightarrow> cooled_down pool ?B"
          using cooling(2) by (auto intro: cooled_down_mono)
        ultimately have "wp (fold_prog (scanMember E pod affs counts pool maxed cooling) sc ms) (\<lambda>as r. \<forall>sc'. r = Inr sc' \<longrightarrow>
            (\<forall>c\<in>set (sc_candidates sc'). c \<in> set (sc_candidates sc) \<or>
               candidate_ok (env_lib E) pod affs counts pools (?B \<union> set as) c))"
          using \<open>r = Inr False \<longrightarrow> below_cap pool ms\<close> Inr assms by (intro wp_scanMembers) auto
        with cooling show ?case by (simp add: Un_assoc)
      qed
    qed simp
  qed
qed

text \<open>Without a wake in flight, the members that are waking do not fit the Pod.\<close>

lemma misfits_machine_mono: "misfits_machine L pod affs pool m A \<Longrightarrow> A \<subseteq> B \<Longrightarrow> misfits_machine L pod affs pool m B"
  unfolding misfits_machine_def using node_seen_mono by blast

lemma none_in_flight_mono: "none_in_flight L pod affs pool ms A \<Longrightarrow> A \<subseteq> B \<Longrightarrow> none_in_flight L pod affs pool ms B"
  unfolding none_in_flight_def using misfits_machine_mono by blast

lemma wp_scanMember_flight:
  "wp (scanMember E pod affs counts pool maxed cooling sc m) (\<lambda>as r. \<forall>sc'. r = Inr sc' \<longrightarrow> \<not> sc_wakeInFlight sc' \<longrightarrow>
     \<not> sc_wakeInFlight sc \<and> none_in_flight (env_lib E) pod affs pool [m] (set as))"
proof -
  let ?misfits = "misfits_machine (env_lib E) pod affs pool m"
  have misfits: "?misfits A"
    if "node_seen (nodeName_of m) real A" and "ListPodsOnNode Cached (nodeName_of m) (Inr pods) \<in> A"
      and "\<not> Fits (fit_pod (env_lib E) pod (nodeForMachine (env_lib E) m pool real (requests_of (env_lib E) pods))
        [VolumeNodeAffinity (env_lib E) affs])" for A real pods
    using that by (auto simp: misfits_machine_def)
  show ?thesis
    unfolding scanMember_def
  proof (rule wp_bind, rule wp_backingNode_seen, goal_cases)
    case (2 as real)
    show ?case
      unfolding sum.case
    proof (rule wp_bind, rule wp_boundRequests, goal_cases)
      case (2 pods)
      note answer = \<open>node_seen (nodeName_of m) real (set as)\<close>
      show ?case
        unfolding sum.case
      proof (rule wp_if, goal_cases)
        case 1
        then show ?case
          by (auto intro!: wp_ret misfits [of real _ pods] node_seen_mono [OF answer] simp: none_in_flight_def)
      next
        case 2
        show ?case
        proof (cases "isWaking (env_lib E) m")
          case True
          then show ?thesis by (simp add: bind_ret wp_ret)
        next
          case False
          then have calm: "none_in_flight (env_lib E) pod affs pool [m] A" for A by (simp add: none_in_flight_def)
          show ?thesis by (rule wp_bind_any) (simp_all add: calm wp_ret)
        qed
      qed
    qed simp
  qed simp
qed

lemma wp_scanPool_flight:
  "wp (scanPool E pod affs counts sc pool) (\<lambda>as r. \<forall>sc'. r = Inr sc' \<longrightarrow> \<not> sc_wakeInFlight sc' \<longrightarrow>
     \<not> sc_wakeInFlight sc \<and> (selectable (env_lib E) pool \<longrightarrow>
       (\<exists>ms. members_listed pool ms (set as) \<and> none_in_flight (env_lib E) pod affs pool ms (set as))))"
proof -
  have members: "wp (fold_prog (scanMember E pod affs counts pool maxed cooling) sc ms) (\<lambda>as r. \<forall>sc'. r = Inr sc' \<longrightarrow>
      \<not> sc_wakeInFlight sc' \<longrightarrow> \<not> sc_wakeInFlight sc \<and> none_in_flight (env_lib E) pod affs pool ms (set as))" for maxed cooling ms
  proof (rule wp_fold_prog_prefix [where I = "\<lambda>ds bs sc'. \<not> sc_wakeInFlight sc' \<longrightarrow>
      \<not> sc_wakeInFlight sc \<and> none_in_flight (env_lib E) pod affs pool ds (set bs)"], goal_cases)
    case (2 ds m rest bs acc)
    then show ?case
      by (intro wp_mono [OF wp_scanMember_flight])
        (auto simp: none_in_flight_def split: sum.splits intro: misfits_machine_mono)
  qed (auto simp: none_in_flight_def)
  show ?thesis
  proof (cases "LabelSelectorAsSelector (env_lib E) (ps_machineSelector (pool_spec pool))")
    case (Inl e)
    then show ?thesis by (simp add: scanPool_def wp_ret selectable_def)
  next
    case (Inr sel)
    show ?thesis
      unfolding scanPool_def Inr sum.case poolMembers_def list_machines_matching_def
      by (rule wp_bind, rule wp_map_error, rule wp_call, simp_all)
        (auto intro!: wp_bind_any wp_mono [OF members] simp: members_listed_def,
         (rule exI, rule conjI [OF disjI1 [OF refl]], erule none_in_flight_mono, auto)+)
  qed
qed

lemma wp_scanPools:
  "wp (fold_prog (scanPool E pod affs counts) emptyScan pools) (\<lambda>as r. \<forall>sc. r = Inr sc \<longrightarrow>
     (\<forall>c\<in>set (sc_candidates sc). candidate_ok (env_lib E) pod affs counts pools (set as) c))"
proof (rule wp_fold_prog [where I = "\<lambda>bs sc. \<forall>c\<in>set (sc_candidates sc).
    candidate_ok (env_lib E) pod affs counts pools (set bs) c"], goal_cases)
  case (2 bs acc pool)
  have "candidate_ok (env_lib E) pod affs counts pools (set (bs @ as)) c"
    if "candidate_ok (env_lib E) pod affs counts pools A c" "A \<subseteq> set (bs @ as)" for c as A
    using that by (rule candidate_ok_mono)
  with 2(2) show ?case
    by (intro wp_mono [OF wp_scanPool [OF 2(1)]]) (fastforce split: sum.splits)
qed (auto simp: emptyScan_def)

lemma countMembers_count:
  "(case map_of (countMembers ms counts) n of None \<Rightarrow> 0 | Some k \<Rightarrow> k) =
   (case map_of counts n of None \<Rightarrow> 0 | Some k \<Rightarrow> k) + int (length (filter (\<lambda>m. m_name m = n) ms))"
  by (induction ms counts rule: countMembers.induct) (auto simp: update_conv)

lemma wp_poolMemberships:
  "wp (poolMemberships E pools) (\<lambda>as r. \<forall>counts. r = Inr counts \<longrightarrow>
     (\<forall>pool\<in>set pools. selectable (env_lib E) pool \<longrightarrow> (\<exists>ms. members_listed pool ms (set as))) \<and>
     (\<forall>n. (case map_of counts n of None \<Rightarrow> 0 | Some k \<Rightarrow> k) = sum_list (map (named_in n) as)))"
  unfolding poolMemberships_def
proof (rule wp_fold_prog_prefix [where I = "\<lambda>ds bs counts.
     (\<forall>pool\<in>set ds. selectable (env_lib E) pool \<longrightarrow> (\<exists>ms. members_listed pool ms (set bs))) \<and>
     (\<forall>n. (case map_of counts n of None \<Rightarrow> 0 | Some k \<Rightarrow> k) = sum_list (map (named_in n) bs))"], goal_cases)
  case (2 ds pool rest bs counts)
  then show ?case
    unfolding poolMembers_def list_machines_matching_def
    by (cases "LabelSelectorAsSelector (env_lib E) (ps_machineSelector (pool_spec pool))")
      (auto intro!: wp_rules simp: selectable_def members_listed_def countMembers_count, blast+)
qed auto

lemma wp_volumeAffinity:
  "wp (volumeAffinity E pod affs vol) (\<lambda>as r. \<forall>affs'. r = Inr affs' \<longrightarrow> set affs \<subseteq> set affs' \<and> volumes_resolved affs' (set as))"
  unfolding volumeAffinity_def client_defs
  by (auto intro!: wp_rules simp: volumes_resolved_def split: option.splits)

lemma wp_podVolumeAffinities:
  "wp (podVolumeAffinities E pod) (\<lambda>as r. \<forall>affs. r = Inr affs \<longrightarrow> volumes_resolved affs (set as))"
  unfolding podVolumeAffinities_def
proof (rule wp_fold_prog [where I = "\<lambda>bs affs. volumes_resolved affs (set bs)"], goal_cases)
  case (2 bs affs vol)
  then show ?case
    by (intro wp_mono [OF wp_volumeAffinity]) (fastforce simp: volumes_resolved_def split: sum.splits)
qed (simp_all add: volumes_resolved_def)

lemma wp_decideScaleUp:
  "wp (decideScaleUp E pod sc) (\<lambda>as r. list_all (\<lambda>a. \<not> is_wake a) as \<or>
     (\<not> sc_wakeInFlight sc \<and> sc_candidates sc \<noteq> [] \<and> wake_of (smallestCandidate (env_lib E) (sc_candidates sc)) as))"
  unfolding decideScaleUp_def stampScaleUp_def requestWake_def client_defs Let_def
  by (auto intro!: wp_rules simp: wake_of_def stamped_def woken_def)

lemma wp_scanPools_flight:
  "wp (fold_prog (scanPool E pod affs counts) emptyScan pools) (\<lambda>as r. \<forall>sc. r = Inr sc \<longrightarrow> \<not> sc_wakeInFlight sc \<longrightarrow>
     (\<forall>pool\<in>set pools. selectable (env_lib E) pool \<longrightarrow>
       (\<exists>ms. members_listed pool ms (set as) \<and> none_in_flight (env_lib E) pod affs pool ms (set as))))"
proof (rule wp_fold_prog_prefix [where I = "\<lambda>ds bs sc. \<not> sc_wakeInFlight sc \<longrightarrow>
    (\<forall>pool\<in>set ds. selectable (env_lib E) pool \<longrightarrow>
       (\<exists>ms. members_listed pool ms (set bs) \<and> none_in_flight (env_lib E) pod affs pool ms (set bs)))"], goal_cases)
  case (2 ds pool rest bs acc)
  have later: "\<exists>ms. members_listed p ms (set (bs @ as)) \<and> none_in_flight (env_lib E) pod affs p ms (set (bs @ as))"
    if "members_listed p ms A" "none_in_flight (env_lib E) pod affs p ms A" "A \<subseteq> set (bs @ as)" for p ms A as
    using that none_in_flight_mono unfolding members_listed_def by blast
  show ?case
  proof (rule wp_mono [OF wp_scanPool_flight], goal_cases)
    case (1 as r)
    with 2(2) later [of _ _ "set bs" as] later [of _ _ "set as" as] show ?case
      by (cases r) (simp_all, blast)
  qed
qed auto

section \<open>The whole reconcile\<close>

lemma reads_no_wake: "list_all is_read as \<Longrightarrow> list_all (\<lambda>a. \<not> is_wake a) as"
proof -
  have "\<not> is_wake b" if "is_read b" for b using that by (cases b) auto
  then show "list_all is_read as \<Longrightarrow> list_all (\<lambda>a. \<not> is_wake a) as" by (simp add: list_all_iff)
qed

lemma emits_scanPool: "emits plain_read (scanPool E pod affs counts sc pool)"
  unfolding scanPool_def scanMember_def by (auto intro!: emits_rules emits_scan_parts)

lemma smallestCandidate_in: "cs \<noteq> [] \<Longrightarrow> smallestCandidate L cs \<in> set cs"
  using hd_in_set [of "sort_slice (candidateBefore L) cs"] by (simp add: smallestCandidate_def)

text \<open>The reads of the reconcile, from the member counts to the scan, and what they establish for the
  decision.\<close>

definition scanned :: "lib \<Rightarrow> pod \<Rightarrow> nodepool list \<Rightarrow> scan \<Rightarrow> action list \<Rightarrow> bool" where
  "scanned L pod pools sc as \<longleftrightarrow> (\<exists>affs counts ls vs rest. as = ls @ vs @ rest \<and> volumes_resolved affs (set as) \<and>
     (\<forall>c\<in>set (sc_candidates sc). candidate_ok L pod affs counts pools (set rest) c \<and> in_one_pool L pools (wc_machine c) ls) \<and>
     (\<not> sc_wakeInFlight sc \<longrightarrow> (\<forall>pool\<in>set pools. selectable L pool \<longrightarrow>
        (\<exists>ms. members_listed pool ms (set rest) \<and> none_in_flight L pod affs pool ms (set rest)))))"

lemma volumes_resolved_plain:
  "volumes_resolved affs (set vs) \<Longrightarrow> list_all plain_read ls \<Longrightarrow> list_all plain_read rest \<Longrightarrow>
   volumes_resolved affs (set (ls @ vs @ rest))"
  by (auto simp: volumes_resolved_def list_all_iff plain_read_def dest!: bspec)

lemma plain_reads: "list_all plain_read as \<Longrightarrow> list_all is_read as"
  by (auto simp: list_all_iff plain_read_def)

lemma scannedI:
  assumes "volumes_resolved affs (set (ls @ vs @ rest))"
    and "\<forall>c\<in>set (sc_candidates sc). candidate_ok L pod affs counts pools (set rest) c"
    and "\<And>c. candidate_ok L pod affs counts pools (set rest) c \<Longrightarrow> in_one_pool L pools (wc_machine c) ls"
    and "\<not> sc_wakeInFlight sc \<longrightarrow> (\<forall>pool\<in>set pools. selectable L pool \<longrightarrow>
        (\<exists>ms. members_listed pool ms (set rest) \<and> none_in_flight L pod affs pool ms (set rest)))"
  shows "scanned L pod pools sc (ls @ vs @ rest)"
  unfolding scanned_def
  by (rule exI [of _ affs], rule exI [of _ counts], rule exI [of _ ls], rule exI [of _ vs], rule exI [of _ rest])
    (use assms in blast)

lemma wp_scan:
  "wp (bind (poolMemberships E pools) (\<lambda>memberships.
       bind (podVolumeAffinities E pod) (\<lambda>affinities.
       fold_prog (scanPool E pod affinities memberships) emptyScan pools)))
     (\<lambda>as r. list_all is_read as \<and> (\<forall>sc. r = Inr sc \<longrightarrow> scanned (env_lib E) pod pools sc as))"
proof (rule wp_bind, rule wp_mono [OF wp_conj [OF emits_scan_parts(7) [unfolded emits_def] wp_poolMemberships]], goal_cases)
  case ls: (1 ls r)
  show ?case
  proof (cases r)
    case counts: (Inr counts)
    show ?thesis
      unfolding counts sum.case
    proof (rule wp_bind, rule wp_mono [OF wp_conj [OF emits_podVolumeAffinities [unfolded emits_def] wp_podVolumeAffinities]],
        goal_cases)
      case vs: (1 vs r')
      show ?case
      proof (cases r')
        case affs: (Inr affs)
        have reads: "wp (fold_prog (scanPool E pod affs counts) emptyScan pools) (\<lambda>as r. list_all plain_read as)"
          unfolding emits_def [symmetric] by (rule emits_fold_prog) (rule emits_scanPool)
        have one: "in_one_pool (env_lib E) pools (wc_machine c) ls"
          if "candidate_ok (env_lib E) pod affs counts pools A c" for c A
          using that ls counts by (auto simp: candidate_ok_def in_one_pool_def)
        show ?thesis
          unfolding affs sum.case
        proof (rule wp_mono [OF wp_conj [OF reads wp_conj [OF wp_scanPools wp_scanPools_flight]]], goal_cases)
          case rest: (1 rest r'')
          have "volumes_resolved affs (set (ls @ vs @ rest))"
            by (rule volumes_resolved_plain) (use ls vs rest affs in simp_all)
          then have "scanned (env_lib E) pod pools sc (ls @ vs @ rest)" if "r'' = Inr sc" for sc
            by (rule scannedI [OF _ _ one]) (use rest that in \<open>simp_all only: sum.inject\<close>, blast+)
          with ls vs rest plain_reads show ?case by simp
        qed
      qed (use vs ls plain_reads in simp)
    qed
  qed (use ls plain_reads in simp)
qed

lemma scaleUp_wakes:
  "wp (scaleUpReconcile E ns name) (\<lambda>as r. list_all (\<lambda>a. \<not> is_wake a) as \<or>
     (\<exists>pod pools sc ys zs.
        as = GetPod ns name (Inr pod) # ListPools (Inr pools) # ys @ zs \<and> isScaleUpCandidate pod \<and>
        list_all is_read ys \<and> scanned (env_lib E) pod pools sc ys \<and> \<not> sc_wakeInFlight sc \<and>
        sc_candidates sc \<noteq> [] \<and> wake_of (smallestCandidate (env_lib E) (sc_candidates sc)) zs))"
proof -
  have assoc: "bind (poolMemberships E pools) (\<lambda>ms. bind (podVolumeAffinities E pod) (\<lambda>affs.
      bind (fold_prog (scanPool E pod affs ms) emptyScan pools) (\<lambda>sc. decideScaleUp E pod sc))) =
    bind (bind (poolMemberships E pools) (\<lambda>ms. bind (podVolumeAffinities E pod) (\<lambda>affs.
      fold_prog (scanPool E pod affs ms) emptyScan pools))) (\<lambda>sc. decideScaleUp E pod sc)" for pod pools
    by (simp add: bind_assoc)
  have rest: "wp (bind (bind (poolMemberships E pools) (\<lambda>ms. bind (podVolumeAffinities E pod) (\<lambda>affs.
      fold_prog (scanPool E pod affs ms) emptyScan pools))) (\<lambda>sc. decideScaleUp E pod sc))
     (\<lambda>as r. list_all (\<lambda>a. \<not> is_wake a) as \<or> (\<exists>sc ys zs. as = ys @ zs \<and> list_all is_read ys \<and>
        scanned (env_lib E) pod pools sc ys \<and> \<not> sc_wakeInFlight sc \<and>
        sc_candidates sc \<noteq> [] \<and> wake_of (smallestCandidate (env_lib E) (sc_candidates sc)) zs))" for pod pools
  proof (rule wp_bind, rule wp_mono [OF wp_scan], goal_cases)
    case (1 ys r)
    show ?case
    proof (cases r)
      case (Inr sc)
      show ?thesis
        unfolding Inr sum.case
        by (rule wp_mono [OF wp_decideScaleUp]) (use 1 Inr reads_no_wake in auto)
    qed (use 1 reads_no_wake in simp)
  qed
  show ?thesis
    unfolding scaleUpReconcile_def assoc get_pod_def list_pools_def
    by (auto intro!: wp_attempt wp_map_error wp_call wp_ret wp_throw wp_if wp_bind [of "attempt _"] wp_bind [of "map_error _ (call _ _)"] wp_mono [OF rest])
qed

lemma scannedE:
  assumes "scanned L pod pools sc as" and "\<not> sc_wakeInFlight sc" and "set as \<subseteq> A"
  obtains affs counts ls rest where "as = ls @ rest" "volumes_resolved affs (set as)"
    "\<forall>c\<in>set (sc_candidates sc). candidate_ok L pod affs counts pools A c \<and> in_one_pool L pools (wc_machine c) ls"
    "\<forall>pool\<in>set pools. selectable L pool \<longrightarrow>
       (\<exists>ms. members_listed pool ms A \<and> none_in_flight L pod affs pool ms A)"
proof -
  obtain affs counts ls vs rest where as: "as = ls @ vs @ rest" and vols: "volumes_resolved affs (set as)"
    and ok: "\<forall>c\<in>set (sc_candidates sc). candidate_ok L pod affs counts pools (set rest) c \<and> in_one_pool L pools (wc_machine c) ls"
    and calm: "\<forall>pool\<in>set pools. selectable L pool \<longrightarrow>
       (\<exists>ms. members_listed pool ms (set rest) \<and> none_in_flight L pod affs pool ms (set rest))"
    using assms(1,2) unfolding scanned_def by blast
  have sub: "set rest \<subseteq> A" using as assms(3) by auto
  have "\<forall>pool\<in>set pools. selectable L pool \<longrightarrow> (\<exists>ms. members_listed pool ms A \<and> none_in_flight L pod affs pool ms A)"
    using calm sub none_in_flight_mono [OF _ sub] unfolding members_listed_def by blast
  with as vols candidate_ok_mono [OF _ sub] ok show thesis by (intro that [of ls "vs @ rest" affs counts]) auto
qed

text \<open>What a wake rests on, with the interactions of the whole reconcile.\<close>

lemma wake_evidence:
  assumes "PatchMachine m m' r \<in> set (actions (scaleUpReconcile E ns name) w)" (is "_ \<in> ?A")
  obtains pod pools affs counts cs ls rest zs where
    "actions (scaleUpReconcile E ns name) w = GetPod ns name (Inr pod) # ListPools (Inr pools) # ls @ rest @ zs"
    "isScaleUpCandidate pod" "list_all is_read (ls @ rest)" "wake_of (smallestCandidate (env_lib E) cs) zs"
    "m = wc_machine (smallestCandidate (env_lib E) cs)" "m' = woken m" "cs \<noteq> []"
    "volumes_resolved affs ?A" "in_one_pool (env_lib E) pools m ls"
    "\<forall>c\<in>set cs. candidate_ok (env_lib E) pod affs counts pools ?A c"
    "\<forall>pool\<in>set pools. selectable (env_lib E) pool \<longrightarrow>
       (\<exists>ms. members_listed pool ms ?A \<and> none_in_flight (env_lib E) pod affs pool ms ?A)"
proof -
  let ?L = "env_lib E"
  from wpD [OF scaleUp_wakes, of E ns name w] assms
  obtain pod pools sc ys zs where acts:
    "actions (scaleUpReconcile E ns name) w = GetPod ns name (Inr pod) # ListPools (Inr pools) # ys @ zs"
    and pod: "isScaleUpCandidate pod" and reads: "list_all is_read ys" and sc: "scanned ?L pod pools sc ys"
    and calm: "\<not> sc_wakeInFlight sc" and ne: "sc_candidates sc \<noteq> []" and wake: "wake_of (smallestCandidate ?L (sc_candidates sc)) zs"
    by (auto simp: list_all_iff)
  let ?c = "smallestCandidate ?L (sc_candidates sc)"
  have "set ys \<subseteq> ?A" using acts by auto
  from scannedE [OF sc calm this]
  obtain affs counts ls rest where ys: "ys = ls @ rest" "volumes_resolved affs (set ys)"
    "\<forall>c\<in>set (sc_candidates sc). candidate_ok ?L pod affs counts pools ?A c \<and> in_one_pool ?L pools (wc_machine c) ls"
    "\<forall>pool\<in>set pools. selectable ?L pool \<longrightarrow> (\<exists>ms. members_listed pool ms ?A \<and> none_in_flight ?L pod affs pool ms ?A)" .
  have "volumes_resolved affs ?A"
    using ys(2) wake acts by (auto simp: volumes_resolved_def wake_of_def list_all_iff dest!: bspec)
  moreover have "PatchMachine m m' r \<in> set zs" using assms acts reads by (auto simp: list_all_iff dest!: bspec)
  then have "m = wc_machine ?c \<and> m' = woken m" using wake by (fastforce simp: wake_of_def list_all_iff)
  ultimately show thesis
    using acts pod reads wake ne ys smallestCandidate_in [OF ne, of ?L] by (intro that [of pod pools ls rest zs "sc_candidates sc" affs counts]) auto
qed

section \<open>The choice\<close>

text \<open>Under the contract of \<^verbatim>\<open>resource.Quantity\<close> the comparison that the sort is given is a strict weak
  order: the lexicographic one.\<close>

lemma candidateBefore_iff:
  assumes "quantity_ok L"
  shows "candidateBefore L x y \<longleftrightarrow>
     (cpuMilli (wc_machine x), memBytes (wc_machine x), m_name (wc_machine x)) <
     (cpuMilli (wc_machine y), memBytes (wc_machine y), m_name (wc_machine y))"
  by (auto simp: candidateBefore_def Let_def quantity_okD [OF assms] sgn_if less_prod_def')

lemma candidates_ordered: "quantity_ok L \<Longrightarrow> weak_order (candidateBefore L)"
  by unfold_locales (auto simp: candidateBefore_iff)

section \<open>Properties\<close>

text \<open>C11. The scale-up reconcile wakes a Machine only for an unschedulable, unbound, pending Pod, only if the
  Machine is Off and not asked to wake already, and only if the Pod passes the fit simulation on the Node
  that the Machine will present, built from the API server's answers about its Node, the pods bound to it
  and the volumes of the Pod.\<close>

theorem wake_gate:
  assumes "PatchMachine m m' r \<in> set (actions (scaleUpReconcile E ns name) w)" (is "_ \<in> ?A")
  shows "m' = woken m \<and> state_of m = Off \<and> \<not> wakeRequested m \<and>
    (\<exists>pod pools pool affs. GetPod ns name (Inr pod) \<in> ?A \<and> isScaleUpCandidate pod \<and>
       ListPools (Inr pools) \<in> ?A \<and> pool \<in> set pools \<and>
       volumes_resolved affs ?A \<and> fits_machine (env_lib E) pod affs pool m ?A)"
proof -
  let ?L = "env_lib E"
  obtain pod pools affs counts cs ls rest zs where
    acts: "actions (scaleUpReconcile E ns name) w = GetPod ns name (Inr pod) # ListPools (Inr pools) # ls @ rest @ zs"
    and "isScaleUpCandidate pod" and "volumes_resolved affs ?A" and "m' = woken m"
    and m: "m = wc_machine (smallestCandidate ?L cs)" and "cs \<noteq> []"
    and ok: "\<forall>c\<in>set cs. candidate_ok ?L pod affs counts pools ?A c"
    using assms by (rule wake_evidence)
  moreover from ok smallestCandidate_in [OF \<open>cs \<noteq> []\<close>, of ?L]
  have "candidate_ok ?L pod affs counts pools ?A (smallestCandidate ?L cs)" by blast
  ultimately show ?thesis by (fastforce simp: candidate_ok_def)
qed

theorem wake_gate_witness:
  "\<exists>m r. PatchMachine m (woken m) r \<in> set (actions (scaleUpReconcile store_env ''default'' ''p'') pending_world) \<and>
     state_of m = Off \<and> \<not> wakeRequested m"
proof -
  let ?m = "sample_machine ''m'' ''n'' Off"
  have waking: "PatchMachine ?m (woken ?m) (Inr (woken ?m)) \<in> set (actions (scaleUpReconcile store_env ''default'' ''p'') pending_world)"
    by code_simp
  from wake_gate [OF waking] waking show ?thesis by blast
qed

text \<open>C12. A wake respects the guards of a pool that selects the Machine: fewer active members than
  \<^verbatim>\<open>maxNodes\<close> were listed, a running scale-up cooldown has ended, the pool's cooldown anchor was
  stamped with the clock before the trigger was set, and the listings that counted the memberships, one per
  selectable pool, name the Machine at most once.\<close>

theorem wake_within_guards:
  assumes "PatchMachine m m' r \<in> set (actions (scaleUpReconcile E ns name) w)" (is "_ \<in> set ?acts")
  shows "\<exists>pools pool members ls rest zs t p.
    ?acts = ls @ rest @ ReadClock t # PatchPoolStatus pool (stamped pool t) (Inr p) # PatchMachine m m' r # zs \<and>
    ListPools (Inr pools) \<in> set ls \<and> pool \<in> set pools \<and> in_one_pool (env_lib E) pools m ls \<and>
    members_listed pool members (set ?acts) \<and> m \<in> set members \<and> below_cap pool members \<and>
    cooled_down pool (set ?acts)"
proof -
  let ?L = "env_lib E"
  obtain pod pools affs counts cs ls rest zs where
    acts: "?acts = GetPod ns name (Inr pod) # ListPools (Inr pools) # ls @ rest @ zs"
    and reads: "list_all is_read (ls @ rest)" and wake: "wake_of (smallestCandidate ?L cs) zs"
    and m: "m = wc_machine (smallestCandidate ?L cs)" "m' = woken m" and "cs \<noteq> []" and one: "in_one_pool ?L pools m ls"
    and ok: "\<forall>c\<in>set cs. candidate_ok ?L pod affs counts pools (set ?acts) c"
    using assms by (rule wake_evidence)
  let ?c = "smallestCandidate ?L cs"
  have c: "candidate_ok ?L pod affs counts pools (set ?acts) ?c"
    using ok smallestCandidate_in [OF \<open>cs \<noteq> []\<close>, of ?L] by blast
  obtain t p r' us where zs: "zs = ReadClock t # PatchPoolStatus (wc_pool ?c) (stamped (wc_pool ?c) t) (Inr p) #
      PatchMachine m m' r' # us" and "list_all is_report us"
    using wake m by (auto simp: wake_of_def)
  have "r' = r" using assms acts reads zs \<open>list_all is_report us\<close> by (auto simp: list_all_iff dest!: bspec)
  let ?ls = "GetPod ns name (Inr pod) # ListPools (Inr pools) # ls"
  have "in_one_pool ?L pools m ?ls" using one by (auto simp: in_one_pool_def members_listed_def)
  moreover have "?acts = ?ls @ rest @ ReadClock t # PatchPoolStatus (wc_pool ?c) (stamped (wc_pool ?c) t) (Inr p) #
      PatchMachine m m' r # us"
    using acts zs \<open>r' = r\<close> by simp
  moreover have "ListPools (Inr pools) \<in> set ?ls" by simp
  ultimately show ?thesis using c m unfolding candidate_ok_def by blast
qed

theorem wake_within_guards_witness:
  "\<exists>m r pool members. PatchMachine m (woken m) r \<in> set (actions (scaleUpReconcile store_env ''default'' ''p'') pending_world) \<and>
     m \<in> set members \<and> below_cap pool members"
proof -
  let ?m = "sample_machine ''m'' ''n'' Off"
  have waking: "PatchMachine ?m (woken ?m) (Inr (woken ?m)) \<in> set (actions (scaleUpReconcile store_env ''default'' ''p'') pending_world)"
    by code_simp
  from wake_within_guards [OF waking] waking show ?thesis by blast
qed

text \<open>C21. No over-provisioning: one reconcile wakes at most one Machine, and it wakes one only if every member of
  every selectable pool that is already waking (Booting, or Off with an accepted or untried wake request)
  was found not to fit the Pod.\<close>

theorem one_wake_at_a_time:
  "length (filter is_wake (actions (scaleUpReconcile E ns name) w)) \<le> 1 \<and>
   (\<forall>m m' r. PatchMachine m m' r \<in> set (actions (scaleUpReconcile E ns name) w) \<longrightarrow>
     (\<exists>pod pools affs. GetPod ns name (Inr pod) \<in> set (actions (scaleUpReconcile E ns name) w) \<and>
        ListPools (Inr pools) \<in> set (actions (scaleUpReconcile E ns name) w) \<and>
        (\<forall>pool\<in>set pools. selectable (env_lib E) pool \<longrightarrow>
           (\<exists>ms. members_listed pool ms (set (actions (scaleUpReconcile E ns name) w)) \<and>
              none_in_flight (env_lib E) pod affs pool ms (set (actions (scaleUpReconcile E ns name) w))))))"
proof -
  let ?acts = "actions (scaleUpReconcile E ns name) w"
  have quiet: "filter is_wake as = []" if "list_all (\<lambda>a. \<not> is_wake a) as" for as
    using that by (simp add: list_all_iff filter_empty_conv)
  have reports: "list_all (\<lambda>a. \<not> is_wake a) as" if "list_all is_report as" for as
  proof -
    have "\<not> is_wake b" if "is_report b" for b using that by (cases b) auto
    with that show ?thesis by (simp add: list_all_iff)
  qed
  have "length (filter is_wake zs) = 1" if "wake_of c zs" for c zs
    using that quiet [OF reports] by (auto simp: wake_of_def)
  then have "length (filter is_wake ?acts) \<le> 1"
    using wpD [OF scaleUp_wakes, of E ns name w] quiet quiet [OF reads_no_wake] by auto
  moreover have "\<exists>pod pools affs. GetPod ns name (Inr pod) \<in> set ?acts \<and> ListPools (Inr pools) \<in> set ?acts \<and>
      (\<forall>pool\<in>set pools. selectable (env_lib E) pool \<longrightarrow>
        (\<exists>ms. members_listed pool ms (set ?acts) \<and> none_in_flight (env_lib E) pod affs pool ms (set ?acts)))"
    if "PatchMachine m m' r \<in> set ?acts" for m m' r
    using that by (rule wake_evidence) auto
  ultimately show ?thesis by blast
qed

theorem one_wake_at_a_time_witness:
  "length (filter is_wake (actions (scaleUpReconcile store_env ''default'' ''p'') pending_world)) = 1 \<and>
   (\<exists>pod pools affs. GetPod ''default'' ''p'' (Inr pod) \<in> set (actions (scaleUpReconcile store_env ''default'' ''p'') pending_world) \<and>
      (\<forall>pool\<in>set pools. selectable store_lib pool \<longrightarrow> (\<exists>ms.
         none_in_flight store_lib pod affs pool ms (set (actions (scaleUpReconcile store_env ''default'' ''p'') pending_world)))))"
proof -
  let ?m = "sample_machine ''m'' ''n'' Off"
  have waking: "PatchMachine ?m (woken ?m) (Inr (woken ?m)) \<in> set (actions (scaleUpReconcile store_env ''default'' ''p'') pending_world)"
    and one: "length (filter is_wake (actions (scaleUpReconcile store_env ''default'' ''p'') pending_world)) = 1"
    by code_simp+
  have lib: "env_lib store_env = store_lib" by (simp add: store_env_def)
  from one_wake_at_a_time [of store_env "''default''" "''p''" pending_world] waking one show ?thesis
    unfolding lib by blast
qed

text \<open>A Pod that needs a node is never dropped: the reconcile of an unschedulable Pod that is not being deleted
  returns an error (and is retried) or asks to run again, after at least a second.\<close>

theorem pending_pod_requeued:
  assumes "env_get_pod E ns name w = (Inr pod, w1)" and "isScaleUpCandidate pod" and "pod_deletionTimestamp pod = None"
    and "result (scaleUpReconcile E ns name) w = Inr q"
  shows "\<exists>d. q = RequeueAfter d \<and> second \<le> d"
proof -
  let ?Q = "\<lambda>as r. \<forall>q. r = Inr q \<longrightarrow> (\<exists>d. q = RequeueAfter d \<and> second \<le> d)"
  have decide: "wp (decideScaleUp E pod sc) ?Q" for sc
    unfolding decideScaleUp_def Let_def
    by (auto intro!: wp_if wp_bind_any wp_ret simp: scaleUpRequeue_def noFitRequeue_def minCooldownRequeue_def second_def)
  let ?rest = "bind (map_error (Wrapf ''list nodepools: %w'' []) (list_pools E)) (\<lambda>pools.
      bind (poolMemberships E pools) (\<lambda>memberships.
      bind (podVolumeAffinities E pod) (\<lambda>affinities.
      bind (fold_prog (scanPool E pod affinities memberships) emptyScan pools) (\<lambda>sc.
      decideScaleUp E pod sc))))"
  have "wp ?rest ?Q"
    by (rule wp_bind_any, simp)+ (rule decide)
  moreover have "result (scaleUpReconcile E ns name) w = result ?rest w1"
    using assms(1-3) unfolding scaleUpReconcile_def get_pod_def result_def
    by (simp add: bind_def [of "attempt _"] attempt_def call_def split: prod.splits)
  ultimately show ?thesis using assms(4) wpD [of ?rest ?Q w1] by simp
qed

theorem pending_pod_requeued_witness:
  "result (scaleUpReconcile store_env ''default'' ''p'') pending_world = Inr (RequeueAfter scaleUpRequeue) \<and>
   (\<exists>d. RequeueAfter scaleUpRequeue = RequeueAfter d \<and> second \<le> d)"
proof -
  have got: "env_get_pod store_env ''default'' ''p'' pending_world = (Inr pending_pod, pending_world)"
    and pod: "isScaleUpCandidate pending_pod" "pod_deletionTimestamp pending_pod = None"
    and res: "result (scaleUpReconcile store_env ''default'' ''p'') pending_world = Inr (RequeueAfter scaleUpRequeue)"
    by code_simp+
  from pending_pod_requeued [OF got pod res] res show ?thesis by simp
qed

text \<open>Best fit: for quantities that compare by value, the Machine that is woken has the least declared CPU of all
  candidates, among those the least memory, and among those the least name; so the choice does not depend on
  the order in which the cache lists pools and Machines.\<close>

theorem smallest_candidate_woken:
  assumes "quantity_ok L" and "c \<in> set cs"
  shows "smallestCandidate L cs \<in> set cs \<and>
    (cpuMilli (wc_machine (smallestCandidate L cs)), memBytes (wc_machine (smallestCandidate L cs)),
       m_name (wc_machine (smallestCandidate L cs)))
    \<le> (cpuMilli (wc_machine c), memBytes (wc_machine c), m_name (wc_machine c))"
proof
  show "smallestCandidate L cs \<in> set cs" using assms(2) by (intro smallestCandidate_in) auto
  have "\<not> candidateBefore L c (smallestCandidate L cs)"
    unfolding smallestCandidate_def
    by (rule weak_order.sort_slice_least [OF candidates_ordered [OF assms(1)] assms(2)])
  then show "(cpuMilli (wc_machine (smallestCandidate L cs)), memBytes (wc_machine (smallestCandidate L cs)),
       m_name (wc_machine (smallestCandidate L cs)))
    \<le> (cpuMilli (wc_machine c), memBytes (wc_machine c), m_name (wc_machine c))"
    unfolding candidateBefore_iff [OF assms(1)] by (rule leI)
qed

theorem smallest_candidate_woken_witness:
  "smallestCandidate store_lib [\<lparr>wc_machine = sample_machine ''b'' ''n'' Off, wc_pool = sample_pool ''a'' True\<rparr>,
      \<lparr>wc_machine = sample_machine ''a'' ''n'' Off, wc_pool = sample_pool ''a'' True\<rparr>] \<in>
    set [\<lparr>wc_machine = sample_machine ''b'' ''n'' Off, wc_pool = sample_pool ''a'' True\<rparr>,
      \<lparr>wc_machine = sample_machine ''a'' ''n'' Off, wc_pool = sample_pool ''a'' True\<rparr>]"
  using smallest_candidate_woken [OF store_quantity_ok, of "\<lparr>wc_machine = sample_machine ''b'' ''n'' Off, wc_pool = sample_pool ''a'' True\<rparr>"
    "[\<lparr>wc_machine = sample_machine ''b'' ''n'' Off, wc_pool = sample_pool ''a'' True\<rparr>,
      \<lparr>wc_machine = sample_machine ''a'' ''n'' Off, wc_pool = sample_pool ''a'' True\<rparr>]"]
  by simp

end
