(* ===== verification/Fit_Simulation.thy ===== *)
theory Fit_Simulation
  imports Scale_Up Machine_Nodes
begin

text \<open>
  The fit simulation against what it simulates: which room the synthetic Node offers, that a Pod that fits
  it fits next to the pods still bound to the Node, and that its labels and taints are those that the
  Machine reconciler puts on the Node when the Machine becomes Ready.
\<close>

section \<open>Definitions\<close>

text \<open>The Node after the Machine reconciler has applied the template of the Machine's only pool.\<close>

definition nodeAfterTemplate :: "machine \<Rightarrow> nodepool \<Rightarrow> node \<Rightarrow> node" where
  "nodeAfterTemplate m pool n =
     fst (applyTemplateTo (fst (dropReservedLabels (desiredLabels (Some pool) m))) (desiredTaints (Some pool)) n)"

definition lifecycle_taint :: "string \<times> string \<Rightarrow> bool" where
  "lifecycle_taint i \<longleftrightarrow> prefix ''node.kubernetes.io/'' (fst i)"

text \<open>What a Node offers of a resource: the declared amount, for a native resource at most what the Node
  reports; what is not declared is what the Node reports.\<close>

definition offered :: "resource_list \<Rightarrow> resource_list \<Rightarrow> string \<Rightarrow> quantity option" where
  "offered capacity reported name =
     (case (map_of capacity name, map_of reported name) of
        (None, r) \<Rightarrow> r
      | (Some d, None) \<Rightarrow> Some d
      | (Some d, Some r) \<Rightarrow> Some (if isExtendedResource name then d else min d r))"

section \<open>Samples\<close>

definition role_pool :: nodepool where
  "role_pool = (sample_pool ''a'' True)\<lparr>pool_spec := (pool_spec (sample_pool ''a'' True))\<lparr>ps_template :=
     \<lparr>tmpl_labels = [(''node-role'', []), (''disk'', ''ssd'')], tmpl_taints = [sample_taint]\<rparr>\<rparr>\<rparr>"

definition off_machine :: machine where
  "off_machine = sample_machine ''m'' ''n'' Off"

definition off_node :: node where
  "off_node = sample_node ''n'' CondFalse False"

section \<open>Room\<close>

lemma map_of_capByReported:
  assumes "quantity_ok L" and "distinct_keys reported"
  shows "map_of (capByReported L out reported) name = offered out reported name"
  using assms(2)
proof (induction reported arbitrary: out)
  case Nil
  then show ?case by (simp add: offered_def split: option.splits)
next
  case (Cons entry rest)
  obtain k r where entry: "entry = (k, r)" by (cases entry)
  have notin: "map_of rest k = None" and dist: "distinct_keys rest"
    using Cons.prems entry by (auto simp: distinct_keys_def map_of_eq_None_iff)
  show ?case
    using notin Cons.IH [OF dist]
    by (auto simp: entry offered_def update_conv quantity_okD [OF assms(1)] sgn_if min_def split: option.splits if_splits)
qed

lemma map_of_subtractBound:
  assumes "quantity_ok L" and "distinct_keys bound"
  shows "map_of (subtractBound L out bound) name =
    map_option (\<lambda>a. case map_of bound name of None \<Rightarrow> a | Some u \<Rightarrow> max 0 (a - u)) (map_of out name)"
  using assms(2)
proof (induction bound arbitrary: out)
  case Nil
  then show ?case by (simp add: option.map_ident)
next
  case (Cons entry rest)
  obtain k u where entry: "entry = (k, u)" by (cases entry)
  have notin: "map_of rest k = None" and dist: "distinct_keys rest"
    using Cons.prems entry by (auto simp: distinct_keys_def map_of_eq_None_iff)
  show ?case
    using notin Cons.IH [OF dist]
    by (auto simp: entry update_conv Let_def quantity_okD [OF assms(1)] sgn_if max_def split: option.splits if_splits)
qed

lemma map_of_syntheticAllocatable:
  assumes "quantity_ok L" and "distinct_keys (node_allocatable n)" and "distinct_keys bound"
  shows "map_of (syntheticAllocatable L capacity (Some n) bound) name =
    map_option (\<lambda>a. case map_of bound name of None \<Rightarrow> a | Some u \<Rightarrow> max 0 (a - u)) (offered capacity (node_allocatable n) name)"
  by (simp add: syntheticAllocatable_def map_of_subtractBound [OF assms(1,3)] map_of_capByReported [OF assms(1,2)])

section \<open>Labels and taints\<close>

lemma taint_lookup_persistent:
  "\<not> lifecycle_taint i \<Longrightarrow> taint_lookup (persistentTaints ts) i = taint_lookup ts i"
proof -
  assume i: "\<not> lifecycle_taint i"
  have "find (\<lambda>t. taint_id t = i) (persistentTaints ts) = find (\<lambda>t. taint_id t = i) ts"
    using i by (induction ts) (auto simp: persistentTaints_def lifecycle_taint_def taint_id_def)
  then show ?thesis by (simp add: taint_lookup_def)
qed

lemma node_labels_template: "node_labels (fst (applyTemplateTo ls ts n)) = fst (mergeLabels (node_labels n) ls)"
  by (simp add: applyTemplateTo_def split: prod.splits)

lemma node_taints_template: "node_taints (fst (applyTemplateTo ls ts n)) = fst (mergeTaints (node_taints n) ts)"
  by (simp add: applyTemplateTo_def split: prod.splits)

lemma distinct_keys_desired: "distinct_keys (desiredLabels pool m)"
  unfolding desiredLabels_def by (intro distinct_keys_overlay) (simp add: distinct_keys_def)

lemma map_of_desiredLabels:
  assumes "distinct_keys (tmpl_labels (ps_template (pool_spec pool)))" and "distinct_keys (spec_labels (m_spec m))"
  shows "map_of (desiredLabels (Some pool) m) =
    map_of (tmpl_labels (ps_template (pool_spec pool))) ++ map_of (spec_labels (m_spec m))"
  by (simp add: desiredLabels_def map_of_overlay assms)

lemma map_of_mergeLabels:
  "distinct_keys desired \<Longrightarrow>
   map_of (fst (mergeLabels labels desired)) k =
     (case map_of desired k of
        None \<Rightarrow> map_of labels k
      | Some v \<Rightarrow> if v = [] \<and> \<not> has_key labels k then None else Some v)"
proof (induction labels desired rule: mergeLabels.induct)
  case (2 labels k' v desired)
  then have notin: "map_of desired k' = None" and dist: "distinct_keys desired"
    by (auto simp: distinct_keys_def map_of_eq_None_iff)
  show ?case
    using "2.IH"(1) [OF _ dist] "2.IH"(2) [OF _ dist] notin
    by (auto simp: has_key_def sget_def update_conv split: option.splits if_splits)
qed simp

lemma map_of_simulated:
  assumes "distinct_keys (tmpl_labels (ps_template (pool_spec pool)))" and "distinct_keys (spec_labels (m_spec m))"
    and "distinct_keys (node_labels n)"
  shows "map_of (node_labels (nodeForMachine L m pool (Some n) bound)) k =
    (case map_of (desiredLabels (Some pool) m) k of
       Some v \<Rightarrow> Some v
     | None \<Rightarrow> (case map_of (node_labels n) k of Some v \<Rightarrow> Some v | None \<Rightarrow> if k = LabelHostname then Some (nodeName_of m) else None))"
  unfolding map_of_desiredLabels [OF assms(1,2)]
  by (cases "map_of (spec_labels (m_spec m)) k"; cases "map_of (tmpl_labels (ps_template (pool_spec pool))) k";
      cases "map_of (node_labels n) k")
    (simp_all add: nodeForMachine_def Let_def map_of_overlay assms map_add_def)

lemma map_of_applied:
  assumes "k \<noteq> LabelAlwaysOn"
  shows "map_of (node_labels (nodeAfterTemplate m pool n)) k =
    (case map_of (desiredLabels (Some pool) m) k of
       None \<Rightarrow> map_of (node_labels n) k
     | Some v \<Rightarrow> if v = [] \<and> \<not> has_key (node_labels n) k then None else Some v)"
  using assms
  by (simp add: nodeAfterTemplate_def node_labels_template dropReservedLabels_fst map_of_mergeLabels
      distinct_keys_delete distinct_keys_desired delete_conv)

section \<open>Properties\<close>

text \<open>C33. The fit check is sound for resources: for quantities that compare and subtract by value, a Pod that
  passes the fit check on the synthetic Node of a Machine requests, of every resource, no more than the Node
  offers (the declared amount, capped by what the Node reports for a native resource) less what the pods
  still bound to the Node request, whenever it requests any of it.\<close>

theorem fit_leaves_room:
  assumes "quantity_ok L" and "distinct_keys (node_allocatable n)" and "distinct_keys bound"
    and "Fits (fit_pod L pod (nodeForMachine L m pool (Some n) bound) extra)"
    and "(name, req) \<in> set (PodRequests L pod)" and "0 < req"
  shows "\<exists>room. offered (spec_capacity (m_spec m)) (node_allocatable n) name = Some room \<and>
    req + qget bound name \<le> room"
proof -
  let ?alloc = "syntheticAllocatable L (spec_capacity (m_spec m)) (Some n) bound"
  have "fitsRequests L pod (nodeForMachine L m pool (Some n) bound) = []"
    using assms(4) by (auto simp: fit_pod_Fits defaultPredicates_def)
  then have "req \<le> qget ?alloc name"
    using assms(1,5) by (auto simp: fitsRequests_def fitsResources_Nil nodeForMachine_def Let_def)
  then show ?thesis
    using assms(6) unfolding qget_def map_of_syntheticAllocatable [OF assms(1-3)]
    by (auto split: option.splits)
qed

theorem fit_leaves_room_witness:
  "\<exists>room. offered (spec_capacity (m_spec off_machine)) (node_allocatable off_node) ''cpu'' = Some room \<and>
     1 + qget [(''cpu'', 3)] ''cpu'' \<le> room"
proof -
  have "distinct_keys (node_allocatable off_node)" and "distinct_keys [(''cpu'', 3 :: int)]"
    and "Fits (fit_pod store_lib (sample_pod ''p'' []) (nodeForMachine store_lib off_machine (sample_pool ''a'' True) (Some off_node)
      [(''cpu'', 3)]) [])"
    and "(''cpu'', 1) \<in> set (PodRequests store_lib (sample_pod ''p'' []))" and "0 < (1 :: int)"
    by code_simp+
  from fit_leaves_room [OF store_quantity_ok this] show ?thesis .
qed

text \<open>C34. The simulation and the Node agree but for one case: when the label maps have distinct keys and the template names
  each pair of taint key and effect once, a Node that the Machine reconciler has given the pool's template carries a label,
  and with the same value, exactly if the simulated Node does, apart from the reserved always-on label, the hostname label
  of a Node that lacks one, and a label with an empty value that the Node did not carry before: the simulated Node has it
  and the real one does not get it. The taints are the same apart from the lifecycle taints that a boot clears.\<close>

theorem simulation_matches_template:
  assumes "distinct_keys (tmpl_labels (ps_template (pool_spec pool)))" and "distinct_keys (spec_labels (m_spec m))"
    and "distinct_keys (node_labels n)" and "distinct (map taint_id (tmpl_taints (ps_template (pool_spec pool))))"
  shows "(\<forall>k. k \<noteq> LabelAlwaysOn \<longrightarrow> (k = LabelHostname \<longrightarrow> has_key (node_labels n) k) \<longrightarrow>
       map_of (node_labels (nodeAfterTemplate m pool n)) k =
         (if map_of (node_labels (nodeForMachine L m pool (Some n) bound)) k = Some [] \<and> \<not> has_key (node_labels n) k then None
          else map_of (node_labels (nodeForMachine L m pool (Some n) bound)) k)) \<and>
    (\<forall>i. \<not> lifecycle_taint i \<longrightarrow>
       taint_lookup (node_taints (nodeForMachine L m pool (Some n) bound)) i =
       taint_lookup (node_taints (nodeAfterTemplate m pool n)) i)"
proof -
  have "map_of (node_labels (nodeAfterTemplate m pool n)) k =
      (if map_of (node_labels (nodeForMachine L m pool (Some n) bound)) k = Some [] \<and> \<not> has_key (node_labels n) k then None
       else map_of (node_labels (nodeForMachine L m pool (Some n) bound)) k)"
    if "k \<noteq> LabelAlwaysOn" and "k = LabelHostname \<longrightarrow> has_key (node_labels n) k" for k
    using that(2) unfolding map_of_simulated [OF assms(1-3)] map_of_applied [OF that(1)]
    by (auto simp: has_key_def split: option.splits)
  moreover have "taint_lookup (node_taints (nodeForMachine L m pool (Some n) bound)) i =
      taint_lookup (node_taints (nodeAfterTemplate m pool n)) i" if "\<not> lifecycle_taint i" for i
    using taint_lookup_persistent [OF that]
    by (simp add: nodeForMachine_def Let_def nodeAfterTemplate_def node_taints_template desiredTaints_def
        taint_lookup_mergeTaints [OF assms(4)] split: option.split)
  ultimately show ?thesis by blast
qed

text \<open>A template with one label that has a value and one that has none, on a Node that has neither.\<close>

theorem simulation_matches_template_witness:
  "map_of (node_labels (nodeForMachine store_lib off_machine role_pool (Some off_node) [])) ''node-role'' = Some [] \<and>
   map_of (node_labels (nodeAfterTemplate off_machine role_pool off_node)) ''node-role'' = None \<and>
   map_of (node_labels (nodeAfterTemplate off_machine role_pool off_node)) ''disk'' = Some ''ssd'' \<and>
   taint_lookup (node_taints (nodeForMachine store_lib off_machine role_pool (Some off_node) [])) (''gpu'', TaintEffectNoSchedule) =
   taint_lookup (node_taints (nodeAfterTemplate off_machine role_pool off_node)) (''gpu'', TaintEffectNoSchedule)"
proof -
  have "distinct_keys (tmpl_labels (ps_template (pool_spec role_pool)))" and "distinct_keys (spec_labels (m_spec off_machine))"
    and "distinct_keys (node_labels off_node)" and "distinct (map taint_id (tmpl_taints (ps_template (pool_spec role_pool))))"
    by code_simp+
  note agree = simulation_matches_template [OF this, of store_lib "[]"]
  have "\<not> lifecycle_taint (''gpu'', TaintEffectNoSchedule)" by code_simp
  moreover have "''node-role'' \<noteq> LabelAlwaysOn" "''node-role'' \<noteq> LabelHostname" "''disk'' \<noteq> LabelAlwaysOn" "''disk'' \<noteq> LabelHostname"
    "\<not> has_key (node_labels off_node) ''node-role''"
    "map_of (node_labels (nodeForMachine store_lib off_machine role_pool (Some off_node) [])) ''node-role'' = Some []"
    "map_of (node_labels (nodeForMachine store_lib off_machine role_pool (Some off_node) [])) ''disk'' = Some ''ssd''"
    by code_simp+
  ultimately show ?thesis
    using conjunct1 [OF agree, rule_format, of "''node-role''"] conjunct1 [OF agree, rule_format, of "''disk''"] agree by auto
qed

text \<open>Where they differ: a template label with an empty value (such as a node-role label) that a Node does not
  carry is part of the simulated Node, and applying the template does not put it on the real one.\<close>

theorem empty_label_not_applied:
  assumes "distinct_keys (tmpl_labels (ps_template (pool_spec pool)))"
    and "map_of (tmpl_labels (ps_template (pool_spec pool))) k = Some []"
    and "spec_labels (m_spec m) = []" and "\<not> has_key (node_labels n) k"
  shows "has_key (node_labels (nodeForMachine L m pool (Some n) bound)) k \<and>
    \<not> has_key (node_labels (nodeAfterTemplate m pool n)) k"
proof -
  have "has_key (tmpl_labels (ps_template (pool_spec pool))) k" unfolding has_key_def assms(2) by simp
  then have "has_key (node_labels (nodeForMachine L m pool (Some n) bound)) k"
    unfolding nodeForMachine_def Let_def by (simp add: has_key_overlay)
  moreover have "\<not> has_key (fst (mergeLabels labels desired)) k"
    if "\<not> has_key labels k" and "\<forall>v. (k, v) \<in> set desired \<longrightarrow> v = []" for labels desired
    using that
  proof (induction labels desired rule: mergeLabels.induct)
    case (2 labels k' v desired)
    then show ?case by (cases "k' = k") (auto simp: sget_no_key)
  qed simp
  moreover have "\<forall>v. (k, v) \<in> set (AList.delete LabelAlwaysOn (desiredLabels (Some pool) m)) \<longrightarrow> v = []"
  proof (intro allI impI)
    fix v assume "(k, v) \<in> set (AList.delete LabelAlwaysOn (desiredLabels (Some pool) m))"
    then have "(k, v) \<in> set (desiredLabels (Some pool) m)" by (simp add: AList.delete_eq)
    then have "map_of (desiredLabels (Some pool) m) k = Some v"
      using distinct_keys_desired [of "Some pool" m] by (simp add: distinct_keys_def)
    then show "v = []"
      using assms(2,3) map_of_desiredLabels [OF assms(1), of m] by (simp add: distinct_keys_def)
  qed
  ultimately show ?thesis
    using assms(4) by (simp add: nodeAfterTemplate_def node_labels_template dropReservedLabels_fst)
qed

theorem empty_label_not_applied_witness:
  "has_key (node_labels (nodeForMachine store_lib off_machine role_pool (Some off_node) [])) ''node-role'' \<and>
   \<not> has_key (node_labels (nodeAfterTemplate off_machine role_pool off_node)) ''node-role''"
proof -
  have "distinct_keys (tmpl_labels (ps_template (pool_spec role_pool)))"
    and "map_of (tmpl_labels (ps_template (pool_spec role_pool))) ''node-role'' = Some []"
    and "spec_labels (m_spec off_machine) = []" and "\<not> has_key (node_labels off_node) ''node-role''"
    by code_simp+
  from empty_label_not_applied [OF this] show ?thesis .
qed

end
