(* ===== verification/Process_Memory.thy ===== *)
theory Process_Memory
  imports Effects
begin

text \<open>
  The fields of a reconciler struct that survive from one reconcile to the next, such as the hold messages
  of the scale-down reconciler or the episode of the shutdown agent. A program with such a memory runs on
  the pair of the memory and the outside world; \<open>outside p\<close> runs a program that does not touch the memory.
  The memory is kept when a call fails, as in Go. The weakest precondition \<open>wpm p m Q\<close> starts with the memory
  \<open>m\<close> and lets \<open>Q\<close> speak of the memory that is left.
\<close>

section \<open>Programs with a memory\<close>

type_synonym ('m, 'w, 'l, 'e, 'a) mprog = "('m \<times> 'w, 'l, 'e, 'a) prog"

definition outside :: "('w, 'l, 'e, 'a) prog \<Rightarrow> ('m, 'w, 'l, 'e, 'a) mprog" where
  "outside p = (\<lambda>(m, w). case p w of (r, as, w') \<Rightarrow> (r, as, m, w'))"

definition recall :: "('m, 'w, 'l, 'e, 'm) mprog" where
  "recall = (\<lambda>(m, w). (Inr m, [], m, w))"

definition remember :: "('m \<Rightarrow> 'm) \<Rightarrow> ('m, 'w, 'l, 'e, unit) mprog" where
  "remember f = (\<lambda>(m, w). (Inr (), [], f m, w))"

definition wpm :: "('m, 'w, 'l, 'e, 'a) mprog \<Rightarrow> 'm \<Rightarrow> ('l list \<Rightarrow> 'e + 'a \<Rightarrow> 'm \<Rightarrow> bool) \<Rightarrow> bool" where
  "wpm p m Q \<longleftrightarrow> (\<forall>w. case p (m, w) of (r, as, m', w') \<Rightarrow> Q as r m')"

definition memory :: "('m, 'w, 'l, 'e, 'a) mprog \<Rightarrow> 'm \<Rightarrow> 'w \<Rightarrow> 'm" where
  "memory p m w = fst (final p (m, w))"

section \<open>Rules\<close>

named_theorems wpm_rules \<open>introduction rules for weakest preconditions of programs with a memory\<close>

declare outside_def [prog_defs] recall_def [prog_defs] remember_def [prog_defs]

lemma wpm_iff: "wpm p m Q \<longleftrightarrow> (\<forall>w. Q (actions p (m, w)) (result p (m, w)) (memory p m w))"
  by (simp add: wpm_def actions_def result_def memory_def final_def case_prod_unfold)

lemma wpmD: "wpm p m Q \<Longrightarrow> Q (actions p (m, w)) (result p (m, w)) (memory p m w)"
  by (simp add: wpm_iff)

lemma wpm_mono: "wpm p m Q \<Longrightarrow> (\<And>as r m'. Q as r m' \<Longrightarrow> Q' as r m') \<Longrightarrow> wpm p m Q'"
  by (simp add: wpm_iff)

lemma wpm_any: "(\<And>as r m'. Q as r m') \<Longrightarrow> wpm p m Q"
  by (simp add: wpm_iff)

lemma wpm_run: "wpm p m Q \<Longrightarrow> p (m, w) = (r, as, m', w') \<Longrightarrow> Q as r m'"
  by (auto simp: wpm_def dest: spec [of _ w])

lemma wp_wpm: "(\<And>m. wpm p m (\<lambda>as r _. Q as r)) \<Longrightarrow> wp p Q"
  by (auto simp: wp_iff wpm_iff)

lemma wpm_ret [wpm_rules]: "Q [] (Inr v) m \<Longrightarrow> wpm (ret v) m Q"
  by (simp add: wpm_def ret_def)

lemma wpm_throw [wpm_rules]: "Q [] (Inl e) m \<Longrightarrow> wpm (throw e) m Q"
  by (simp add: wpm_def throw_def)

lemma wpm_outside [wpm_rules]: "wp p (\<lambda>as r. Q as r m) \<Longrightarrow> wpm (outside p) m Q"
  by (auto simp: wpm_def wp_def outside_def split: prod.splits)

lemma wpm_recall [wpm_rules]: "Q [] (Inr m) m \<Longrightarrow> wpm recall m Q"
  by (simp add: wpm_def recall_def)

lemma wpm_remember [wpm_rules]: "Q [] (Inr ()) (f m) \<Longrightarrow> wpm (remember f) m Q"
  by (simp add: wpm_def remember_def)

lemma wpm_attempt [wpm_rules]: "wpm p m (\<lambda>as r. Q as (Inr r)) \<Longrightarrow> wpm (attempt p) m Q"
  by (simp add: wpm_def attempt_def case_prod_unfold)

lemma wpm_bind [wpm_rules]:
  assumes "wpm p m (\<lambda>as r m'. case r of Inl e \<Rightarrow> Q as (Inl e) m'
     | Inr v \<Rightarrow> wpm (f v) m' (\<lambda>bs r' m''. Q (as @ bs) r' m''))"
  shows "wpm (bind p f) m Q"
  unfolding wpm_def
proof
  fix w
  obtain r as m' w' where p: "p (m, w) = (r, as, m', w')" by (cases "p (m, w)") auto
  note step = wpm_run [OF assms p]
  show "case bind p f (m, w) of (r, as, m', w') \<Rightarrow> Q as r m'"
  proof (cases r)
    case (Inl e)
    with p step show ?thesis by (simp add: bind_def)
  next
    case (Inr v)
    obtain r' bs m'' w'' where f: "f v (m', w') = (r', bs, m'', w'')" by (cases "f v (m', w')") auto
    with step Inr have "Q (as @ bs) r' m''" by (auto dest: wpm_run)
    with p f Inr show ?thesis by (simp add: bind_def)
  qed
qed

lemma wpm_if [wpm_rules]: "(b \<Longrightarrow> wpm p m Q) \<Longrightarrow> (\<not> b \<Longrightarrow> wpm q m Q) \<Longrightarrow> wpm (if b then p else q) m Q"
  by simp

lemma wpm_case_option [wpm_rules]:
  "(x = None \<Longrightarrow> wpm p m Q) \<Longrightarrow> (\<And>v. x = Some v \<Longrightarrow> wpm (q v) m Q) \<Longrightarrow>
   wpm (case x of None \<Rightarrow> p | Some v \<Rightarrow> q v) m Q"
  by (cases x) simp_all

lemma wpm_case_sum [wpm_rules]:
  "(\<And>e. x = Inl e \<Longrightarrow> wpm (p e) m Q) \<Longrightarrow> (\<And>v. x = Inr v \<Longrightarrow> wpm (q v) m Q) \<Longrightarrow>
   wpm (case x of Inl e \<Rightarrow> p e | Inr v \<Rightarrow> q v) m Q"
  by (cases x) simp_all

lemma wpm_case_prod [wpm_rules]:
  "(\<And>a b. x = (a, b) \<Longrightarrow> wpm (p a b) m Q) \<Longrightarrow> wpm (case x of (a, b) \<Rightarrow> p a b) m Q"
  by (cases x) simp

lemma wpm_let [wpm_rules]: "(\<And>y. y = x \<Longrightarrow> wpm (p y) m Q) \<Longrightarrow> wpm (let y = x in p y) m Q"
  by simp

text \<open>Only the part of the memory that a program touches changes: an invariant \<open>J\<close> of the memory.\<close>

lemma emits_wpm: "emits A p \<Longrightarrow> (\<And>as r m'. list_all A as \<Longrightarrow> Q as r m') \<Longrightarrow> wpm p m Q"
  by (auto simp: wpm_iff dest: emitsD)

lemma emits_outside [emits_rules]: "emits A p \<Longrightarrow> emits A (outside p)"
  unfolding emits_def by (rule wp_wpm, rule wpm_outside)

lemma emits_recall [emits_rules]: "emits A recall"
  unfolding emits_def by (rule wp_wpm, rule wpm_recall) simp

lemma emits_remember [emits_rules]: "emits A (remember f)"
  unfolding emits_def by (rule wp_wpm, rule wpm_remember) simp


section \<open>Runs one after the other\<close>

text \<open>Reconciles of one process in sequence, each request with a world of its own: what happens outside between two
  runs is not restricted, the memory is handed on. Each entry is the request, the interactions and the memory left.\<close>

fun runs :: "('k \<Rightarrow> ('m, 'w, 'l, 'e, 'a) mprog) \<Rightarrow> ('k \<times> 'w) list \<Rightarrow> 'm \<Rightarrow> ('k \<times> 'l list \<times> 'm) list" where
  "runs prog [] m = []"
| "runs prog ((k, w) # rest) m =
     (k, actions (prog k) (m, w), memory (prog k) m w) # runs prog rest (memory (prog k) m w)"

lemma runs_suffix: "runs prog reqs m = pre @ rest \<Longrightarrow> \<exists>reqs' m'. rest = runs prog reqs' m'"
proof (induction pre arbitrary: reqs m)
  case (Cons e pre)
  then obtain k w reqs' where "reqs = (k, w) # reqs'" by (cases reqs) auto
  with Cons show ?case by auto
qed auto

text \<open>A memory that keeps an action from being repeated: the slot holds what was last done, and doing \<open>v\<close> needs a slot
  that does not hold \<open>v\<close> and puts it there. The predicate \<open>ok\<close> is what a run's answers must satisfy.\<close>

locale latch =
  fixes prog :: "'k \<Rightarrow> ('m, 'w, 'l, 'e, 'a) mprog"
    and slot :: "'m \<Rightarrow> 'v option"
    and fires :: "'v \<Rightarrow> 'l list \<Rightarrow> bool"
    and ok :: "'k \<Rightarrow> 'l list \<Rightarrow> bool"
  assumes latched: "ok k (actions (prog k) (m, w)) \<Longrightarrow> fires v (actions (prog k) (m, w)) \<Longrightarrow>
      slot m \<noteq> Some v \<and> slot (memory (prog k) m w) = Some v"
begin

lemma holds_back:
  assumes "runs prog reqs m = mid @ (k, as, m') # post" and "slot m = Some v"
    and "\<forall>(k, as, m')\<in>set mid. slot m' = Some v" and "ok k as"
  shows "\<not> fires v as"
  using assms
proof (induction mid arbitrary: reqs m)
  case Nil
  then obtain w rest where "reqs = (k, w) # rest" by (cases reqs) auto
  with Nil show ?case using latched [of k m w v] by auto
next
  case (Cons e mid)
  then obtain w rest where "reqs = (fst e, w) # rest" by (cases reqs) auto
  with Cons show ?case by auto
qed

lemma not_repeated:
  assumes "runs prog reqs m = pre @ (k1, as1, m1) # mid @ (k2, as2, m2) # post"
    and "ok k1 as1" and "ok k2 as2" and "fires v as1" and "fires v as2"
  shows "\<exists>(k, as, m')\<in>set mid. slot m' \<noteq> Some v"
proof (rule ccontr)
  assume none: "\<not> ?thesis"
  obtain reqs0 m0 where "(k1, as1, m1) # mid @ (k2, as2, m2) # post = runs prog reqs0 m0"
    using runs_suffix [OF assms(1)] by blast
  then obtain w rest where as1: "as1 = actions (prog k1) (m0, w)" and m1: "m1 = memory (prog k1) m0 w"
    and rest: "runs prog rest m1 = mid @ (k2, as2, m2) # post"
    by (cases reqs0) auto
  have "slot m1 = Some v" using latched [of k1 m0 w v] assms(2,4) unfolding as1 m1 by simp
  with holds_back [OF rest] none assms(3,5) show False by fastforce
qed

end

text \<open>A slot that belongs to one request: the runs of other requests leave it alone, so the run that released it is one
  of its own.\<close>

locale keyed_latch = latch prog slot fires ok
  for prog :: "'k \<Rightarrow> ('m, 'w, 'l, 'e, 'a) mprog" and slot :: "'m \<Rightarrow> 'v option" and fires ok +
  fixes own :: 'k
  assumes frame: "ok k (actions (prog k) (m, w)) \<Longrightarrow> k \<noteq> own \<Longrightarrow> slot (memory (prog k) m w) = slot m"
begin

lemma own_run_releases:
  assumes "runs prog reqs m = mid @ rest" and "slot m = Some v"
    and "\<forall>(k, as, m')\<in>set mid. ok k as" and "(k, as, m') \<in> set mid" and "slot m' \<noteq> Some v"
  shows "\<exists>(k, as, m')\<in>set mid. k = own \<and> slot m' \<noteq> Some v"
  using assms
proof (induction mid arbitrary: reqs m)
  case (Cons e mid)
  then obtain w reqs' where e: "e = (fst e, actions (prog (fst e)) (m, w), memory (prog (fst e)) m w)"
    and rest: "runs prog reqs' (memory (prog (fst e)) m w) = mid @ rest"
    by (cases reqs) auto
  show ?case
  proof (cases "slot (memory (prog (fst e)) m w) = Some v")
    case True
    with Cons.IH [OF rest True] Cons.prems e show ?thesis by auto
  next
    case False
    with frame [of "fst e" m w] Cons.prems(2,3) e have "fst e = own" by (metis case_prodD list.set_intros(1))
    with False e show ?thesis by (metis (mono_tags, lifting) case_prodI list.set_intros(1))
  qed
qed simp

lemma released_by_own:
  assumes "runs prog reqs m = pre @ (k1, as1, m1) # mid @ (k2, as2, m2) # post"
    and ok: "\<forall>(k, as, m')\<in>set (runs prog reqs m). ok k as" and "fires v as1" and "fires v as2"
  shows "\<exists>(k, as, m')\<in>set mid. k = own \<and> slot m' \<noteq> Some v"
proof -
  have oks: "ok k1 as1" "ok k2 as2" "\<forall>(k, as, m')\<in>set mid. ok k as" using ok unfolding assms(1) by auto
  obtain k as m' where gone: "(k, as, m') \<in> set mid" "slot m' \<noteq> Some v"
    using not_repeated [OF assms(1) oks(1,2) assms(3,4)] by blast
  obtain reqs0 m0 where "(k1, as1, m1) # mid @ (k2, as2, m2) # post = runs prog reqs0 m0"
    using runs_suffix [OF assms(1)] by blast
  then obtain w rest where "as1 = actions (prog k1) (m0, w)" and "m1 = memory (prog k1) m0 w"
    and rest: "runs prog rest m1 = mid @ (k2, as2, m2) # post"
    by (cases reqs0) auto
  with latched [of k1 m0 w v] oks(1) assms(3) have "slot m1 = Some v" by simp
  from own_run_releases [OF rest this oks(3) gone] show ?thesis .
qed

end

end
