(* ===== verification/Scale_Down.thy ===== *)
theory Scale_Down
  imports Machine_Controller Process_Memory
begin

text \<open>
  \<^verbatim>\<open>internal/controller/scaledown_controller.go\<close>: power off idle nodes. A Ready Machine whose pool opted
  in and whose Node has carried nothing for \<^verbatim>\<open>consolidateAfter\<close> gets the drain-now trigger, if the
  guards of its pool, evaluated on state read past the cache, let it. The struct fields \<^verbatim>\<open>holds\<close> and
  \<^verbatim>\<open>heldThisPass\<close>, which keep a persisting hold from being announced again, are the memory of the
  reconciler.
\<close>

section \<open>Constants\<close>

definition minConsolidateRequeue :: duration where
  "minConsolidateRequeue = second"

definition scaleDownBlockedRequeue :: duration where
  "scaleDownBlockedRequeue = 30 * second"

definition reasonScaleDown :: string where
  "reasonScaleDown = ''ScaleDown''"

definition reasonScaleDownBlocked :: string where
  "reasonScaleDownBlocked = ''ScaleDownBlocked''"

section \<open>Memory\<close>

text \<open>The rendered hold messages are nonempty, and two of them are equal only if format and arguments
  are, so the comparison of strings is one of the structured messages.\<close>

record scaledown_memory =
  sd_holds :: "message gomap"
  sd_heldThisPass :: bool

type_synonym ('w, 'a) scaledown = "(scaledown_memory, 'w, action, go_error, 'a) mprog"

definition announceHold :: "machine \<Rightarrow> event_type \<Rightarrow> string \<Rightarrow> message \<Rightarrow> ('w, unit) scaledown" where
  "announceHold m eventType reason message =
     bind (remember (\<lambda>s. s\<lparr>sd_heldThisPass := True\<rparr>)) (\<lambda>_.
     bind recall (\<lambda>s.
     if map_of (sd_holds s) (m_name m) = Some message then ret ()
     else bind (remember (\<lambda>s. s\<lparr>sd_holds := AList.update (m_name m) message (sd_holds s)\<rparr>)) (\<lambda>_.
       outside (event (MachineObj (m_name m)) eventType reason message))))"

section \<open>The Node and the empty timer\<close>

definition nodeEmpty :: "'w env \<Rightarrow> string \<Rightarrow> ('w, bool) go" where
  "nodeEmpty E nodeName = bind (podsKeepingNodeOn E nodeName) (\<lambda>pods. ret (length pods = 0))"

definition disruptionRefused :: "node \<Rightarrow> bool" where
  "disruptionRefused node \<longleftrightarrow> sget (node_annotations node) AnnotationDoNotDisrupt = AnnotationDoNotDisruptValue"

definition nodeDoNotDisrupt :: "'w env \<Rightarrow> string \<Rightarrow> ('w, bool) go" where
  "nodeDoNotDisrupt E nodeName =
     (if nodeName = [] then ret False
      else bind (attempt (get_node E nodeName)) (\<lambda>r. case r of
             Inl e \<Rightarrow> if is_not_found e then ret False
                      else throw (Wrapf ''get node %q for do-not-disrupt check: %w'' [TQuoted nodeName] e)
           | Inr node \<Rightarrow> ret (disruptionRefused node)))"

definition stampEmptySince :: "'w env \<Rightarrow> machine \<Rightarrow> ('w, machine) go" where
  "stampEmptySince E m =
     bind (now E) (\<lambda>n.
     map_error (Wrapf ''stamp emptySince on machine %q: %w'' [TQuoted (m_name m)])
       (patch_machine_status E m (update_status (\<lambda>s. s\<lparr>st_emptySince := Some n\<rparr>) m)))"

definition clearEmptySince :: "'w env \<Rightarrow> machine \<Rightarrow> ('w, machine) go" where
  "clearEmptySince E m =
     (if st_emptySince (m_status m) = None then ret m
      else map_error (Wrapf ''clear emptySince on machine %q: %w'' [TQuoted (m_name m)])
             (patch_machine_status E m (update_status (\<lambda>s. s\<lparr>st_emptySince := None\<rparr>) m)))"

definition requestDrain :: "'w env \<Rightarrow> machine \<Rightarrow> ('w, machine) go" where
  "requestDrain E m =
     map_error (Wrapf ''set drain-now annotation on machine %q: %w'' [TQuoted (m_name m)])
       (patch_machine E m (set_annotations (AList.update AnnotationDrainNow AnnotationDrainNowValue) m))"

section \<open>The pool\<close>

definition consolidateAfter :: "nodepool option \<Rightarrow> duration \<times> bool" where
  "consolidateAfter pool =
     (case pool of
        None \<Rightarrow> (0, False)
      | Some p \<Rightarrow>
          if dis_consolidationPolicy (ps_disruption (pool_spec p)) \<noteq> ConsolidationPolicyWhenEmpty then (0, False)
          else (case dis_consolidateAfter (ps_disruption (pool_spec p)) of
                  None \<Rightarrow> (0, False)
                | Some ca \<Rightarrow> (ca, True)))"

definition freshPoolState :: "'w env \<Rightarrow> nodepool \<Rightarrow> ('w, nodepool \<times> machine list) go" where
  "freshPoolState E pool =
     bind (map_error (Wrapf ''get nodepool %q: %w'' [TQuoted (pool_name pool)])
             (get_pool E Fresh (pool_name pool))) (\<lambda>fresh.
     case LabelSelectorAsSelector (env_lib E) (ps_machineSelector (pool_spec fresh)) of
       Inl e \<Rightarrow> throw (Wrapf ''convert machineSelector for nodepool %q: %w'' [TQuoted (pool_name fresh)] e)
     | Inr _ \<Rightarrow>
         bind (map_error (Wrapf ''list machines for pool %q: %w'' [TQuoted (pool_name fresh)])
                 (list_machines_matching E Fresh (ps_machineSelector (pool_spec fresh)))) (\<lambda>machines.
         ret (fresh, machines)))"

definition memberNamed :: "machine list \<Rightarrow> string \<Rightarrow> machine option" where
  "memberNamed members name = find (\<lambda>m. m_name m = name) members"

definition isScalingDown :: "machine \<Rightarrow> bool" where
  "isScalingDown m =
     (case state_of m of Draining \<Rightarrow> True | ShuttingDown \<Rightarrow> True | _ \<Rightarrow> drainRequested m)"

fun countScaleDown :: "machine list \<Rightarrow> int \<times> int \<Rightarrow> int \<times> int" where
  "countScaleDown [] counts = counts"
| "countScaleDown (m # ms) (keptOn, scalingDown) =
     countScaleDown ms
       (if isScalingDown m then (keptOn, wrap32 (scalingDown + 1))
        else if state_of m = Ready then (wrap32 (keptOn + 1), scalingDown)
        else (keptOn, scalingDown))"

definition poolScaleDownCounts :: "machine list \<Rightarrow> int \<times> int" where
  "poolScaleDownCounts members = countScaleDown members (0, 0)"

definition coolingDownUntil :: "'w env \<Rightarrow> nodepool \<Rightarrow> ('w, time) go" where
  "coolingDownUntil E pool =
     (case (cool_scaleDown (ps_cooldown (pool_spec pool)), pst_lastScaleDownTime (pool_status pool)) of
        (Some cd, Some lst) \<Rightarrow>
          bind (now E) (\<lambda>n. ret (if \<not> n < lst + cd then 0 else lst + cd))
      | _ \<Rightarrow> ret 0)"

definition stampScaleDown :: "'w env \<Rightarrow> nodepool \<Rightarrow> ('w, nodepool) go" where
  "stampScaleDown E pool =
     bind (now E) (\<lambda>t.
     map_error (Wrapf ''stamp scale-down time on nodepool %q: %w'' [TQuoted (pool_name pool)])
       (patch_pool_status E pool (pool\<lparr>pool_status := (pool_status pool)\<lparr>pst_lastScaleDownTime := Some t\<rparr>\<rparr>)))"

definition maxConcurrentOf :: "nodepool \<Rightarrow> int" where
  "maxConcurrentOf pool =
     (case dis_maxConcurrent (ps_disruption (pool_spec pool)) of None \<Rightarrow> 1 | Some k \<Rightarrow> k)"

section \<open>Triggering a scale-down\<close>

text \<open>Is the Machine, read past the cache, still a member to scale down?\<close>

definition stillIdle :: "machine list \<Rightarrow> string \<Rightarrow> bool" where
  "stillIdle members name =
     (case memberNamed members name of
        None \<Rightarrow> False
      | Some self \<Rightarrow> \<not> (state_of self \<noteq> Ready \<or> drainRequested self))"

text \<open>The last part of \<^verbatim>\<open>triggerScaleDown\<close>: all guards passed.\<close>

definition issueDrain :: "'w env \<Rightarrow> machine \<Rightarrow> nodepool \<Rightarrow> duration \<Rightarrow> ('w, requeue) go" where
  "issueDrain E m pool after =
     bind (stampScaleDown E pool) (\<lambda>_.
     bind (requestDrain E m) (\<lambda>m'.
     bind (event (MachineObj (m_name m')) Normal reasonScaleDown
             (Msg ''node %q empty for %s; draining and powering off'' [TQuoted (nodeName_of m'), TDur after])) (\<lambda>_.
     ret NoRequeue)))"

definition triggerScaleDown ::
  "'w env \<Rightarrow> machine \<Rightarrow> nodepool \<Rightarrow> duration \<Rightarrow> ('w, requeue) scaledown" where
  "triggerScaleDown E m cachedPool after =
     bind (outside (freshPoolState E cachedPool)) (\<lambda>(pool, members).
     if \<not> stillIdle members (m_name m) then ret NoRequeue
     else bind (outside (coolingDownUntil E pool)) (\<lambda>until.
     if \<not> is_zero_time until then
       bind (outside (now E)) (\<lambda>n.
         let wait = time_sub until n
         in ret (RequeueAfter (if wait < minConsolidateRequeue then minConsolidateRequeue else wait)))
     else (case poolScaleDownCounts members of (keptOn, scalingDown) \<Rightarrow>
       if keptOn \<le> ps_minNodes (pool_spec pool) then
         bind (announceHold m Normal reasonScaleDownBlocked
                 (Msg ''not draining node %q: pool %q at its minNodes floor (%d kept on, min %d)''
                   [TQuoted (nodeName_of m), TQuoted (pool_name pool), TInt keptOn, TInt (ps_minNodes (pool_spec pool))]))
           (\<lambda>_. ret (RequeueAfter scaleDownBlockedRequeue))
       else if maxConcurrentOf pool \<le> scalingDown then
         bind (announceHold m Normal reasonScaleDownBlocked
                 (Msg ''deferring drain of node %q: pool %q already draining %d (maxConcurrent %d)''
                   [TQuoted (nodeName_of m), TQuoted (pool_name pool), TInt scalingDown, TInt (maxConcurrentOf pool)]))
           (\<lambda>_. ret (RequeueAfter scaleDownBlockedRequeue))
       else outside (issueDrain E m pool after))))"

section \<open>Reconcile\<close>

text \<open>\<^verbatim>\<open>return ctrl.Result{}, r.clearEmptySince(ctx, &m)\<close>\<close>

definition standDown :: "'w env \<Rightarrow> machine \<Rightarrow> ('w, requeue) scaledown" where
  "standDown E m = outside (bind (clearEmptySince E m) (\<lambda>_. ret NoRequeue))"

text \<open>The timer of an empty Node: start it, wait for it, or act on it.\<close>

definition emptyTimer :: "'w env \<Rightarrow> machine \<Rightarrow> nodepool \<Rightarrow> duration \<Rightarrow> ('w, requeue) scaledown" where
  "emptyTimer E m pool after =
     (case st_emptySince (m_status m) of
        None \<Rightarrow> outside (bind (stampEmptySince E m) (\<lambda>_. ret (RequeueAfter after)))
      | Some t \<Rightarrow>
          bind (outside (since E t)) (\<lambda>elapsed.
          if elapsed < after then
            (let wait = dur_sub after elapsed
             in ret (RequeueAfter (if wait < minConsolidateRequeue then minConsolidateRequeue else wait)))
          else triggerScaleDown E m pool after))"

text \<open>The policy of the pools that select the Machine. A missing pool never enables scale-down, so the pool is
  at hand where the timer needs it.\<close>

definition applyPoolPolicy :: "'w env \<Rightarrow> machine \<Rightarrow> nodepool list \<Rightarrow> ('w, requeue) scaledown" where
  "applyPoolPolicy E m pools =
     (if 1 < length pools then
        bind (announceHold m Warning reasonPoolConflict
                (Msg ''Machine %q matches %d NodePools (%s); holding automatic scale-down until the overlap is resolved''
                  [TQuoted (m_name m), TInt (int (length pools)), TStr (poolNames pools)]))
          (\<lambda>_. standDown E m)
      else (let pool = (case pools of [] \<Rightarrow> None | p # _ \<Rightarrow> Some p)
            in case (pool, consolidateAfter pool) of
                 (Some p, after, True) \<Rightarrow>
                   bind (outside (map_error (Wrapf ''check node %q emptiness: %w'' [TQuoted (nodeName_of m)])
                           (nodeEmpty E (nodeName_of m)))) (\<lambda>empty.
                   if \<not> empty then standDown E m else emptyTimer E m p after)
               | _ \<Rightarrow> standDown E m))"

definition scaleDownPass :: "'w env \<Rightarrow> string \<Rightarrow> ('w, requeue) scaledown" where
  "scaleDownPass E name =
     bind (outside (attempt (get_machine E name))) (\<lambda>r. case r of
       Inl e \<Rightarrow> if is_not_found e then ret NoRequeue else throw e
     | Inr m \<Rightarrow>
         if state_of m \<noteq> Ready then standDown E m
         else if drainRequested m then ret NoRequeue
         else bind (outside (nodeDoNotDisrupt E (nodeName_of m))) (\<lambda>protected.
           if protected then standDown E m
           else bind (outside (nodeAlwaysOn E (nodeName_of m))) (\<lambda>alwaysOn.
             if alwaysOn then standDown E m
             else bind (outside (matchingPools E m)) (applyPoolPolicy E m))))"

definition scaleDownReconcile :: "'w env \<Rightarrow> string \<Rightarrow> ('w, requeue) scaledown" where
  "scaleDownReconcile E name =
     bind (remember (\<lambda>s. s\<lparr>sd_heldThisPass := False\<rparr>)) (\<lambda>_.
     bind (attempt (scaleDownPass E name)) (\<lambda>res.
     bind recall (\<lambda>s.
     bind (if \<not> sd_heldThisPass s then remember (\<lambda>s. s\<lparr>sd_holds := AList.delete name (sd_holds s)\<rparr>) else ret ()) (\<lambda>_.
     case res of Inl e \<Rightarrow> throw e | Inr q \<Rightarrow> ret q))))"

section \<open>Watches\<close>

definition machinesForPod :: "'w env \<Rightarrow> pod \<Rightarrow> ('w, string list) go" where
  "machinesForPod E pod = requestsForMachinesOnNode E (pod_nodeName pod)"

definition scaleDownMachinesForNode :: "'w env \<Rightarrow> node \<Rightarrow> ('w, string list) go" where
  "scaleDownMachinesForNode E node = requestsForMachinesOnNode E (node_name node)"

definition membersOfPool :: "'w env \<Rightarrow> nodepool \<Rightarrow> ('w, string list) go" where
  "membersOfPool E pool = requestsForPoolMembers E pool"

fun nodeExemptionChanged :: "node watch_event \<Rightarrow> bool" where
  "nodeExemptionChanged (CreateEvent n) = False"
| "nodeExemptionChanged (DeleteEvent n) = False"
| "nodeExemptionChanged (UpdateEvent oldNode newNode) \<longleftrightarrow>
     sget (node_annotations oldNode) AnnotationDoNotDisrupt \<noteq> sget (node_annotations newNode) AnnotationDoNotDisrupt \<or>
     sget (node_labels oldNode) LabelAlwaysOn \<noteq> sget (node_labels newNode) LabelAlwaysOn"
| "nodeExemptionChanged (GenericEvent n) = False"

fun podEmptinessPredicate :: "pod watch_event \<Rightarrow> bool" where
  "podEmptinessPredicate (CreateEvent pod) \<longleftrightarrow> pod_nodeName pod \<noteq> [] \<and> keepsNodeOn pod"
| "podEmptinessPredicate (DeleteEvent pod) \<longleftrightarrow> pod_nodeName pod \<noteq> []"
| "podEmptinessPredicate (UpdateEvent oldPod newPod) =
     (if pod_nodeName newPod = [] then False
      else if pod_nodeName oldPod \<noteq> pod_nodeName newPod then keepsNodeOn newPod
      else keepsNodeOn oldPod \<noteq> keepsNodeOn newPod)"
| "podEmptinessPredicate (GenericEvent pod) = False"

end
