(* ===== verification/Scale_Down_Safety.thy ===== *)
theory Scale_Down_Safety
  imports Scale_Down Machine_Safety Rate_Limit
begin

text \<open>
  What the scale-down reconciler asks to drain and when: only a Ready Machine whose Node is exempt from
  nothing, whose one pool opted in, that is seen empty and whose empty timer is a full window old; only if a listing read past the
  cache leaves the pool's floor, its concurrency and its cooldown intact; and it announces a persisting hold
  once.
\<close>

section \<open>Evidence\<close>

fun is_drain :: "action \<Rightarrow> bool" where
  "is_drain (PatchMachine m m' r) = True"
| "is_drain _ = False"

definition no_drain :: "action list \<Rightarrow> bool" where
  "no_drain as \<longleftrightarrow> list_all (\<lambda>a. \<not> is_drain a) as"

definition drained :: "machine \<Rightarrow> machine" where
  "drained m = set_annotations (AList.update AnnotationDrainNow AnnotationDrainNowValue) m"

definition down_stamped :: "nodepool \<Rightarrow> time \<Rightarrow> nodepool" where
  "down_stamped pool t = pool\<lparr>pool_status := (pool_status pool)\<lparr>pst_lastScaleDownTime := Some t\<rparr>\<rparr>"

text \<open>A member that counts for the floor.\<close>

definition keeps_floor :: "machine \<Rightarrow> bool" where
  "keeps_floor m \<longleftrightarrow> state_of m = Ready \<and> \<not> isScalingDown m"

text \<open>One more member may go: the floor holds without it, and a drain slot is free. A count of fewer than
  \<open>2 ^ 31\<close> members does not overflow the \<open>int32\<close> counters.\<close>

definition room_to_drain :: "nodepool \<Rightarrow> machine list \<Rightarrow> bool" where
  "room_to_drain pool members \<longleftrightarrow>
     (length members < 2 ^ 31 \<longrightarrow>
        ps_minNodes (pool_spec pool) \<le> int (length (filter keeps_floor members)) - 1 \<and>
        int (length (filter isScalingDown members)) < maxConcurrentOf pool)"

text \<open>The interactions of a drain request: read pool and members past the cache, check, stamp the cooldown,
  set the trigger, report.\<close>

definition drain_of :: "nodepool \<Rightarrow> machine \<Rightarrow> action list \<Rightarrow> bool" where
  "drain_of pool m as \<longleftrightarrow> (\<exists>fresh members ys t p r zs.
     as = GetPool Fresh (pool_name pool) (Inr fresh) #
       ListMachinesMatching Fresh (ps_machineSelector (pool_spec fresh)) (Inr members) #
       ys @ ReadClock t # PatchPoolStatus fresh (down_stamped fresh t) (Inr p) # PatchMachine m (drained m) r # zs \<and>
     list_all is_read ys \<and> list_all is_report zs \<and> stillIdle members (m_name m) \<and>
     lapsed (cool_scaleDown (ps_cooldown (pool_spec fresh))) (pst_lastScaleDownTime (pool_status fresh)) (set ys) \<and>
     room_to_drain fresh members)"

definition empty_seen :: "string \<Rightarrow> action set \<Rightarrow> bool" where
  "empty_seen k A \<longleftrightarrow>
     k = [] \<or> (\<exists>pods. ListPodsOnNode Cached k (Inr pods) \<in> A \<and> \<not> list_ex keepsNodeOn pods)"

text \<open>The Machine was idle for the window of the one pool that selects it.\<close>

definition idle_for :: "lib \<Rightarrow> string \<Rightarrow> machine \<Rightarrow> nodepool \<Rightarrow> action set \<Rightarrow> bool" where
  "idle_for L name m pool A \<longleftrightarrow>
     GetMachine name (Inr m) \<in> A \<and> state_of m = Ready \<and> \<not> drainRequested m \<and>
     node_answer (\<lambda>n. \<not> disruptionRefused n) (nodeName_of m) A \<and>
     node_answer (\<lambda>n. \<not> alwaysOnLabelled n) (nodeName_of m) A \<and>
     (\<exists>pools. ListPools (Inr pools) \<in> A \<and> poolsOf L pools m = [pool]) \<and>
     empty_seen (nodeName_of m) A \<and>
     dis_consolidationPolicy (ps_disruption (pool_spec pool)) = ConsolidationPolicyWhenEmpty \<and>
     (\<exists>after t n. dis_consolidateAfter (ps_disruption (pool_spec pool)) = Some after \<and>
        st_emptySince (m_status m) = Some t \<and> ReadClock n \<in> A \<and> after \<le> time_sub n t)"

section \<open>Samples\<close>

definition idle_machine :: machine where
  "idle_machine = update_status (\<lambda>s. s\<lparr>st_emptySince := Some 20\<rparr>) (sample_machine ''m'' ''n'' Ready)"

definition idle_world :: world where
  "idle_world = (sample_world Ready CondTrue False)\<lparr>w_machines := [idle_machine], w_pods := []\<rparr>"

text \<open>The same with a floor of one node, and with a pod on the Node.\<close>

definition floor_world :: world where
  "floor_world = idle_world\<lparr>w_pools := map (\<lambda>p. p\<lparr>pool_spec := (pool_spec p)\<lparr>ps_minNodes := 1\<rparr>\<rparr>) (w_pools idle_world)\<rparr>"

definition busy_world :: world where
  "busy_world = floor_world\<lparr>w_pods := [sample_pod ''p'' ''n'']\<rparr>"

definition floor_message :: message where
  "floor_message = Msg ''not draining node %q: pool %q at its minNodes floor (%d kept on, min %d)''
     [TQuoted ''n'', TQuoted ''a'', TInt 1, TInt 1]"

definition no_memory :: scaledown_memory where
  "no_memory = \<lparr>sd_holds = [], sd_heldThisPass = False\<rparr>"

section \<open>Counting\<close>

lemma countScaleDown_exact:
  assumes "0 \<le> k" and "0 \<le> s" and "k + int (length ms) < 2 ^ 31" and "s + int (length ms) < 2 ^ 31"
  shows "countScaleDown ms (k, s) =
    (k + int (length (filter keeps_floor ms)), s + int (length (filter isScalingDown ms)))"
  using assms
proof (induction ms arbitrary: k s)
  case (Cons m ms)
  have "wrap32 (k + 1) = k + 1" "wrap32 (s + 1) = s + 1"
    using Cons.prems by (auto intro!: fits_wrap simp: fits_width_def)
  with Cons show ?case by (auto simp: keeps_floor_def)
qed simp

lemma poolScaleDownCounts_exact:
  assumes "length members < 2 ^ 31"
  shows "poolScaleDownCounts members =
    (int (length (filter keeps_floor members)), int (length (filter isScalingDown members)))"
  using assms countScaleDown_exact [of 0 0 members] by (simp add: poolScaleDownCounts_def)

section \<open>Contracts of the parts\<close>

interpretation scale_downs: rate_limit coolingDownUntil "\<lambda>p. cool_scaleDown (ps_cooldown (pool_spec p))"
  "\<lambda>p. pst_lastScaleDownTime (pool_status p)" down_stamped
proof unfold_locales
  show "wp (coolingDownUntil E p) (\<lambda>as r. list_all is_read as \<and> (\<exists>u. r = Inr u \<and> (is_zero_time u \<longrightarrow>
      lapsed (cool_scaleDown (ps_cooldown (pool_spec p))) (pst_lastScaleDownTime (pool_status p)) (set as))))"
    for E :: "'w env" and p
    unfolding coolingDownUntil_def client_defs
    by (auto intro!: wp_rules simp: lapsed_def is_zero_time_def split: option.splits)
qed (simp_all add: down_stamped_def)

lemma wp_nodeDoNotDisrupt [wp_rules]:
  assumes "n = [] \<Longrightarrow> Q [] (Inr False)"
    and "\<And>e. n \<noteq> [] \<Longrightarrow> is_not_found e \<Longrightarrow> Q [GetNode n (Inl e)] (Inr False)"
    and "\<And>e. n \<noteq> [] \<Longrightarrow> \<not> is_not_found e \<Longrightarrow>
      Q [GetNode n (Inl e)] (Inl (Wrapf ''get node %q for do-not-disrupt check: %w'' [TQuoted n] e))"
    and "\<And>nd. n \<noteq> [] \<Longrightarrow> Q [GetNode n (Inr nd)] (Inr (disruptionRefused nd))"
  shows "wp (nodeDoNotDisrupt E n) Q"
  unfolding nodeDoNotDisrupt_def get_node_def
  by (auto intro!: wp_rules assms)

lemma no_drain_simps [simp]:
  "no_drain []" "no_drain (a # as) \<longleftrightarrow> \<not> is_drain a \<and> no_drain as"
  "no_drain (as @ bs) \<longleftrightarrow> no_drain as \<and> no_drain bs"
  by (simp_all add: no_drain_def)

lemma passive_no_drain: "is_passive a \<Longrightarrow> \<not> is_drain a"
  by (cases a) (simp_all add: is_passive_def)

lemma reads_no_drain: "list_all is_read as \<Longrightarrow> no_drain as"
  by (auto simp: no_drain_def list_all_iff dest: passive_no_drain [OF is_passive_simps(1)])

lemma emits_no_drain: "emits (\<lambda>a. \<not> is_drain a) p \<Longrightarrow> (\<And>as r. no_drain as \<Longrightarrow> Q as r) \<Longrightarrow> wp p Q"
  unfolding no_drain_def by (rule emits_wp)

lemma announceHold_no_drain: "emits (\<lambda>a. \<not> is_drain a) (announceHold m ty reason msg)"
  unfolding announceHold_def event_def by (auto intro!: emits_rules)

lemma standDown_no_drain: "emits (\<lambda>a. \<not> is_drain a) (standDown E m)"
  unfolding standDown_def clearEmptySince_def client_defs by (auto intro!: emits_rules)

lemma hold_no_drain:
  "(\<And>as r mem'. no_drain as \<Longrightarrow> Q as r mem') \<Longrightarrow>
   wpm (bind (announceHold m ty reason msg) (\<lambda>_. ret q)) mem Q"
  by (rule emits_wpm [OF emits_bind [OF announceHold_no_drain emits_ret]]) (simp add: no_drain_def)

lemma standDown_wpm: "(\<And>as r mem'. no_drain as \<Longrightarrow> Q as r mem') \<Longrightarrow> wpm (standDown E m) mem Q"
  by (rule emits_wpm [OF standDown_no_drain]) (simp add: no_drain_def)

lemma wp_issueDrain:
  "wp (issueDrain E m pool after) (\<lambda>as r. no_drain as \<or> (\<exists>t p r' zs. list_all is_report zs \<and>
     as = ReadClock t # PatchPoolStatus pool (down_stamped pool t) (Inr p) # PatchMachine m (drained m) r' # zs))"
  unfolding issueDrain_def stampScaleDown_def requestDrain_def client_defs
  by (auto intro!: wp_rules simp: down_stamped_def drained_def)


lemma wp_freshPoolState:
  assumes "\<And>as e. no_drain as \<Longrightarrow> Q as (Inl e)"
    and "\<And>fresh members. Q [GetPool Fresh (pool_name pool) (Inr fresh),
      ListMachinesMatching Fresh (ps_machineSelector (pool_spec fresh)) (Inr members)] (Inr (fresh, members))"
  shows "wp (freshPoolState E pool) Q"
  unfolding freshPoolState_def client_defs
  by (auto intro!: wp_rules assms)

text \<open>The guards after the cooldown.\<close>

lemma wpm_guards:
  "wpm (case poolScaleDownCounts members of (keptOn, scalingDown) \<Rightarrow>
       if keptOn \<le> ps_minNodes (pool_spec pool) then
         bind (announceHold m ty1 reason1 (msg1 keptOn)) (\<lambda>_. ret q1)
       else if maxConcurrentOf pool \<le> scalingDown then
         bind (announceHold m ty2 reason2 (msg2 scalingDown)) (\<lambda>_. ret q2)
       else outside (issueDrain E m pool after)) mem
     (\<lambda>as r mem'. no_drain as \<or> room_to_drain pool members \<and> (\<exists>t p r' zs. list_all is_report zs \<and>
       as = ReadClock t # PatchPoolStatus pool (down_stamped pool t) (Inr p) # PatchMachine m (drained m) r' # zs))"
    (is "wpm ?p mem ?Q")
proof (cases "poolScaleDownCounts members")
  case (Pair keptOn scalingDown)
  have "wpm (outside (issueDrain E m pool after)) mem ?Q"
    if "\<not> keptOn \<le> ps_minNodes (pool_spec pool)" and "\<not> maxConcurrentOf pool \<le> scalingDown"
  proof -
    have "room_to_drain pool members"
      using that Pair poolScaleDownCounts_exact [of members] by (auto simp: room_to_drain_def)
    then show ?thesis by (intro wpm_outside wp_mono [OF wp_issueDrain]) auto
  qed
  then show ?thesis unfolding Pair prod.case
    by (intro wpm_if hold_no_drain) simp_all
qed


lemma drain_ofI:
  assumes "list_all is_read ys" and "list_all is_report zs" and "stillIdle members (m_name m)"
    and "lapsed (cool_scaleDown (ps_cooldown (pool_spec fresh))) (pst_lastScaleDownTime (pool_status fresh)) (set ys)"
    and "room_to_drain fresh members"
  shows "drain_of pool m (GetPool Fresh (pool_name pool) (Inr fresh) #
       ListMachinesMatching Fresh (ps_machineSelector (pool_spec fresh)) (Inr members) #
       ys @ ReadClock t # PatchPoolStatus fresh (down_stamped fresh t) (Inr p) # PatchMachine m (drained m) r # zs)"
  unfolding drain_of_def using assms by blast

lemma wpm_triggerScaleDown:
  "wpm (triggerScaleDown E m pool after) mem (\<lambda>as r mem'. no_drain as \<or> drain_of pool m as)"
  unfolding triggerScaleDown_def
proof (rule wpm_bind, rule wpm_outside, rule wp_freshPoolState, goal_cases)
  case (2 fresh members)
  let ?reads = "[GetPool Fresh (pool_name pool) (Inr fresh),
      ListMachinesMatching Fresh (ps_machineSelector (pool_spec fresh)) (Inr members)]"
  have rest: "wpm (bind (outside (coolingDownUntil E fresh)) (\<lambda>until.
      if \<not> is_zero_time until then waiting until else guards)) mem
      (\<lambda>bs r mem'. no_drain (?reads @ bs) \<or> drain_of pool m (?reads @ bs))"
    if idle: "stillIdle members (m_name m)" and w: "\<And>u. emits (\<lambda>a. \<not> is_drain a) (waiting u)"
      and g: "wpm guards mem (\<lambda>as r mem'. no_drain as \<or> room_to_drain fresh members \<and> (\<exists>t p r' zs. list_all is_report zs \<and>
         as = ReadClock t # PatchPoolStatus fresh (down_stamped fresh t) (Inr p) # PatchMachine m (drained m) r' # zs))"
    for waiting guards
  proof (rule wpm_bind, rule wpm_outside, rule wp_mono [OF scale_downs.until_reads], goal_cases)
    case (1 as r)
    then obtain u where u: "r = Inr u" and reads: "list_all is_read as"
      and gone: "is_zero_time u \<longrightarrow> lapsed (cool_scaleDown (ps_cooldown (pool_spec fresh)))
        (pst_lastScaleDownTime (pool_status fresh)) (set as)" by blast
    have "wpm guards mem (\<lambda>bs r mem'. no_drain (?reads @ as @ bs) \<or> drain_of pool m (?reads @ as @ bs))"
      if "is_zero_time u"
      by (rule wpm_mono [OF g], elim disjE) (use reads_no_drain [OF reads] that gone reads idle in \<open>auto intro!: drain_ofI\<close>)
    moreover have "wpm (waiting u) mem (\<lambda>bs r mem'. no_drain (?reads @ as @ bs) \<or> drain_of pool m (?reads @ as @ bs))"
      by (rule emits_wpm [OF w]) (use reads_no_drain [OF reads] in \<open>simp add: no_drain_def\<close>)
    ultimately show ?case using u by simp
  qed
  show ?case
    unfolding sum.case prod.case
    by (rule wpm_if, rule wpm_ret, simp, rule rest, simp,
        auto intro!: emits_rules simp: client_defs Let_def, rule wpm_guards)
qed (simp add: no_drain_def)

lemma wpm_emptyTimer:
  "wpm (emptyTimer E m pool after) mem (\<lambda>as r mem'. no_drain as \<or>
     (\<exists>t n zs. as = ReadClock n # zs \<and> st_emptySince (m_status m) = Some t \<and> after \<le> time_sub n t \<and> drain_of pool m zs))"
  unfolding emptyTimer_def
proof (rule wpm_case_option, goal_cases)
  case 1
  show ?case by (rule wpm_outside) (auto intro!: wp_rules simp: stampEmptySince_def client_defs)
next
  case (2 t)
  then show ?case unfolding since_def now_def
    by (auto intro!: wpm_rules wp_rules wpm_mono [OF wpm_triggerScaleDown] simp: Let_def)
qed


lemma consolidateAfter_enabled:
  "consolidateAfter (Some p) = (after, True) \<longleftrightarrow>
     dis_consolidationPolicy (ps_disruption (pool_spec p)) = ConsolidationPolicyWhenEmpty \<and>
     dis_consolidateAfter (ps_disruption (pool_spec p)) = Some after"
  by (auto simp: consolidateAfter_def split: option.splits)

text \<open>What the policy of the pools requires of a drain: the reads \<open>ys\<close>, the clock \<open>n\<close>, then the drain.\<close>

definition timed_drain :: "machine \<Rightarrow> nodepool \<Rightarrow> action list \<Rightarrow> bool" where
  "timed_drain m pool as \<longleftrightarrow> (\<exists>after ys n t zs. as = ys @ ReadClock n # zs \<and> list_all is_read ys \<and>
     empty_seen (nodeName_of m) (set ys) \<and> consolidateAfter (Some pool) = (after, True) \<and>
     st_emptySince (m_status m) = Some t \<and> after \<le> time_sub n t \<and> drain_of pool m zs)"

lemma wpm_emptyTimer_after:
  assumes "consolidateAfter (Some pool) = (after, True)" and "list_all is_read ys" and "empty_seen (nodeName_of m) (set ys)"
  shows "wpm (emptyTimer E m pool after) mem (\<lambda>bs r mem'. no_drain (ys @ bs) \<or> timed_drain m pool (ys @ bs))"
proof (rule wpm_mono [OF wpm_emptyTimer], elim disjE exE conjE, goal_cases)
  case 1
  then show ?case using reads_no_drain [OF assms(2)] by simp
next
  case 2
  then show ?case unfolding timed_drain_def using assms by blast
qed

lemma wpm_applyPoolPolicy:
  "wpm (applyPoolPolicy E m pools) mem (\<lambda>as r mem'. no_drain as \<or> (\<exists>pool. pools = [pool] \<and> timed_drain m pool as))"
    (is "wpm _ mem ?Q")
proof -
  let ?k = "nodeName_of m"
  have one: "wpm (bind (outside (map_error g (nodeEmpty E ?k))) (\<lambda>empty.
      if \<not> empty then standDown E m else emptyTimer E m pool after)) mem
      (\<lambda>as r mem'. no_drain as \<or> timed_drain m pool as)"
    if "consolidateAfter (Some pool) = (after, True)" for g pool after
    unfolding nodeEmpty_def
  proof (rule wpm_bind, rule wpm_outside, rule wp_map_error, rule wp_bind, rule wp_podsKeepingNodeOn, goal_cases)
    case 1
    then show ?case
      using wpm_emptyTimer_after [OF that, of "[]" m E mem] by (auto intro!: wp_ret simp: empty_seen_def)
  next
    case (3 pods)
    then show ?case
      using wpm_emptyTimer_after [OF that, of "[ListPodsOnNode Cached ?k (Inr pods)]" m E mem]
      by (auto intro!: wp_ret standDown_wpm simp: empty_seen_def list_ex_iff filter_empty_conv)
  qed simp
  consider "1 < length pools" | "pools = []" | p where "pools = [p]"
    by (cases pools; cases "tl pools") auto
  then show ?thesis
  proof cases
    case 1
    then show ?thesis unfolding applyPoolPolicy_def if_P [OF 1]
      by (intro emits_wpm [OF emits_bind [OF announceHold_no_drain standDown_no_drain]]) (simp add: no_drain_def)
  next
    case 2
    then show ?thesis by (simp add: applyPoolPolicy_def consolidateAfter_def standDown_wpm)
  next
    case (3 p)
    obtain after enabled where ca: "consolidateAfter (Some p) = (after, enabled)" by (cases "consolidateAfter (Some p)")
    with 3 one [of p after] show ?thesis
      by (cases enabled) (auto simp: applyPoolPolicy_def intro: standDown_wpm)
  qed
qed

lemma nodeDoNotDisrupt_says:
  "wp (nodeDoNotDisrupt E k) (\<lambda>as r. list_all is_read as \<and>
     (r = Inr False \<longrightarrow> node_answer (\<lambda>n. \<not> disruptionRefused n) k (set as)))"
  by (rule wp_nodeDoNotDisrupt) (auto intro: node_answerI)

lemma nodeAlwaysOn_says:
  "wp (nodeAlwaysOn E k) (\<lambda>as r. list_all is_read as \<and>
     (r = Inr False \<longrightarrow> node_answer (\<lambda>n. \<not> alwaysOnLabelled n) k (set as)))"
  by (rule wp_nodeAlwaysOn) (auto intro: node_answerI)

text \<open>An exemption that is checked first: what follows runs only if the check said no.\<close>

lemma wpm_exemption:
  assumes check: "wp c (\<lambda>as r. list_all is_read as \<and> (r = Inr False \<longrightarrow> N (set as)))"
    and rest: "wpm rest mem (\<lambda>as r mem'. no_drain as \<or> R as)"
  shows "wpm (bind (outside c) (\<lambda>exempt. if exempt then standDown E m else rest)) mem
     (\<lambda>as r mem'. no_drain as \<or> (\<exists>ys zs. as = ys @ zs \<and> list_all is_read ys \<and> N (set ys) \<and> R zs))"
proof (rule wpm_bind, rule wpm_outside, rule wp_mono [OF check], goal_cases)
  case (1 as r)
  then have quiet: "no_drain as" by (simp add: reads_no_drain)
  show ?case
  proof (cases r)
    case (Inr b)
    with 1 quiet show ?thesis
      by (cases b) (auto intro!: standDown_wpm wpm_mono [OF rest])
  qed (simp add: quiet)
qed

lemma wpm_scaleDownPass:
  "wpm (scaleDownPass E name) mem (\<lambda>as r mem'. no_drain as \<or> (\<exists>m pool pools us vs zs.
     as = GetMachine name (Inr m) # us @ vs @ ListPools (Inr pools) # zs \<and> list_all is_read (us @ vs) \<and>
     state_of m = Ready \<and> \<not> drainRequested m \<and> node_answer (\<lambda>n. \<not> disruptionRefused n) (nodeName_of m) (set us) \<and>
     node_answer (\<lambda>n. \<not> alwaysOnLabelled n) (nodeName_of m) (set vs) \<and> poolsOf (env_lib E) pools m = [pool] \<and>
     timed_drain m pool zs))"
proof -
  have policy: "wpm (bind (outside (matchingPools E m)) (applyPoolPolicy E m)) mem
     (\<lambda>as r mem'. no_drain as \<or> (\<exists>pools pool zs. as = ListPools (Inr pools) # zs \<and> poolsOf (env_lib E) pools m = [pool] \<and>
        timed_drain m pool zs))" for m
    by (rule wpm_bind, rule wpm_outside, rule wp_matchingPools)
      (auto intro!: wpm_mono [OF wpm_applyPoolPolicy])
  note exempt = wpm_exemption [OF nodeDoNotDisrupt_says wpm_exemption [OF nodeAlwaysOn_says policy]]
  show ?thesis
    unfolding scaleDownPass_def get_machine_def
  proof (rule wpm_bind, rule wpm_outside, rule wp_attempt, rule wp_call, goal_cases)
    case (1 e)
    show ?case by (auto intro!: wpm_rules)
  next
    case (2 m)
    show ?case
      unfolding sum.case
    proof (intro wpm_if standDown_wpm wpm_ret, goal_cases)
      case 3
      then show ?case
        by (intro wpm_mono [OF exempt]) (elim disjE exE conjE, auto)
    qed simp_all
  qed
qed

text \<open>The wrapper adds no interaction.\<close>

lemma wpm_scaleDownReconcile:
  assumes "wpm (scaleDownPass E name) (mem\<lparr>sd_heldThisPass := False\<rparr>) (\<lambda>as r mem'.
    Q as r (if sd_heldThisPass mem' then mem' else mem'\<lparr>sd_holds := AList.delete name (sd_holds mem')\<rparr>))"
  shows "wpm (scaleDownReconcile E name) mem Q"
  unfolding scaleDownReconcile_def
  by (rule wpm_bind, rule wpm_remember, simp, rule wpm_bind, rule wpm_attempt, rule wpm_mono [OF assms])
    (auto intro!: wpm_rules split: sum.splits)

lemma no_patch_in_reads: "list_all is_read as \<Longrightarrow> PatchMachine m m' r \<notin> set as"
  "list_all is_report as \<Longrightarrow> PatchMachine m m' r \<notin> set as"
  by (auto simp: list_all_iff dest!: bspec)

lemma timed_drain_patch:
  "timed_drain m0 pool zs \<Longrightarrow> PatchMachine m m' r \<in> set zs \<Longrightarrow> m = m0 \<and> m' = drained m0"
  by (auto simp: timed_drain_def drain_of_def dest: no_patch_in_reads)

lemma drain_evidence:
  assumes "PatchMachine m m' r \<in> set (actions (scaleDownReconcile E name) (mem, w))"
  obtains pool pools us vs zs where
    "actions (scaleDownReconcile E name) (mem, w) = GetMachine name (Inr m) # us @ vs @ ListPools (Inr pools) # zs"
    and "list_all is_read (us @ vs)" and "state_of m = Ready" and "\<not> drainRequested m" and "m' = drained m"
    and "node_answer (\<lambda>n. \<not> disruptionRefused n) (nodeName_of m) (set us)"
    and "node_answer (\<lambda>n. \<not> alwaysOnLabelled n) (nodeName_of m) (set vs)"
    and "poolsOf (env_lib E) pools m = [pool]" and "timed_drain m pool zs"
proof -
  let ?as = "actions (scaleDownReconcile E name) (mem, w)"
  have "\<not> no_drain ?as" using assms by (force simp: no_drain_def list_all_iff)
  with wpmD [OF wpm_scaleDownReconcile [OF wpm_scaleDownPass], of E name mem w]
  obtain m0 pool pools us vs zs where
    as: "?as = GetMachine name (Inr m0) # us @ vs @ ListPools (Inr pools) # zs"
    and reads: "list_all is_read (us @ vs)" and "state_of m0 = Ready" and "\<not> drainRequested m0"
    and "node_answer (\<lambda>n. \<not> disruptionRefused n) (nodeName_of m0) (set us)"
    and "node_answer (\<lambda>n. \<not> alwaysOnLabelled n) (nodeName_of m0) (set vs)"
    and "poolsOf (env_lib E) pools m0 = [pool]" and timed: "timed_drain m0 pool zs"
    by blast
  moreover have "m = m0" "m' = drained m0"
    using assms reads no_patch_in_reads(1) [of "us @ vs" m m' r] timed_drain_patch [OF timed, of m m' r]
    unfolding as by auto
  ultimately show thesis using that by blast
qed

section \<open>Writes\<close>

fun scale_down_write :: "action \<Rightarrow> bool" where
  "scale_down_write (PatchMachineStatus m m' r) = (\<exists>x. m' = update_status (\<lambda>s. s\<lparr>st_emptySince := x\<rparr>) m)"
| "scale_down_write (PatchPoolStatus p p' r) = (\<exists>t. p' = down_stamped p t)"
| "scale_down_write (PatchMachine m m' r) = (m' = drained m)"
| "scale_down_write a = is_passive a"

lemmas scale_down_reads = nodeDoNotDisrupt_def nodeAlwaysOn_def matchingPools_def nodeEmpty_def podsKeepingNodeOn_def
  freshPoolState_def coolingDownUntil_def

lemma writes_announceHold: "emits scale_down_write (announceHold m ty reason msg)"
  unfolding announceHold_def event_def by (auto intro!: emits_rules)

lemma writes_standDown: "emits scale_down_write (standDown E m)"
  unfolding standDown_def clearEmptySince_def client_defs by (auto intro!: emits_rules)

lemma writes_issueDrain: "emits scale_down_write (issueDrain E m pool after)"
  unfolding issueDrain_def stampScaleDown_def requestDrain_def client_defs
  by (auto intro!: emits_rules simp: down_stamped_def drained_def)

lemma writes_triggerScaleDown: "emits scale_down_write (triggerScaleDown E m pool after)"
  unfolding triggerScaleDown_def scale_down_reads client_defs Let_def
  by (auto intro!: emits_rules writes_announceHold writes_issueDrain)

lemma writes_emptyTimer: "emits scale_down_write (emptyTimer E m pool after)"
  unfolding emptyTimer_def stampEmptySince_def client_defs Let_def
  by (auto intro!: emits_rules writes_triggerScaleDown)

lemma writes_applyPoolPolicy: "emits scale_down_write (applyPoolPolicy E m pools)"
proof -
  let ?pool = "case pools of [] \<Rightarrow> None | p # _ \<Rightarrow> Some p"
  have empty: "emits scale_down_write (nodeEmpty E k)" for k
    unfolding scale_down_reads client_defs by (auto intro!: emits_rules)
  show ?thesis
    unfolding applyPoolPolicy_def Let_def
    by (cases ?pool; cases "consolidateAfter ?pool"; cases "snd (consolidateAfter ?pool)")
      (auto intro!: emits_rules writes_announceHold writes_standDown writes_emptyTimer empty)
qed

lemma writes_scaleDownReconcile: "emits scale_down_write (scaleDownReconcile E name)"
proof -
  have reads: "emits scale_down_write (nodeDoNotDisrupt E k)" "emits scale_down_write (nodeAlwaysOn E k)"
    "emits scale_down_write (matchingPools E m)" for k m
    unfolding scale_down_reads client_defs by (auto intro!: emits_rules)
  show ?thesis
    unfolding scaleDownReconcile_def scaleDownPass_def get_machine_def
    by (auto intro!: emits_rules writes_applyPoolPolicy writes_standDown reads)
qed

lemma no_drain_filter: "no_drain as \<Longrightarrow> filter is_drain as = []"
  by (simp add: no_drain_def list_all_iff filter_empty_conv)

lemma reports_no_drain: "list_all is_report as \<Longrightarrow> no_drain as"
  by (auto simp: no_drain_def list_all_iff dest: passive_no_drain [OF is_passive_simps(2)])

lemma drain_of_once: "drain_of pool m zs \<Longrightarrow> length (filter is_drain zs) = 1"
  by (auto simp: drain_of_def no_drain_filter reads_no_drain reports_no_drain)

section \<open>Holds\<close>

text \<open>The Event of a hold is any Event but the one of a scale-down.\<close>

fun is_hold :: "action \<Rightarrow> bool" where
  "is_hold (RecordEvent obj ty reason msg) \<longleftrightarrow> reason \<noteq> reasonScaleDown"
| "is_hold _ = False"

text \<open>What a pass does to the memory: nothing, or it notes a hold of the Machine \<open>m\<close>, and it emits the Event of the
  hold exactly if the message is new.\<close>

definition hold_step :: "machine \<Rightarrow> scaledown_memory \<Rightarrow> action list \<Rightarrow> scaledown_memory \<Rightarrow> bool" where
  "hold_step m mem as mem' \<longleftrightarrow>
     mem' = mem \<and> filter is_hold as = [] \<or>
     (\<exists>msg ty reason. sd_heldThisPass mem' \<and>
        (if map_of (sd_holds mem) (m_name m) = Some msg then sd_holds mem' = sd_holds mem \<and> filter is_hold as = []
         else sd_holds mem' = AList.update (m_name m) msg (sd_holds mem) \<and>
           filter is_hold as = [RecordEvent (MachineObj (m_name m)) ty reason msg]))"

lemma hold_step_quiet: "filter is_hold as = [] \<Longrightarrow> hold_step m mem as mem"
  by (simp add: hold_step_def)

lemma hold_step_app:
  "filter is_hold as = [] \<Longrightarrow> hold_step m mem (as @ bs) mem' \<longleftrightarrow> hold_step m mem bs mem'"
  "filter is_hold bs = [] \<Longrightarrow> hold_step m mem (as @ bs) mem' \<longleftrightarrow> hold_step m mem as mem'"
  by (simp_all add: hold_step_def)

lemma hold_stepI:
  "sd_heldThisPass mem' \<Longrightarrow> map_of (sd_holds mem) (m_name m) = Some msg \<Longrightarrow> sd_holds mem' = sd_holds mem \<Longrightarrow>
     filter is_hold as = [] \<Longrightarrow> hold_step m mem as mem'"
  "sd_heldThisPass mem' \<Longrightarrow> map_of (sd_holds mem) (m_name m) \<noteq> Some msg \<Longrightarrow>
     sd_holds mem' = AList.update (m_name m) msg (sd_holds mem) \<Longrightarrow>
     filter is_hold as = [RecordEvent (MachineObj (m_name m)) ty reason msg] \<Longrightarrow> hold_step m mem as mem'"
  unfolding hold_step_def by (auto intro!: exI [of _ msg])

lemma hold_stepE:
  assumes "hold_step m mem as mem'"
  obtains (quiet) "mem' = mem" and "filter is_hold as = []"
    | (known) "sd_heldThisPass mem'" and "sd_holds mem' = sd_holds mem" and "filter is_hold as = []"
    | (new) msg ty reason where "sd_heldThisPass mem'" and "map_of (sd_holds mem) (m_name m) \<noteq> Some msg"
        and "sd_holds mem' = AList.update (m_name m) msg (sd_holds mem)"
        and "filter is_hold as = [RecordEvent (MachineObj (m_name m)) ty reason msg]"
  using assms unfolding hold_step_def by (elim disjE exE conjE) (auto split: if_splits)

lemma wpm_announceHold:
  assumes "reason \<noteq> reasonScaleDown"
  shows "wpm (announceHold m ty reason msg) mem (\<lambda>as r mem'. r = Inr () \<and> hold_step m mem as mem')"
proof (cases "map_of (sd_holds mem) (m_name m) = Some msg")
  case True
  then show ?thesis unfolding announceHold_def
    by (auto intro!: wpm_rules hold_stepI(1) [OF _ True])
next
  case False
  with assms show ?thesis unfolding announceHold_def event_def
    by (auto intro!: wpm_rules wp_tell hold_stepI(2) [OF _ False, where ty = ty and reason = reason])
qed

lemma hold_outside:
  assumes "emits (\<lambda>a. \<not> is_hold a) p"
  shows "wpm (outside p) mem (\<lambda>as r mem'. hold_step m mem as mem')"
  by (rule wpm_outside, rule emits_wp [OF assms]) (simp add: hold_step_def list_all_iff filter_empty_conv)

lemma hold_bind_outside:
  assumes "emits (\<lambda>a. \<not> is_hold a) p" and "\<And>v. wpm (f v) mem (\<lambda>as r mem'. hold_step m mem as mem')"
  shows "wpm (bind (outside p) f) mem (\<lambda>as r mem'. hold_step m mem as mem')"
proof (rule wpm_bind, rule wpm_outside, rule emits_wp [OF assms(1)], goal_cases)
  case (1 as r)
  then have "filter is_hold as = []" by (simp add: list_all_iff filter_empty_conv)
  then show ?case using assms(2) by (auto simp: hold_step_app hold_step_quiet split: sum.splits)
qed

lemma hold_announce_outside:
  assumes "reason \<noteq> reasonScaleDown" and "emits (\<lambda>a. \<not> is_hold a) p"
  shows "wpm (bind (announceHold m ty reason msg) (\<lambda>_. outside p)) mem (\<lambda>as r mem'. hold_step m mem as mem')"
proof (rule wpm_bind, rule wpm_mono [OF wpm_announceHold [OF assms(1)]], goal_cases)
  case (1 as r mem')
  have "wpm (outside p) mem' (\<lambda>bs r m''. hold_step m mem (as @ bs) m'')"
    by (rule wpm_outside, rule emits_wp [OF assms(2)])
      (use 1 in \<open>simp add: hold_step_app list_all_iff filter_empty_conv\<close>)
  with 1 show ?case by simp
qed

lemma hold_ret: "wpm (ret v) mem (\<lambda>as r mem'. hold_step m mem as mem')"
  by (rule wpm_ret) (simp add: hold_step_def)

lemma outside_ret: "ret v = outside (ret v)"
  by (simp add: outside_def ret_def fun_eq_iff)

lemma no_hold_leaves:
  "emits (\<lambda>a. \<not> is_hold a) (now E)" "emits (\<lambda>a. \<not> is_hold a) (since E t)"
  "emits (\<lambda>a. \<not> is_hold a) (freshPoolState E p)" "emits (\<lambda>a. \<not> is_hold a) (coolingDownUntil E p)"
  "emits (\<lambda>a. \<not> is_hold a) (nodeDoNotDisrupt E k)" "emits (\<lambda>a. \<not> is_hold a) (nodeAlwaysOn E k)"
  "emits (\<lambda>a. \<not> is_hold a) (matchingPools E m)" "emits (\<lambda>a. \<not> is_hold a) (nodeEmpty E k)"
  "emits (\<lambda>a. \<not> is_hold a) (issueDrain E m p after)" "emits (\<lambda>a. \<not> is_hold a) (stampEmptySince E m)"
  "emits (\<lambda>a. \<not> is_hold a) (clearEmptySince E m)"
  unfolding scale_down_reads client_defs issueDrain_def stampScaleDown_def requestDrain_def stampEmptySince_def
    clearEmptySince_def
  by (auto intro!: emits_rules)

lemma hold_standDown: "wpm (standDown E m) mem (\<lambda>as r mem'. hold_step n mem as mem')"
  unfolding standDown_def by (intro hold_outside emits_rules no_hold_leaves)

lemma hold_trigger: "wpm (triggerScaleDown E m pool after) mem (\<lambda>as r mem'. hold_step m mem as mem')"
proof -
  have hold: "wpm (bind (announceHold m ty reasonScaleDownBlocked msg) (\<lambda>_. ret q)) mem
      (\<lambda>as r mem'. hold_step m mem as mem')" for ty msg q
    unfolding outside_ret by (rule hold_announce_outside) (simp_all add: reasonScaleDownBlocked_def reasonScaleDown_def emits_ret)
  show ?thesis
    unfolding triggerScaleDown_def Let_def
    by (intro hold_bind_outside no_hold_leaves wpm_case_prod wpm_if hold_ret hold hold_outside)
qed

lemma hold_timer: "wpm (emptyTimer E m pool after) mem (\<lambda>as r mem'. hold_step m mem as mem')"
  unfolding emptyTimer_def Let_def
  by (intro wpm_case_option hold_bind_outside hold_outside emits_rules no_hold_leaves wpm_if hold_ret hold_trigger)

lemma hold_policy: "wpm (applyPoolPolicy E m pools) mem (\<lambda>as r mem'. hold_step m mem as mem')"
proof -
  let ?pool = "case pools of [] \<Rightarrow> None | p # _ \<Rightarrow> Some p"
  have conflict: "wpm (bind (announceHold m ty reasonPoolConflict msg) (\<lambda>_. standDown E m)) mem
      (\<lambda>as r mem'. hold_step m mem as mem')" for ty msg
    unfolding standDown_def
    by (rule hold_announce_outside) (auto intro!: emits_rules no_hold_leaves simp: reasonPoolConflict_def reasonScaleDown_def)
  show ?thesis
    unfolding applyPoolPolicy_def Let_def
    by (cases ?pool; cases "consolidateAfter ?pool"; cases "snd (consolidateAfter ?pool)")
      (auto intro!: wpm_if hold_bind_outside emits_map_error no_hold_leaves hold_standDown hold_timer conflict)
qed

text \<open>One reconcile, wrapper included, when the API server answers with the Machine that was asked for.\<close>

definition announces :: "string \<Rightarrow> message \<Rightarrow> action list \<Rightarrow> bool" where
  "announces name msg as \<longleftrightarrow> (\<exists>ty reason. reason \<noteq> reasonScaleDown \<and> RecordEvent (MachineObj name) ty reason msg \<in> set as)"

definition answers_named :: "string \<Rightarrow> action list \<Rightarrow> bool" where
  "answers_named name as \<longleftrightarrow> (\<forall>m. GetMachine name (Inr m) \<in> set as \<longrightarrow> m_name m = name)"

fun names_itself :: "action \<Rightarrow> bool" where
  "names_itself (GetMachine n (Inr m)) \<longleftrightarrow> m_name m = n"
| "names_itself a = True"

lemma answers_namedI: "list_all names_itself as \<Longrightarrow> answers_named name as"
  by (force simp: answers_named_def list_all_iff)

lemma announces_filter:
  "announces name msg as \<longleftrightarrow> (\<exists>ty reason. RecordEvent (MachineObj name) ty reason msg \<in> set (filter is_hold as))"
  by (auto simp: announces_def)

lemma hold_pass:
  "wpm (scaleDownPass E name) mem (\<lambda>as r mem'. mem' = mem \<and> filter is_hold as = [] \<or>
     (\<exists>m. GetMachine name (Inr m) \<in> set as \<and> hold_step m mem as mem'))"
  unfolding scaleDownPass_def get_machine_def
proof (rule wpm_bind, rule wpm_outside, rule wp_attempt, rule wp_call, goal_cases)
  case (1 e)
  show ?case by (auto intro!: wpm_rules)
next
  case (2 m)
  let ?rest = "if state_of m \<noteq> Ready then standDown E m else if drainRequested m then ret NoRequeue
     else bind (outside (nodeDoNotDisrupt E (nodeName_of m))) (\<lambda>protected. if protected then standDown E m
       else bind (outside (nodeAlwaysOn E (nodeName_of m))) (\<lambda>alwaysOn. if alwaysOn then standDown E m
         else bind (outside (matchingPools E m)) (applyPoolPolicy E m)))"
  have "wpm ?rest mem (\<lambda>as r mem'. hold_step m mem as mem')"
    by (intro wpm_if hold_standDown hold_ret hold_bind_outside no_hold_leaves hold_policy)
  then have "wpm ?rest mem (\<lambda>as r mem'. hold_step m mem (GetMachine name (Inr m) # as) mem')"
    by (rule wpm_mono) (simp add: hold_step_app(1) [of "[GetMachine name (Inr m)]", simplified])
  then show ?case unfolding sum.case by (rule wpm_mono) auto
qed

lemma hold_reconcile:
  assumes "answers_named name (actions (scaleDownReconcile E name) (mem, w))" (is "answers_named _ ?as")
  defines "mem' \<equiv> memory (scaleDownReconcile E name) mem w"
  shows "announces k msg ?as \<Longrightarrow> k = name \<and> map_of (sd_holds mem) name \<noteq> Some msg \<and> map_of (sd_holds mem') name = Some msg"
    and "k \<noteq> name \<Longrightarrow> map_of (sd_holds mem') k = map_of (sd_holds mem) k"
proof -
  let ?mem0 = "mem\<lparr>sd_heldThisPass := False\<rparr>"
  have "wpm (scaleDownReconcile E name) mem (\<lambda>as r mem'. \<exists>mem1.
      mem' = (if sd_heldThisPass mem1 then mem1 else mem1\<lparr>sd_holds := AList.delete name (sd_holds mem1)\<rparr>) \<and>
      (mem1 = ?mem0 \<and> filter is_hold as = [] \<or> (\<exists>m. GetMachine name (Inr m) \<in> set as \<and> hold_step m ?mem0 as mem1)))"
    by (rule wpm_scaleDownReconcile, rule wpm_mono [OF hold_pass]) blast
  from wpmD [OF this, of w] obtain mem1 where
    mem': "mem' = (if sd_heldThisPass mem1 then mem1 else mem1\<lparr>sd_holds := AList.delete name (sd_holds mem1)\<rparr>)"
    and "mem1 = ?mem0 \<and> filter is_hold ?as = [] \<or> (\<exists>m. GetMachine name (Inr m) \<in> set ?as \<and> hold_step m ?mem0 ?as mem1)"
    unfolding mem'_def by blast
  moreover have "m_name m = name" if "GetMachine name (Inr m) \<in> set ?as" for m
    using assms(1) that by (simp add: answers_named_def)
  ultimately consider "mem1 = ?mem0" "filter is_hold ?as = []" | m where "hold_step m ?mem0 ?as mem1" "m_name m = name"
    by blast
  then consider (quiet) "mem1 = ?mem0" "filter is_hold ?as = []"
    | (known) "sd_heldThisPass mem1" "sd_holds mem1 = sd_holds mem" "filter is_hold ?as = []"
    | (new) msg' ty reason where "sd_heldThisPass mem1" "map_of (sd_holds mem) name \<noteq> Some msg'"
        "sd_holds mem1 = AList.update name msg' (sd_holds mem)" "filter is_hold ?as = [RecordEvent (MachineObj name) ty reason msg']"
    by cases (auto elim: hold_stepE)
  note steps = this
  show "k \<noteq> name \<Longrightarrow> map_of (sd_holds mem') k = map_of (sd_holds mem) k"
    and "announces k msg ?as \<Longrightarrow> k = name \<and> map_of (sd_holds mem) name \<noteq> Some msg \<and> map_of (sd_holds mem') name = Some msg"
    by (rule steps; simp add: mem' announces_filter update_conv delete_conv)+
qed

text \<open>The hold message of a Machine is a latch of its own.\<close>

interpretation hold: keyed_latch "scaleDownReconcile E" "\<lambda>mem. map_of (sd_holds mem) name" "announces name"
  answers_named name for E name
proof unfold_locales
  fix k mem w v
  assume ok: "answers_named k (actions (scaleDownReconcile E k) (mem, w))"
  show "announces name v (actions (scaleDownReconcile E k) (mem, w)) \<Longrightarrow> map_of (sd_holds mem) name \<noteq> Some v \<and>
      map_of (sd_holds (memory (scaleDownReconcile E k) mem w)) name = Some v"
    using hold_reconcile(1) [OF ok] by metis
  show "k \<noteq> name \<Longrightarrow> map_of (sd_holds (memory (scaleDownReconcile E k) mem w)) name = map_of (sd_holds mem) name"
    using hold_reconcile(2) [OF ok] by metis
qed

section \<open>Pod events\<close>

text \<open>What a Pod event says happened to the pods of the cluster. A pod that is bound to a node stays there: its
  \<^verbatim>\<open>spec.nodeName\<close> is immutable.\<close>

inductive pod_change :: "pod watch_event \<Rightarrow> pod list \<Rightarrow> pod list \<Rightarrow> bool" where
  created: "pod_change (CreateEvent p) (xs @ ys) (xs @ p # ys)"
| updated: "pod_nodeName p = [] \<or> pod_nodeName q = pod_nodeName p \<Longrightarrow>
    pod_change (UpdateEvent p q) (xs @ p # ys) (xs @ q # ys)"
| deleted: "pod_change (DeleteEvent p) (xs @ p # ys) (xs @ ys)"

inductive_cases pod_changeE: "pod_change ev before afterwards"

definition is_empty_node :: "string \<Rightarrow> pod list \<Rightarrow> bool" where
  "is_empty_node k pods \<longleftrightarrow> \<not> list_ex keepsNodeOn (filter (\<lambda>p. pod_nodeName p = k) pods)"

fun event_pod :: "pod watch_event \<Rightarrow> pod" where
  "event_pod (CreateEvent p) = p"
| "event_pod (UpdateEvent p q) = q"
| "event_pod (DeleteEvent p) = p"
| "event_pod (GenericEvent p) = p"

section \<open>Next steps\<close>

text \<open>What an idle Node gets: another look, the trigger, or an uncached listing that takes it back.\<close>

definition goes_on :: "machine \<Rightarrow> action list \<Rightarrow> go_error + requeue \<Rightarrow> bool" where
  "goes_on m as r \<longleftrightarrow> (\<forall>q. r = Inr q \<longrightarrow> (\<exists>d. q = RequeueAfter d \<and> second \<le> d) \<or>
     (\<exists>m'. PatchMachine m (drained m) (Inr m') \<in> set as) \<or>
     (\<exists>s members. ListMachinesMatching Fresh s (Inr members) \<in> set as \<and> \<not> stillIdle members (m_name m)))"

lemma goes_on_later: "goes_on m bs r \<Longrightarrow> goes_on m (as @ bs) r"
  unfolding goes_on_def set_append by blast

lemma goes_on_error [simp]: "goes_on m as (Inl e)"
  by (simp add: goes_on_def)

lemma goes_on_wait: "second \<le> d \<Longrightarrow> goes_on m as (Inr (RequeueAfter d))"
  by (simp add: goes_on_def)

lemma wpm_then_goes_on:
  assumes "\<And>v mem'. wpm (f v) mem' (\<lambda>as r _. goes_on m as r)"
  shows "wpm (bind p f) mem (\<lambda>as r _. goes_on m as r)"
  by (rule wpm_bind, rule wpm_any) (auto split: sum.splits intro: wpm_mono [OF assms] goes_on_later)

lemma wp_issueDrain_goes_on: "wp (issueDrain E m pool after) (goes_on m)"
  unfolding issueDrain_def stampScaleDown_def requestDrain_def client_defs
  by (auto intro!: wp_rules simp: goes_on_def drained_def)

lemma wpm_trigger_goes_on: "wpm (triggerScaleDown E m pool after) mem (\<lambda>as r _. goes_on m as r)"
  unfolding triggerScaleDown_def
proof (rule wpm_bind, rule wpm_outside, rule wp_freshPoolState, goal_cases)
  case (2 fresh members)
  have "wpm (bind (outside (coolingDownUntil E fresh)) (\<lambda>until.
      if \<not> is_zero_time until then
        bind (outside (now E)) (\<lambda>n. let wait = time_sub until n
          in ret (RequeueAfter (if wait < minConsolidateRequeue then minConsolidateRequeue else wait)))
      else (case poolScaleDownCounts members of (keptOn, scalingDown) \<Rightarrow>
        if keptOn \<le> floor then bind (announceHold m ty1 reason1 (msg1 keptOn)) (\<lambda>_. ret (RequeueAfter scaleDownBlockedRequeue))
        else if k \<le> scalingDown then bind (announceHold m ty2 reason2 (msg2 scalingDown)) (\<lambda>_. ret (RequeueAfter scaleDownBlockedRequeue))
        else outside (issueDrain E m fresh after)))) mem (\<lambda>as r _. goes_on m as r)" for floor k ty1 reason1 msg1 ty2 reason2 msg2
    unfolding Let_def
    by (intro wpm_then_goes_on wpm_if wpm_case_prod wpm_outside wpm_ret wp_issueDrain_goes_on goes_on_wait)
      (simp_all add: scaleDownBlockedRequeue_def minConsolidateRequeue_def second_def)
  note rest = this
  show ?case
    unfolding sum.case prod.case
    by (rule wpm_if, rule wpm_ret, force simp: goes_on_def, rule wpm_mono [OF rest], rule goes_on_later)
qed simp

lemma wpm_emptyTimer_next:
  "wpm (emptyTimer E m pool after) mem (\<lambda>as r _.
     st_emptySince (m_status m) = None \<and> (\<forall>q. r = Inr q \<longrightarrow> q = RequeueAfter after) \<or> goes_on m as r)"
  unfolding emptyTimer_def
proof (rule wpm_case_option, goal_cases)
  case 1
  then show ?case
    by (intro wpm_outside wp_bind_any) (auto intro!: wp_ret)
next
  case (2 t)
  have "wpm (bind (outside (since E t)) (\<lambda>elapsed.
      if elapsed < after then
        (let wait = dur_sub after elapsed
         in ret (RequeueAfter (if wait < minConsolidateRequeue then minConsolidateRequeue else wait)))
      else triggerScaleDown E m pool after)) mem (\<lambda>as r _. goes_on m as r)"
    unfolding Let_def
    by (intro wpm_then_goes_on wpm_if wpm_ret wpm_trigger_goes_on goes_on_wait) (simp_all add: minConsolidateRequeue_def)
  then show ?case by (rule wpm_mono) simp
qed

section \<open>Properties\<close>

text \<open>Scale-down asks to drain only an idle Machine. The Machine was read as Ready and not asked to drain
  already; its Node was not seen with do-not-disrupt nor always-on; exactly one pool selects it, with policy
  \<^verbatim>\<open>WhenEmpty\<close> and a window; no pod that keeps a node on was listed on the Node; and the clock is a
  full window past the timer of the Machine.\<close>

theorem drain_gate:
  assumes "PatchMachine m m' r \<in> set (actions (scaleDownReconcile E name) (mem, w))" (is "_ \<in> ?A")
  shows "m' = drained m \<and> (\<exists>pool. idle_for (env_lib E) name m pool ?A)"
  using assms
proof (rule drain_evidence)
  fix pool pools us vs zs
  assume as: "actions (scaleDownReconcile E name) (mem, w) = GetMachine name (Inr m) # us @ vs @ ListPools (Inr pools) # zs"
    and "state_of m = Ready" "\<not> drainRequested m" and "m' = drained m"
    and dnd: "node_answer (\<lambda>n. \<not> disruptionRefused n) (nodeName_of m) (set us)"
    and on: "node_answer (\<lambda>n. \<not> alwaysOnLabelled n) (nodeName_of m) (set vs)"
    and "poolsOf (env_lib E) pools m = [pool]" and timed: "timed_drain m pool zs"
  moreover have "node_answer (\<lambda>n. \<not> disruptionRefused n) (nodeName_of m) ?A"
    "node_answer (\<lambda>n. \<not> alwaysOnLabelled n) (nodeName_of m) ?A"
    unfolding as by (auto intro: node_answer_mono [OF dnd] node_answer_mono [OF on])
  moreover obtain after ys n t xs where "zs = ys @ ReadClock n # xs" "empty_seen (nodeName_of m) (set ys)"
    "consolidateAfter (Some pool) = (after, True)" "st_emptySince (m_status m) = Some t" "after \<le> time_sub n t"
    using timed unfolding timed_drain_def by blast
  ultimately show ?thesis
    unfolding idle_for_def as by (auto simp: consolidateAfter_enabled empty_seen_def)
qed

theorem drain_gate_witness:
  "PatchMachine idle_machine (drained idle_machine) (Inr (drained idle_machine))
     \<in> set (actions (scaleDownReconcile store_env ''m'') (no_memory, idle_world)) \<and>
   (\<exists>pool. idle_for store_lib ''m'' idle_machine pool
      (set (actions (scaleDownReconcile store_env ''m'') (no_memory, idle_world))))"
proof -
  have drain: "PatchMachine idle_machine (drained idle_machine) (Inr (drained idle_machine))
     \<in> set (actions (scaleDownReconcile store_env ''m'') (no_memory, idle_world))"
    by code_simp
  have lib: "env_lib store_env = store_lib" by (simp add: store_env_def)
  from drain_gate [OF drain] drain show ?thesis unfolding lib by blast
qed

text \<open>C14. A drain request keeps the pool's promises, on state read past the cache. The trigger is preceded by an
  uncached read of the pool and of its members, in which the Machine is Ready and not asked to drain, enough
  other members are kept on for the floor \<^verbatim>\<open>minNodes\<close>, fewer than \<^verbatim>\<open>maxConcurrent\<close> (1 by
  default) are on their way down, and the scale-down cooldown is over; the cooldown's anchor is stamped with the
  clock right before the trigger.\<close>

theorem drain_within_guards:
  assumes "PatchMachine m m' r \<in> set (actions (scaleDownReconcile E name) (mem, w))" (is "_ \<in> set ?acts")
  shows "\<exists>xs pools pool fresh members ys t p zs.
    ?acts = xs @ GetPool Fresh (pool_name pool) (Inr fresh) #
      ListMachinesMatching Fresh (ps_machineSelector (pool_spec fresh)) (Inr members) #
      ys @ ReadClock t # PatchPoolStatus fresh (down_stamped fresh t) (Inr p) # PatchMachine m m' r # zs \<and>
    ListPools (Inr pools) \<in> set xs \<and> poolsOf (env_lib E) pools m = [pool] \<and>
    stillIdle members (m_name m) \<and> room_to_drain fresh members \<and>
    lapsed (cool_scaleDown (ps_cooldown (pool_spec fresh))) (pst_lastScaleDownTime (pool_status fresh)) (set ys)"
  using assms
proof (rule drain_evidence)
  fix pool pools us vs zs
  assume as: "?acts = GetMachine name (Inr m) # us @ vs @ ListPools (Inr pools) # zs" and m': "m' = drained m"
    and reads: "list_all is_read (us @ vs)" and pools: "poolsOf (env_lib E) pools m = [pool]" and "timed_drain m pool zs"
  then obtain ys n ds where zs: "zs = ys @ ReadClock n # ds" "list_all is_read ys" and "drain_of pool m ds"
    unfolding timed_drain_def by blast
  then obtain fresh members cs t p r' es where ds: "ds = GetPool Fresh (pool_name pool) (Inr fresh) #
      ListMachinesMatching Fresh (ps_machineSelector (pool_spec fresh)) (Inr members) #
      cs @ ReadClock t # PatchPoolStatus fresh (down_stamped fresh t) (Inr p) # PatchMachine m (drained m) r' # es"
    and "list_all is_read cs" "list_all is_report es"
    and ok: "stillIdle members (m_name m)" "room_to_drain fresh members"
      "lapsed (cool_scaleDown (ps_cooldown (pool_spec fresh))) (pst_lastScaleDownTime (pool_status fresh)) (set cs)"
    unfolding drain_of_def by blast
  then have "r' = r"
    using assms no_patch_in_reads [of _ m m' r] reads zs(2) unfolding as zs(1) ds by auto
  let ?xs = "GetMachine name (Inr m) # us @ vs @ ListPools (Inr pools) # ys @ [ReadClock n]"
  have "?acts = ?xs @ ds" unfolding as zs by simp
  moreover have "ListPools (Inr pools) \<in> set ?xs" by simp
  ultimately show ?thesis using pools ok m' \<open>r' = r\<close> unfolding ds by blast
qed


theorem drain_within_guards_witness:
  "\<exists>fresh members. room_to_drain fresh members \<and> stillIdle members ''m'' \<and>
     ListMachinesMatching Fresh (ps_machineSelector (pool_spec fresh)) (Inr members)
       \<in> set (actions (scaleDownReconcile store_env ''m'') (no_memory, idle_world))"
proof -
  have drain: "PatchMachine idle_machine (drained idle_machine) (Inr (drained idle_machine))
     \<in> set (actions (scaleDownReconcile store_env ''m'') (no_memory, idle_world))"
    by code_simp
  have name: "m_name idle_machine = ''m''" by code_simp
  from drain_within_guards [OF drain] show ?thesis unfolding name by (elim exE conjE) fastforce
qed

text \<open>Scale-down selects and does nothing else. Every write of a reconcile sets or clears the empty timer of a
  Machine, stamps the scale-down time of a pool, or adds the drain-now trigger; it evicts nothing, cordons
  nothing and powers nothing off; and it sets at most one trigger.\<close>

theorem scaledown_selects_only:
  "list_all scale_down_write (actions (scaleDownReconcile E name) (mem, w)) \<and>
   length (filter is_drain (actions (scaleDownReconcile E name) (mem, w))) \<le> 1"
proof
  show "list_all scale_down_write (actions (scaleDownReconcile E name) (mem, w))"
    by (rule emitsD [OF writes_scaleDownReconcile])
  have quiet: "filter is_drain as = []" if "no_drain as" for as
    using that by (simp add: no_drain_def list_all_iff filter_empty_conv)
  show "length (filter is_drain (actions (scaleDownReconcile E name) (mem, w))) \<le> 1"
    using wpmD [OF wpm_scaleDownReconcile [OF wpm_scaleDownPass], of E name mem w]
    by (auto simp: quiet reads_no_drain timed_drain_def drain_of_once)
qed


text \<open>C35. A persisting hold is announced once. Over any sequence of reconciles, with anything happening between
  them, if the same hold message is announced twice for a Machine then some reconcile of the Machine between the two
  did not end in that hold. (The API server answers a Get with the Machine of that name.)\<close>

theorem hold_announced_once:
  assumes "runs (scaleDownReconcile E) reqs mem = pre @ (name, as1, mem1) # mid @ (name, as2, mem2) # post"
    and "\<forall>(n, as, mem')\<in>set (runs (scaleDownReconcile E) reqs mem). answers_named n as"
    and "announces name msg as1" and "announces name msg as2"
  shows "\<exists>(n, as, mem')\<in>set mid. n = name \<and> map_of (sd_holds mem') name \<noteq> Some msg"
  using assms by (rule hold.released_by_own)

theorem hold_announced_once_witness:
  "\<exists>as1 mem1 mid as2 mem2. runs (scaleDownReconcile store_env) [(''m'', floor_world), (''m'', busy_world), (''m'', floor_world)] no_memory =
     (''m'', as1, mem1) # mid @ [(''m'', as2, mem2)] \<and> announces ''m'' floor_message as1 \<and> announces ''m'' floor_message as2 \<and>
     (\<exists>(n, as, mem')\<in>set mid. n = ''m'' \<and> map_of (sd_holds mem') ''m'' \<noteq> Some floor_message)"
proof -
  let ?R = "scaleDownReconcile store_env ''m''"
  define mem1 where "mem1 = memory ?R no_memory floor_world"
  define mem2 where "mem2 = memory ?R mem1 busy_world"
  define mem3 where "mem3 = memory ?R mem2 floor_world"
  define as1 where "as1 = actions ?R (no_memory, floor_world)"
  define as2 where "as2 = actions ?R (mem1, busy_world)"
  define as3 where "as3 = actions ?R (mem2, floor_world)"
  have runs: "runs (scaleDownReconcile store_env) [(''m'', floor_world), (''m'', busy_world), (''m'', floor_world)] no_memory =
      [] @ (''m'', as1, mem1) # [(''m'', as2, mem2)] @ (''m'', as3, mem3) # []"
    by (simp add: Let_def mem1_def mem2_def mem3_def as1_def as2_def as3_def)
  have announced: "announces ''m'' floor_message as1" "announces ''m'' floor_message as3"
    unfolding announces_def as1_def as3_def mem1_def mem2_def
    by (rule exI [of _ Normal], rule exI [of _ reasonScaleDownBlocked], code_simp)+
  have named: "answers_named ''m'' as1" "answers_named ''m'' as2" "answers_named ''m'' as3"
    unfolding as1_def as2_def as3_def mem1_def mem2_def by (rule answers_namedI, code_simp)+
  have "\<exists>(n, as, mem')\<in>set [(''m'', as2, mem2)]. n = ''m'' \<and> map_of (sd_holds mem') ''m'' \<noteq> Some floor_message"
    by (rule hold_announced_once [OF runs _ announced], unfold runs) (use named in simp)
  with announced show ?thesis unfolding runs by fastforce
qed

text \<open>No change of emptiness is missed. Whenever what happened to a pod makes a Node empty or not empty, the
  event passes the predicate of the pod watch, and the mapper enqueues the Machines of that Node.\<close>

theorem emptiness_changes_admitted:
  assumes "pod_change ev before afterwards" and "k \<noteq> []"
    and "is_empty_node k before \<noteq> is_empty_node k afterwards"
  shows "podEmptinessPredicate ev \<and> machinesForPod E (event_pod ev) = requestsForMachinesOnNode E k"
  using assms by (cases rule: pod_change.cases) (auto simp: is_empty_node_def machinesForPod_def split: if_splits)

theorem emptiness_changes_admitted_witness:
  "podEmptinessPredicate (DeleteEvent (sample_pod ''p'' ''n'')) \<and>
   machinesForPod store_env (sample_pod ''p'' ''n'') = requestsForMachinesOnNode store_env ''n''"
proof -
  let ?p = "sample_pod ''p'' ''n''"
  have change: "pod_change (DeleteEvent ?p) [?p] []" using deleted [of ?p "[]" "[]"] by simp
  have flips: "is_empty_node ''n'' [?p] \<noteq> is_empty_node ''n'' []" by code_simp
  from emptiness_changes_admitted [OF change _ flips, of store_env] show ?thesis by simp
qed

text \<open>An idle Node is not forgotten. When the timer of an empty Node is looked at and no call fails, the
  reconcile asks to run again, after at least a second (after the whole window when the timer starts), or it sets
  the drain trigger, or the uncached listing says that the Machine is no longer there to drain.\<close>

theorem idle_node_rechecked:
  assumes "result (emptyTimer E m pool after) (mem, w) = Inr q"
  shows "st_emptySince (m_status m) = None \<and> q = RequeueAfter after \<or> (\<exists>d. q = RequeueAfter d \<and> second \<le> d) \<or>
    (\<exists>m'. PatchMachine m (drained m) (Inr m') \<in> set (actions (emptyTimer E m pool after) (mem, w))) \<or>
    (\<exists>s members. ListMachinesMatching Fresh s (Inr members) \<in> set (actions (emptyTimer E m pool after) (mem, w)) \<and>
       \<not> stillIdle members (m_name m))"
  using wpmD [OF wpm_emptyTimer_next [of E m pool after mem], of w] assms by (auto simp: goes_on_def)


theorem idle_node_rechecked_witness:
  "result (emptyTimer store_env idle_machine (sample_pool ''a'' True) 100) (no_memory, idle_world) = Inr (RequeueAfter second) \<and>
   (\<exists>d. RequeueAfter second = RequeueAfter d \<and> second \<le> d)"
proof -
  have res: "result (emptyTimer store_env idle_machine (sample_pool ''a'' True) 100) (no_memory, idle_world) =
      Inr (RequeueAfter second)"
    by code_simp
  from idle_node_rechecked [OF res] res show ?thesis by simp
qed

end
