(* ===== verification/Go_Text.thy ===== *)
theory Go_Text
  imports Api_Types
begin

text \<open>
  The functions of Go's \<^verbatim>\<open>strings\<close>, \<^verbatim>\<open>strconv\<close>, \<^verbatim>\<open>bufio\<close> and
  \<^verbatim>\<open>time\<close> packages that the program calls on text: trimming, fields, lines, lower case, decimal
  integers. They are exact on ASCII text, which is what the program reads with them (\<^verbatim>\<open>/proc/stat\<close>,
  flags, URLs, tokens); Go also knows space and case beyond ASCII.
\<close>

section \<open>Characters\<close>

definition newline :: char where
  "newline = CHR 0x0A"

definition is_space :: "char \<Rightarrow> bool" where
  "is_space c \<longleftrightarrow> c \<in> {CHR 0x09, CHR 0x0A, CHR 0x0B, CHR 0x0C, CHR 0x0D, CHR '' ''}"

definition is_digit :: "char \<Rightarrow> bool" where
  "is_digit c \<longleftrightarrow> 48 \<le> (of_char c :: nat) \<and> (of_char c :: nat) \<le> 57"

definition digit_value :: "char \<Rightarrow> nat" where
  "digit_value c = of_char c - 48"

definition lower :: "char \<Rightarrow> char" where
  "lower c = (if 65 \<le> (of_char c :: nat) \<and> (of_char c :: nat) \<le> 90 then char_of ((of_char c :: nat) + 32) else c)"

section \<open>Strings\<close>

definition ToLower :: "string \<Rightarrow> string" where
  "ToLower s = map lower s"

definition TrimSpace :: "string \<Rightarrow> string" where
  "TrimSpace s = rev (dropWhile is_space (rev (dropWhile is_space s)))"

definition TrimRight :: "string \<Rightarrow> string \<Rightarrow> string" where
  "TrimRight s cutset = rev (dropWhile (\<lambda>c. c \<in> set cutset) (rev s))"

function Fields :: "string \<Rightarrow> string list" where
  "Fields s =
     (let t = dropWhile is_space s
      in if t = [] then []
         else takeWhile (\<lambda>c. \<not> is_space c) t # Fields (dropWhile (\<lambda>c. \<not> is_space c) t))"
  by pat_completeness auto

termination Fields
proof (relation "measure length", goal_cases)
  case (2 s t)
  then obtain c cs where t: "t = c # cs" by (meson neq_Nil_conv)
  then have "\<not> is_space c" using 2 hd_dropWhile [of is_space s] by (metis list.sel(1))
  moreover have "length (dropWhile (\<lambda>c. \<not> is_space c) cs) \<le> length cs" by (rule length_dropWhile_le)
  moreover have "length t \<le> length s" using 2(1) by (simp add: length_dropWhile_le)
  ultimately show ?case using t by simp
qed simp

declare Fields.simps [simp del]

text \<open>The tokens of a \<^verbatim>\<open>bufio.Scanner\<close> that splits lines, before it drops a trailing carriage return.
  A token of 64 KiB or more stops the scanner with an error.\<close>

function lines :: "string \<Rightarrow> string list" where
  "lines s =
     (if s = [] then []
      else takeWhile (\<lambda>c. c \<noteq> newline) s # lines (drop 1 (dropWhile (\<lambda>c. c \<noteq> newline) s)))"
  by pat_completeness auto

termination lines
proof (relation "measure length", goal_cases)
  case (2 s)
  have "length (dropWhile (\<lambda>c. c \<noteq> newline) s) \<le> length s" by (rule length_dropWhile_le)
  moreover have "0 < length s" using 2 by simp
  ultimately show ?case unfolding in_measure length_drop by linarith
qed simp

declare lines.simps [simp del]

definition maxScanLine :: nat where
  "maxScanLine = 65535"

definition dropCR :: "string \<Rightarrow> string" where
  "dropCR s = (if s \<noteq> [] \<and> last s = CHR 0x0D then butlast s else s)"

definition ErrTooLong :: go_error where
  "ErrTooLong = Errorf ''bufio.Scanner: token too long'' []"

section \<open>Decimal integers\<close>

definition syntaxError :: "string \<Rightarrow> go_error" where
  "syntaxError s = Errorf ''strconv.ParseInt: parsing %q: invalid syntax'' [TQuoted s]"

definition rangeError :: "string \<Rightarrow> go_error" where
  "rangeError s = Errorf ''strconv.ParseInt: parsing %q: value out of range'' [TQuoted s]"

text \<open>The loop of \<^verbatim>\<open>strconv.ParseUint\<close> in base 10: \<open>Inl True\<close> is a syntax error, \<open>Inl False\<close> an
  overflow of 64 bits.\<close>

fun parseDigits :: "string \<Rightarrow> nat \<Rightarrow> bool + nat" where
  "parseDigits [] n = Inr n"
| "parseDigits (c # cs) n =
     (if \<not> is_digit c then Inl True
      else if 2 ^ 64 \<le> 10 * n + digit_value c then Inl False
      else parseDigits cs (10 * n + digit_value c))"

definition ParseInt :: "string \<Rightarrow> go_error + int" where
  "ParseInt s =
     (if s = [] then Inl (syntaxError s)
      else (let neg = (hd s = CHR ''-'');
                body = (if hd s = CHR ''+'' \<or> hd s = CHR ''-'' then tl s else s)
            in if body = [] then Inl (syntaxError s)
               else (case parseDigits body 0 of
                       Inl True \<Rightarrow> Inl (syntaxError s)
                     | Inl False \<Rightarrow> Inl (rangeError s)
                     | Inr un \<Rightarrow>
                         if \<not> neg \<and> 2 ^ 63 \<le> un \<or> neg \<and> 2 ^ 63 < un then Inl (rangeError s)
                         else Inr (if neg then - int un else int un))))"

text \<open>The decimal digits of a number, as \<^verbatim>\<open>strconv.Itoa\<close> and the kernel print it.\<close>

function decimal :: "nat \<Rightarrow> string" where
  "decimal n = (if n < 10 then [char_of (48 + n)] else decimal (n div 10) @ [char_of (48 + n mod 10)])"
  by pat_completeness auto

termination decimal by (relation "measure id") auto

declare decimal.simps [simp del]

section \<open>Instants\<close>

text \<open>\<^verbatim>\<open>time.Unix(secs, 0)\<close>: seconds since 1970 as nanoseconds since the zero time. The shift of the epoch
  wraps around in 64 bits.\<close>

definition unixEpoch :: int where
  "unixEpoch = 62135596800"

definition Unix :: "int \<Rightarrow> time" where
  "Unix secs = wrap64 (secs + unixEpoch) * second"

section \<open>Facts\<close>

lemma is_digit_char_of: "d < 10 \<Longrightarrow> is_digit (char_of (48 + d)) \<and> digit_value (char_of (48 + d)) = d"
  by (simp add: is_digit_def digit_value_def)

lemma digit_not_space: "is_digit c \<Longrightarrow> \<not> is_space c"
  by (auto simp: is_digit_def is_space_def)

lemma digit_not_sign: "is_digit c \<Longrightarrow> c \<noteq> CHR ''-'' \<and> c \<noteq> CHR ''+''"
  by (auto simp: is_digit_def)

lemma decimal_digits: "c \<in> set (decimal n) \<Longrightarrow> is_digit c"
proof (induction n rule: decimal.induct)
  case (1 n)
  then show ?case
    using is_digit_char_of [of n] is_digit_char_of [of "n mod 10"]
    by (subst (asm) (2) decimal.simps) (auto split: if_splits)
qed

lemma decimal_nonempty [simp]: "decimal n \<noteq> []"
  by (subst decimal.simps) simp

lemma length_decimal: "n < 10 ^ k \<Longrightarrow> 0 < k \<Longrightarrow> length (decimal n) \<le> k"
proof (induction k arbitrary: n)
  case (Suc k)
  show ?case
  proof (cases "n < 10")
    case False
    with Suc.prems have "0 < k" "n div 10 < 10 ^ k" by (cases k; simp)+
    with Suc.IH False show ?thesis by (subst decimal.simps) simp
  qed (simp add: decimal.simps)
qed simp

lemma parseDigits_app:
  assumes "\<forall>c\<in>set xs. is_digit c" and "parseDigits xs m = Inr k"
  shows "parseDigits (xs @ ys) m = parseDigits ys k"
  using assms by (induction xs m rule: parseDigits.induct) (auto split: if_splits)

lemma parseDigits_decimal: "n < 2 ^ 64 \<Longrightarrow> parseDigits (decimal n) 0 = Inr n"
proof (induction n rule: decimal.induct)
  case (1 n)
  note digit = is_digit_char_of [of n] is_digit_char_of [of "n mod 10"]
  show ?case
  proof (cases "n < 10")
    case True
    then show ?thesis using digit 1(2) by (subst decimal.simps) simp
  next
    case False
    with 1 have "parseDigits (decimal (n div 10)) 0 = Inr (n div 10)" by simp
    then have "parseDigits (decimal (n div 10) @ [char_of (48 + n mod 10)]) 0 = parseDigits [char_of (48 + n mod 10)] (n div 10)"
      using decimal_digits by (intro parseDigits_app) auto
    also have "\<dots> = Inr n" using digit 1(2) by simp
    finally show ?thesis using False by (subst decimal.simps) simp
  qed
qed

text \<open>Printing and parsing a number is the identity up to the width of \<open>int64\<close>.\<close>

lemma ParseInt_decimal: "n < 2 ^ 63 \<Longrightarrow> ParseInt (decimal n) = Inr (int n)"
proof -
  assume n: "n < 2 ^ 63"
  have "is_digit (hd (decimal n))" by (rule decimal_digits [of _ n]) simp
  with n show ?thesis
    by (simp add: ParseInt_def Let_def digit_not_sign parseDigits_decimal)
qed

lemma Fields_skip: "is_space c \<Longrightarrow> Fields (c # s) = Fields s"
  by (subst (1 2) Fields.simps) simp

lemma Fields_word:
  assumes "x \<noteq> []" and "\<forall>c\<in>set x. \<not> is_space c" and "s = [] \<or> is_space (hd s)"
  shows "Fields (x @ s) = x # Fields s"
proof -
  have "dropWhile is_space (x @ s) = x @ s" using assms(1,2) by (cases x) auto
  moreover have "takeWhile (\<lambda>c. \<not> is_space c) (x @ s) = x" "dropWhile (\<lambda>c. \<not> is_space c) (x @ s) = s"
    using assms by (auto simp: takeWhile_append dropWhile_append takeWhile_eq_Nil_iff dropWhile_eq_Nil_conv) (cases s; auto)+
  ultimately show ?thesis using assms(1) by (subst Fields.simps) simp
qed

lemma Fields_nil [simp]: "Fields [] = []"
  by (simp add: Fields.simps)

lemma lines_nil [simp]: "lines [] = []"
  by (simp add: lines.simps)

lemma lines_cons: "newline \<notin> set l \<Longrightarrow> lines (l @ newline # s) = l # lines s"
proof -
  assume l: "newline \<notin> set l"
  have "takeWhile (\<lambda>c. c \<noteq> newline) (l @ newline # s) = l" "dropWhile (\<lambda>c. c \<noteq> newline) (l @ newline # s) = newline # s"
    using l by (induction l) auto
  then show ?thesis by (subst lines.simps) simp
qed

end
