(* ===== verification/Shutdown_Agent.thy ===== *)
theory Shutdown_Agent
  imports Cluster Go_Text Process_Memory
begin

text \<open>
  \<^verbatim>\<open>internal/shutdownagent\<close>: the agent on a node that powers its host off when the Machine of the
  node is ShuttingDown (\<^verbatim>\<open>reconciler.go\<close>), and the boot time of the host (\<^verbatim>\<open>boottime.go\<close>).
  The fields \<^verbatim>\<open>issued\<close> and \<^verbatim>\<open>issuedFor\<close> are the memory of the process. The power-off command, the
  file \<^verbatim>\<open>/proc/stat\<close> and the client are parameters.
\<close>

section \<open>Boot time\<close>

text \<open>The loop over the lines of \<^verbatim>\<open>/proc/stat\<close>; \<open>failed\<close> is the error that ended the reading, if any.\<close>

fun scanBootTime :: "string list \<Rightarrow> go_error option \<Rightarrow> go_error + time" where
  "scanBootTime [] failed =
     (case failed of Some e \<Rightarrow> Inl e | None \<Rightarrow> Inl (Errorf ''no btime line in /proc/stat'' []))"
| "scanBootTime (line # rest) failed =
     (if maxScanLine < length line then Inl ErrTooLong
      else (case Fields (dropCR line) of
              [key, value] \<Rightarrow>
                if key \<noteq> ''btime'' then scanBootTime rest failed
                else (case ParseInt value of
                        Inl e \<Rightarrow> Inl (Wrapf ''parse btime %q: %w'' [TQuoted value] e)
                      | Inr secs \<Rightarrow> Inr (Unix secs))
            | _ \<Rightarrow> scanBootTime rest failed))"

definition parseBootTime :: "string \<Rightarrow> go_error option \<Rightarrow> go_error + time" where
  "parseBootTime content failed = scanBootTime (lines content) failed"

definition HostBootTime :: "('w \<Rightarrow> (go_error + string \<times> go_error option) \<times> 'w) \<Rightarrow> 'w \<Rightarrow> (go_error + time) \<times> 'w" where
  "HostBootTime open w =
     (case open w of
        (Inl e, w') \<Rightarrow> (Inl e, w')
      | (Inr (content, failed), w') \<Rightarrow> (parseBootTime content failed, w'))"

section \<open>The power-off command\<close>

definition SystemctlPowerOff ::
  "(string \<Rightarrow> string list \<Rightarrow> 'w \<Rightarrow> (string \<times> go_error option) \<times> 'w) \<Rightarrow> 'w \<Rightarrow> (go_error + unit) \<times> 'w" where
  "SystemctlPowerOff exec w =
     (case exec ''nsenter'' [''--target'', ''1'', ''--mount'', ''--uts'', ''--ipc'', ''--net'', ''--pid'',
        ''--'', ''systemctl'', ''poweroff''] w of
        ((out, Some e), w') \<Rightarrow> (Inl (Wrapf ''nsenter systemctl poweroff: %w: %s'' [TStr out] e), w')
      | ((out, None), w') \<Rightarrow> (Inr (), w'))"

section \<open>The reconciler\<close>

definition reasonPoweringOff :: string where
  "reasonPoweringOff = ''PoweringOff''"

definition reasonPowerOffSkipped :: string where
  "reasonPowerOffSkipped = ''PowerOffSkipped''"

definition reasonPowerOffFailed :: string where
  "reasonPowerOffFailed = ''PowerOffFailed''"

record 'w shutdown_reconciler =
  sr_env :: "'w env"
  sr_NodeName :: string
  sr_PowerOff :: "'w \<Rightarrow> (go_error + unit) \<times> 'w"
  sr_Recorder :: bool
  sr_BootTime :: "('w \<Rightarrow> (go_error + time) \<times> 'w) option"

record shutdown_memory =
  sm_issued :: bool
  sm_issuedFor :: time

type_synonym ('w, 'a) shutdown = "(shutdown_memory, 'w, action, go_error, 'a) mprog"

definition shutdownEpisode :: "machine \<Rightarrow> time" where
  "shutdownEpisode m = (case st_shutdownStartTime (m_status m) of None \<Rightarrow> 0 | Some t \<Rightarrow> t)"

definition bootedAfter :: "'w shutdown_reconciler \<Rightarrow> time \<Rightarrow> ('w, bool) go" where
  "bootedAfter R episode =
     (case sr_BootTime R of
        None \<Rightarrow> ret False
      | Some bootTime \<Rightarrow>
          if is_zero_time episode then ret False
          else bind (attempt (call bootTime ReadBootTime)) (\<lambda>r. case r of
                 Inl e \<Rightarrow> ret False
               | Inr booted \<Rightarrow> ret (episode < booted)))"

text \<open>A nil recorder disables Events.\<close>

definition report :: "'w shutdown_reconciler \<Rightarrow> machine \<Rightarrow> event_type \<Rightarrow> string \<Rightarrow> message \<Rightarrow> ('w, unit) go" where
  "report R m ty reason msg =
     (if sr_Recorder R then event (MachineObj (m_name m)) ty reason msg else ret ())"

definition remember_issued :: "time \<Rightarrow> ('w, unit) shutdown" where
  "remember_issued episode = remember (\<lambda>s. s\<lparr>sm_issued := True, sm_issuedFor := episode\<rparr>)"

text \<open>The last part of \<^verbatim>\<open>Reconcile\<close>: the power-off itself.\<close>

definition powerHostOff :: "'w shutdown_reconciler \<Rightarrow> machine \<Rightarrow> time \<Rightarrow> ('w, requeue) shutdown" where
  "powerHostOff R m episode =
     bind (outside (attempt (call (sr_PowerOff R) PowerOffHost))) (\<lambda>r. case r of
       Inl e \<Rightarrow>
         bind (outside (report R m Warning reasonPowerOffFailed
                 (MsgErr ''power-off on node %q failed: %v'' [TQuoted (sr_NodeName R)] e))) (\<lambda>_.
         throw (Wrapf ''power off node %q: %w'' [TQuoted (sr_NodeName R)] e))
     | Inr _ \<Rightarrow>
         bind (remember_issued episode) (\<lambda>_.
         bind (outside (report R m Normal reasonPoweringOff
                 (Msg ''issued graceful power-off on node %q'' [TQuoted (sr_NodeName R)]))) (\<lambda>_.
         ret NoRequeue)))"

definition delegatesShutdown :: "machine \<Rightarrow> bool" where
  "delegatesShutdown m =
     (case spec_shutdown (m_spec m) of
        None \<Rightarrow> False
      | Some s \<Rightarrow> shutdown_provider s \<noteq> [] \<and> shutdown_provider s \<noteq> ShutdownProviderAgent)"

definition shutdownReconcile :: "'w shutdown_reconciler \<Rightarrow> string \<Rightarrow> ('w, requeue) shutdown" where
  "shutdownReconcile R name =
     bind (outside (attempt (get_machine (sr_env R) name))) (\<lambda>r. case r of
       Inl e \<Rightarrow> if is_not_found e then ret NoRequeue else throw e
     | Inr m \<Rightarrow>
         if nodeName_of m \<noteq> sr_NodeName R then ret NoRequeue
         else if state_of m \<noteq> ShuttingDown then ret NoRequeue
         else if delegatesShutdown m then ret NoRequeue
         else (let episode = shutdownEpisode m in
           bind recall (\<lambda>s.
           if sm_issued s \<and> sm_issuedFor s = episode then ret NoRequeue
           else bind (outside (bootedAfter R episode)) (\<lambda>booted.
             if booted then
               bind (remember_issued episode) (\<lambda>_.
               bind (outside (report R m Warning reasonPowerOffSkipped
                       (Msg ''node %q booted after the power-off requested at %s; not powering it off again''
                         [TQuoted (sr_NodeName R), TTime episode]))) (\<lambda>_.
               ret NoRequeue))
             else powerHostOff R m episode))))"

text \<open>The watch is filtered to the Machine of the node.\<close>

definition ownNode :: "'w shutdown_reconciler \<Rightarrow> machine \<Rightarrow> bool" where
  "ownNode R m \<longleftrightarrow> nodeName_of m = sr_NodeName R"

end
