(* ===== verification/Shutdown_Safety.thy ===== *)
theory Shutdown_Safety
  imports Shutdown_Agent Reference_Store
begin

text \<open>
  When the shutdown agent powers its host off: only for the Machine of its own node in ShuttingDown, not after the
  host came back up, once per shutdown episode, and again after a failure; and that the boot time it relies on is
  the one that \<^verbatim>\<open>/proc/stat\<close> reports.
\<close>

section \<open>Traces\<close>

fun is_power_cut :: "action \<Rightarrow> bool" where
  "is_power_cut (PowerOffHost r) = True"
| "is_power_cut _ = False"

text \<open>Did the host boot after the episode? \<open>bs\<close> are the interactions of a check that said no.\<close>

definition not_rebooted :: "'w shutdown_reconciler \<Rightarrow> time \<Rightarrow> action list \<Rightarrow> bool" where
  "not_rebooted R episode bs \<longleftrightarrow> bs = [] \<and> (sr_BootTime R = None \<or> episode = 0) \<or>
     (\<exists>r. bs = [ReadBootTime r] \<and> (\<forall>booted. r = Inr booted \<longrightarrow> booted \<le> episode))"

definition issued_for :: "shutdown_memory \<Rightarrow> time option" where
  "issued_for mem = (if sm_issued mem then Some (sm_issuedFor mem) else None)"

definition power_cut ::
  "'w shutdown_reconciler \<Rightarrow> string \<Rightarrow> shutdown_memory \<Rightarrow> action list \<Rightarrow> go_error + requeue \<Rightarrow> shutdown_memory \<Rightarrow> bool" where
  "power_cut R name mem as res mem' \<longleftrightarrow> (\<exists>m bs r zs.
     as = GetMachine name (Inr m) # bs @ PowerOffHost r # zs \<and> not_rebooted R (shutdownEpisode m) bs \<and>
     list_all is_report zs \<and> nodeName_of m = sr_NodeName R \<and> state_of m = ShuttingDown \<and> \<not> delegatesShutdown m \<and>
     issued_for mem \<noteq> Some (shutdownEpisode m) \<and>
     (case r of
        Inl e \<Rightarrow> mem' = mem \<and> res = Inl (Wrapf ''power off node %q: %w'' [TQuoted (sr_NodeName R)] e)
      | Inr _ \<Rightarrow> issued_for mem' = Some (shutdownEpisode m)))"

section \<open>Samples\<close>

definition stopping :: "time \<Rightarrow> machine" where
  "stopping t = update_status (\<lambda>s. s\<lparr>st_shutdownStartTime := Some t\<rparr>) (sample_machine ''m'' ''n'' ShuttingDown)"

definition agent_world :: "time \<Rightarrow> world" where
  "agent_world t = (empty_world 1000)\<lparr>w_machines := [stopping t]\<rparr>"

definition sample_agent :: "(go_error + unit) \<Rightarrow> world shutdown_reconciler" where
  "sample_agent r = \<lparr>sr_env = store_env, sr_NodeName = ''n'', sr_PowerOff = (\<lambda>w. (r, w)), sr_Recorder = True,
     sr_BootTime = Some (\<lambda>w. (Inr 50, w))\<rparr>"

definition fresh_agent :: shutdown_memory where
  "fresh_agent = \<lparr>sm_issued = False, sm_issuedFor = 0\<rparr>"

section \<open>Contracts\<close>

lemma wp_bootedAfter:
  "wp (bootedAfter R episode) (\<lambda>as r. (\<exists>b. r = Inr b \<and> (\<not> b \<longrightarrow> not_rebooted R episode as)) \<and>
     filter is_power_cut as = [])"
proof (cases "sr_BootTime R")
  case (Some bootTime)
  show ?thesis
    unfolding bootedAfter_def Some option.case
    by (rule wp_if, rule wp_ret, simp add: not_rebooted_def is_zero_time_def)
      (auto intro!: wp_bind wp_attempt wp_call wp_ret simp: not_rebooted_def)
qed (auto simp: bootedAfter_def not_rebooted_def intro!: wp_ret exI [of _ False])

lemma wp_report:
  assumes "\<And>as. list_all is_report as \<Longrightarrow> Q as (Inr ())"
  shows "wp (report R m ty reason msg) Q"
  unfolding report_def event_def using assms by (auto intro!: wp_rules)

lemma reports_no_cut: "list_all is_report as \<Longrightarrow> filter is_power_cut as = []"
proof -
  have "\<not> is_power_cut a" if "is_report a" for a using that by (cases a) auto
  then show "list_all is_report as \<Longrightarrow> filter is_power_cut as = []"
    by (auto simp: list_all_iff filter_empty_conv)
qed

lemma wpm_powerHostOff:
  "wpm (powerHostOff R m episode) mem (\<lambda>as res mem'. \<exists>r zs. as = PowerOffHost r # zs \<and> list_all is_report zs \<and>
     (case r of
        Inl e \<Rightarrow> mem' = mem \<and> res = Inl (Wrapf ''power off node %q: %w'' [TQuoted (sr_NodeName R)] e)
      | Inr _ \<Rightarrow> issued_for mem' = Some episode))"
  unfolding powerHostOff_def remember_issued_def
  by (auto intro!: wpm_rules wp_attempt wp_call wp_report simp: issued_for_def)

lemma wpm_shutdownReconcile:
  "wpm (shutdownReconcile R name) mem (\<lambda>as res mem'. filter is_power_cut as = [] \<or> power_cut R name mem as res mem')"
  unfolding shutdownReconcile_def get_machine_def
proof (rule wpm_bind, rule wpm_outside, rule wp_attempt, rule wp_call, goal_cases)
  case (1 e)
  show ?case by (auto intro!: wpm_rules)
next
  case (2 m)
  let ?e = "shutdownEpisode m"
  let ?G = "\<lambda>as res mem'. filter is_power_cut (GetMachine name (Inr m) # as) = [] \<or>
    power_cut R name mem (GetMachine name (Inr m) # as) res mem'"
  have cut: "wpm (bind (outside (bootedAfter R ?e)) (\<lambda>booted.
      if booted then bind (remember_issued ?e) (\<lambda>_. bind (outside (report R m ty reason msg)) (\<lambda>_. ret q))
      else powerHostOff R m ?e)) mem ?G"
    if "nodeName_of m = sr_NodeName R" "state_of m = ShuttingDown" "\<not> delegatesShutdown m" "issued_for mem \<noteq> Some ?e"
    for ty reason msg q
  proof (rule wpm_bind, rule wpm_outside, rule wp_mono [OF wp_bootedAfter], goal_cases)
    case (1 bs r)
    then obtain b where b: "r = Inr b" "\<not> b \<longrightarrow> not_rebooted R ?e bs" and quiet: "filter is_power_cut bs = []" by blast
    have "wpm (powerHostOff R m ?e) mem (\<lambda>cs res mem'. ?G (bs @ cs) res mem')" if "\<not> b"
      using b that \<open>nodeName_of m = sr_NodeName R\<close> \<open>state_of m = ShuttingDown\<close> \<open>\<not> delegatesShutdown m\<close> \<open>issued_for mem \<noteq> Some ?e\<close>
      by (intro wpm_mono [OF wpm_powerHostOff]) (auto simp: power_cut_def)
    moreover have "wpm (bind (remember_issued ?e) (\<lambda>_. bind (outside (report R m ty reason msg)) (\<lambda>_. ret q))) mem
        (\<lambda>cs res mem'. ?G (bs @ cs) res mem')"
      unfolding remember_issued_def by (auto intro!: wpm_rules wp_report simp: quiet reports_no_cut)
    ultimately show ?case using b by (cases b) auto
  qed
  show ?case
    unfolding sum.case Let_def
    by (rule wpm_if, rule wpm_ret, simp, rule wpm_if, rule wpm_ret, simp, rule wpm_if, rule wpm_ret, simp,
        rule wpm_bind, rule wpm_recall, unfold sum.case append_Nil append_Cons, rule wpm_if, rule wpm_ret, simp, rule cut)
      (simp_all add: issued_for_def)
qed

lemma power_cut_of:
  assumes "PowerOffHost r \<in> set (actions (shutdownReconcile R name) (mem, w))"
  obtains m bs zs where "actions (shutdownReconcile R name) (mem, w) = GetMachine name (Inr m) # bs @ PowerOffHost r # zs"
    and "not_rebooted R (shutdownEpisode m) bs" and "list_all is_report zs" and "nodeName_of m = sr_NodeName R"
    and "state_of m = ShuttingDown" and "\<not> delegatesShutdown m" and "issued_for mem \<noteq> Some (shutdownEpisode m)"
    and "case r of
        Inl e \<Rightarrow> memory (shutdownReconcile R name) mem w = mem \<and>
          result (shutdownReconcile R name) (mem, w) = Inl (Wrapf ''power off node %q: %w'' [TQuoted (sr_NodeName R)] e)
      | Inr _ \<Rightarrow> issued_for (memory (shutdownReconcile R name) mem w) = Some (shutdownEpisode m)"
proof -
  let ?as = "actions (shutdownReconcile R name) (mem, w)"
  have "filter is_power_cut ?as \<noteq> []" using assms by (force simp: filter_empty_conv)
  with wpmD [OF wpm_shutdownReconcile, of R name mem w]
  have "power_cut R name mem ?as (result (shutdownReconcile R name) (mem, w)) (memory (shutdownReconcile R name) mem w)"
    by blast
  moreover have "PowerOffHost r \<notin> set zs" if "list_all is_report zs" for zs
    using that by (auto simp: list_all_iff dest!: bspec)
  moreover have "PowerOffHost r \<notin> set bs" if "not_rebooted R e bs" for e bs
    using that by (auto simp: not_rebooted_def)
  ultimately show thesis using assms that unfolding power_cut_def by fastforce
qed

section \<open>Scanning\<close>

lemma lines_before:
  assumes "\<forall>l\<in>set before. newline \<notin> set l"
  shows "lines (concat (map (\<lambda>l. l @ [newline]) before) @ s) = before @ lines s"
  using assms by (induction before) (auto simp: lines_cons)

lemma scanBootTime_skip:
  assumes "\<forall>l\<in>set before. length l \<le> maxScanLine \<and> (\<forall>v. Fields (dropCR l) \<noteq> [''btime'', v])"
  shows "scanBootTime (before @ ls) failed = scanBootTime ls failed"
  using assms by (induction before) (auto split: list.splits)

section \<open>Episodes\<close>

text \<open>The episode that a reconcile powered the host off for.\<close>

definition powered_off_for :: "time \<Rightarrow> action list \<Rightarrow> bool" where
  "powered_off_for episode as \<longleftrightarrow>
     PowerOffHost (Inr ()) \<in> set as \<and> (\<exists>name m. GetMachine name (Inr m) \<in> set as \<and> shutdownEpisode m = episode)"

interpretation episodes: latch "shutdownReconcile R" issued_for powered_off_for "\<lambda>_ _. True" for R
proof unfold_locales
  fix name mem w e
  let ?as = "actions (shutdownReconcile R name) (mem, w)"
  assume cut: "powered_off_for e ?as"
  then have "PowerOffHost (Inr ()) \<in> set ?as" by (simp add: powered_off_for_def)
  then obtain m bs zs where as: "?as = GetMachine name (Inr m) # bs @ PowerOffHost (Inr ()) # zs"
    and boot: "not_rebooted R (shutdownEpisode m) bs" and zs: "list_all is_report zs"
    and slot: "issued_for mem \<noteq> Some (shutdownEpisode m)"
      "issued_for (memory (shutdownReconcile R name) mem w) = Some (shutdownEpisode m)"
    by (rule power_cut_of) simp
  have "GetMachine n x \<notin> set (bs @ zs)" for n x
    using boot zs by (auto simp: not_rebooted_def list_all_iff dest!: bspec)
  with cut as have "e = shutdownEpisode m" by (auto simp: powered_off_for_def)
  with slot show "issued_for mem \<noteq> Some e \<and> issued_for (memory (shutdownReconcile R name) mem w) = Some e" by simp
qed

section \<open>Properties\<close>

text \<open>C15. The host is powered off only for its own Machine. A reconcile of the agent issues a power-off only if the
  Machine it fetched names this node, is ShuttingDown and leaves the power-off to the agent; if this process has not
  issued one for the same episode already; and, when the boot time of the host can be read, if the host has not
  booted after the episode began. It issues at most one.\<close>

theorem host_power_off_gate:
  assumes "PowerOffHost r \<in> set (actions (shutdownReconcile R name) (mem, w))" (is "_ \<in> set ?acts")
  shows "\<exists>m bs zs. ?acts = GetMachine name (Inr m) # bs @ PowerOffHost r # zs \<and> list_all is_report zs \<and>
    nodeName_of m = sr_NodeName R \<and> state_of m = ShuttingDown \<and> \<not> delegatesShutdown m \<and>
    issued_for mem \<noteq> Some (shutdownEpisode m) \<and> not_rebooted R (shutdownEpisode m) bs"
  using assms by (rule power_cut_of) blast

theorem host_power_off_gate_witness:
  "PowerOffHost (Inr ()) \<in> set (actions (shutdownReconcile (sample_agent (Inr ())) ''m'') (fresh_agent, agent_world 100)) \<and>
   (\<exists>m bs. state_of m = ShuttingDown \<and> not_rebooted (sample_agent (Inr ())) (shutdownEpisode m) bs)"
proof -
  have cut: "PowerOffHost (Inr ()) \<in> set (actions (shutdownReconcile (sample_agent (Inr ())) ''m'') (fresh_agent, agent_world 100))"
    by code_simp
  from host_power_off_gate [OF cut] cut show ?thesis by blast
qed

text \<open>C16. One episode, one power-off. Over any sequence of reconciles of one agent process, with anything happening in
  between, two successful power-offs for the same shutdown episode have between them a reconcile that ended with
  another episode on record.\<close>

theorem one_power_off_per_episode:
  assumes "runs (shutdownReconcile R) reqs mem = pre @ (n1, as1, mem1) # mid @ (n2, as2, mem2) # post"
    and "powered_off_for episode as1" and "powered_off_for episode as2"
  shows "\<exists>(n, as, mem')\<in>set mid. issued_for mem' \<noteq> Some episode"
  by (rule episodes.not_repeated [OF assms(1) TrueI TrueI assms(2,3)])

theorem one_power_off_per_episode_witness:
  "\<exists>as1 mem1 mid as2 mem2. runs (shutdownReconcile (sample_agent (Inr ())))
       [(''m'', agent_world 100), (''m'', agent_world 200), (''m'', agent_world 100)] fresh_agent =
     (''m'', as1, mem1) # mid @ [(''m'', as2, mem2)] \<and> powered_off_for 100 as1 \<and> powered_off_for 100 as2 \<and>
     (\<exists>(n, as, mem')\<in>set mid. issued_for mem' \<noteq> Some 100)"
proof -
  let ?R = "shutdownReconcile (sample_agent (Inr ())) ''m''"
  define mem1 where "mem1 = memory ?R fresh_agent (agent_world 100)"
  define mem2 where "mem2 = memory ?R mem1 (agent_world 200)"
  define mem3 where "mem3 = memory ?R mem2 (agent_world 100)"
  define as1 where "as1 = actions ?R (fresh_agent, agent_world 100)"
  define as2 where "as2 = actions ?R (mem1, agent_world 200)"
  define as3 where "as3 = actions ?R (mem2, agent_world 100)"
  have sequence: "runs (shutdownReconcile (sample_agent (Inr ())))
      [(''m'', agent_world 100), (''m'', agent_world 200), (''m'', agent_world 100)] fresh_agent =
      [] @ (''m'', as1, mem1) # [(''m'', as2, mem2)] @ (''m'', as3, mem3) # []"
    by (simp add: mem1_def mem2_def mem3_def as1_def as2_def as3_def)
  have cuts: "powered_off_for 100 as1" "powered_off_for 100 as3"
    unfolding powered_off_for_def as1_def as3_def mem1_def mem2_def
    by (rule conjI, code_simp, rule exI [of _ "''m''"], rule exI [of _ "stopping 100"], code_simp)+
  have "\<exists>(n, as, mem')\<in>set [(''m'', as2, mem2)]. issued_for mem' \<noteq> Some 100"
    by (rule one_power_off_per_episode [OF sequence cuts])
  with cuts show ?thesis unfolding sequence by fastforce
qed

text \<open>A failed power-off is not forgotten: the reconcile returns the error, which makes the work queue retry, and the
  process remembers nothing of the attempt, so the retry powers the host off.\<close>

theorem failed_power_off_retried:
  assumes "PowerOffHost (Inl e) \<in> set (actions (shutdownReconcile R name) (mem, w))"
  shows "result (shutdownReconcile R name) (mem, w) = Inl (Wrapf ''power off node %q: %w'' [TQuoted (sr_NodeName R)] e) \<and>
    memory (shutdownReconcile R name) mem w = mem"
  using assms by (rule power_cut_of) simp

theorem failed_power_off_retried_witness:
  "result (shutdownReconcile (sample_agent (Inl (Errorf ''denied'' []))) ''m'') (fresh_agent, agent_world 100) =
     Inl (Wrapf ''power off node %q: %w'' [TQuoted ''n''] (Errorf ''denied'' []))"
proof -
  have cut: "PowerOffHost (Inl (Errorf ''denied'' [])) \<in>
      set (actions (shutdownReconcile (sample_agent (Inl (Errorf ''denied'' []))) ''m'') (fresh_agent, agent_world 100))"
    by code_simp
  from failed_power_off_retried [OF cut] show ?thesis by (simp add: sample_agent_def)
qed

text \<open>The boot time is read back as the kernel prints it: from any contents with short lines of which the first with
  two fields and the key \<^verbatim>\<open>btime\<close> is \<open>btime n\<close>, the parser returns the instant \<open>n\<close> seconds after 1970.\<close>

theorem boot_time_roundtrip:
  assumes "\<forall>l\<in>set before. newline \<notin> set l \<and> length l \<le> maxScanLine \<and> (\<forall>v. Fields (dropCR l) \<noteq> [''btime'', v])"
    and "n < 2 ^ 63"
  shows "parseBootTime (concat (map (\<lambda>l. l @ [newline]) before) @ ''btime '' @ decimal n @ newline # rest) failed =
    Inr (Unix (int n))"
proof -
  let ?line = "''btime '' @ decimal n" and ?body = "concat (map (\<lambda>l. l @ [newline]) before)"
  have digits: "\<forall>c\<in>set (decimal n). \<not> is_space c \<and> c \<noteq> newline"
    using decimal_digits digit_not_space by (auto simp: is_space_def newline_def)
  have cut: "lines (?body @ ?line @ newline # rest) = before @ ?line # lines rest"
    using assms(1) lines_before [of before "?line @ newline # rest"] lines_cons [of ?line rest] digits
    by (auto simp: newline_def)
  have "scanBootTime (before @ ?line # lines rest) failed = scanBootTime (?line # lines rest) failed"
    using assms(1) by (intro scanBootTime_skip) auto
  also have "\<dots> = Inr (Unix (int n))"
  proof -
    have "Fields ?line = [''btime'', decimal n]"
      using Fields_word [of "''btime''" "CHR '' '' # decimal n"] Fields_skip [of "CHR '' ''" "decimal n"]
        Fields_word [of "decimal n" "[]"] digits by (simp add: is_space_def)
    moreover have "dropCR ?line = ?line"
      using digits last_in_set [OF decimal_nonempty [of n]] by (auto simp: dropCR_def is_space_def)
    moreover have "length ?line \<le> maxScanLine"
      using length_decimal [of n 19] assms(2) by (simp add: maxScanLine_def)
    ultimately show ?thesis using ParseInt_decimal [OF assms(2)] by simp
  qed
  finally show ?thesis unfolding parseBootTime_def using cut by simp
qed

theorem boot_time_roundtrip_witness:
  "parseBootTime (concat (map (\<lambda>l. l @ [newline]) [''cpu  1 2 3'']) @ ''btime '' @ decimal 1759622330 @ newline # ''processes 42'') None =
     Inr (Unix 1759622330)"
proof -
  have "\<forall>l\<in>set [''cpu  1 2 3'']. newline \<notin> set l \<and> length l \<le> maxScanLine \<and> (\<forall>v. Fields (dropCR l) \<noteq> [''btime'', v])"
  proof -
    have "Fields (dropCR ''cpu  1 2 3'') = [''cpu'', ''1'', ''2'', ''3'']" by code_simp
    moreover have "newline \<notin> set ''cpu  1 2 3''" "length ''cpu  1 2 3'' \<le> maxScanLine" by code_simp+
    ultimately show ?thesis by simp
  qed
  from boot_time_roundtrip [OF this, of 1759622330 "''processes 42''" None] show ?thesis by simp
qed

end
