(* ===== verification/NodePool_Controller.thy ===== *)
theory NodePool_Controller
  imports Scale_Up Reference_Store
begin

text \<open>
  \<^verbatim>\<open>internal/controller/nodepool_controller.go\<close>, which writes the membership counts of a pool to its
  status, and \<^verbatim>\<open>metrics_collector.go\<close>, which computes the gauges \<^verbatim>\<open>onp_nodes_total\<close> and
  \<^verbatim>\<open>onp_pending_unschedulable\<close> at scrape time. Both count Machines by the same membership rule.
\<close>

section \<open>The pool reconciler\<close>

fun countReady :: "machine list \<Rightarrow> int \<times> int \<Rightarrow> int \<times> int" where
  "countReady [] counts = counts"
| "countReady (m # ms) (members, ready) =
     countReady ms (wrap32 (members + 1), if state_of m = Ready then wrap32 (ready + 1) else ready)"

definition countPoolMembers :: "'w env \<Rightarrow> label_selector \<Rightarrow> ('w, int \<times> int) go" where
  "countPoolMembers E selector =
     bind (list_machines_matching E Cached selector) (\<lambda>machines. ret (countReady machines (0, 0)))"

definition with_counts :: "int \<Rightarrow> int \<Rightarrow> nodepool \<Rightarrow> nodepool" where
  "with_counts members ready pool =
     pool\<lparr>pool_status := (pool_status pool)\<lparr>pst_totalMachines := members, pst_readyMachines := ready\<rparr>\<rparr>"

definition poolReconcile :: "'w env \<Rightarrow> string \<Rightarrow> ('w, requeue) go" where
  "poolReconcile E name =
     bind (attempt (get_pool E Cached name)) (\<lambda>r. case r of
       Inl e \<Rightarrow> if is_not_found e then ret NoRequeue else throw e
     | Inr pool \<Rightarrow>
         (case LabelSelectorAsSelector (env_lib E) (ps_machineSelector (pool_spec pool)) of
            Inl e \<Rightarrow>
              bind (event (PoolObj (pool_name pool)) Warning ''InvalidSelector''
                      (MsgErr ''machineSelector is invalid, the pool selects no Machines until it is fixed: %v'' [] e))
                (\<lambda>_. ret NoRequeue)
          | Inr _ \<Rightarrow>
              bind (map_error (Wrapf ''count members of nodepool %q: %w'' [TQuoted (pool_name pool)])
                      (countPoolMembers E (ps_machineSelector (pool_spec pool)))) (\<lambda>(members, ready).
              if pst_totalMachines (pool_status pool) = members \<and> pst_readyMachines (pool_status pool) = ready
              then ret NoRequeue
              else
                bind (map_error (Wrapf ''update status for nodepool %q: %w'' [TQuoted (pool_name pool)])
                        (update_pool_status E (with_counts members ready pool))) (\<lambda>pool'.
                bind (event (PoolObj (pool_name pool')) Normal ''Membership''
                        (Msg ''pool membership: %d machines, %d ready'' [TInt members, TInt ready])) (\<lambda>_.
                ret NoRequeue)))))"

text \<open>The mapper of Machine events.\<close>

definition poolsForMachine :: "'w env \<Rightarrow> machine \<Rightarrow> ('w, string list) go" where
  "poolsForMachine E machine =
     bind (attempt (list_pools E)) (\<lambda>r. case r of
       Inl e \<Rightarrow> ret []
     | Inr pools \<Rightarrow> ret (map pool_name (filter (\<lambda>p. selects (env_lib E) p (m_labels machine)) pools)))"

section \<open>The gauges\<close>

definition poolUnassigned :: string where
  "poolUnassigned = ''<none>''"

definition poolConflicted :: string where
  "poolConflicted = ''<conflict>''"

definition machineStates :: "machine_state list" where
  "machineStates = [Off, Booting, Ready, Draining, ShuttingDown, Failed]"

fun stateString :: "machine_state \<Rightarrow> string" where
  "stateString Unset = []"
| "stateString Off = ''Off''"
| "stateString Booting = ''Booting''"
| "stateString Ready = ''Ready''"
| "stateString Draining = ''Draining''"
| "stateString ShuttingDown = ''ShuttingDown''"
| "stateString Failed = ''Failed''"

text \<open>The loop of \<^verbatim>\<open>poolLabel\<close>, with the name found so far.\<close>

fun labelFrom :: "lib \<Rightarrow> strmap \<Rightarrow> string \<Rightarrow> nodepool list \<Rightarrow> string" where
  "labelFrom L labels name [] = name"
| "labelFrom L labels name (p # ps) =
     (if \<not> selects L p labels then labelFrom L labels name ps
      else if name \<noteq> poolUnassigned then poolConflicted
      else labelFrom L labels (pool_name p) ps)"

definition poolLabel :: "lib \<Rightarrow> machine \<Rightarrow> nodepool list \<Rightarrow> string" where
  "poolLabel L m pools = labelFrom L (m_labels m) poolUnassigned pools"

type_synonym series = "((string \<times> string) \<times> int) list"

text \<open>The zero series of every pool, and one count per Machine on top.\<close>

definition zeroSeries :: "nodepool list \<Rightarrow> series" where
  "zeroSeries pools =
     fold (\<lambda>p counts. fold (\<lambda>s counts. AList.update (pool_name p, stateString s) 0 counts) machineStates counts) pools []"

definition seriesKey :: "lib \<Rightarrow> nodepool list \<Rightarrow> machine \<Rightarrow> string \<times> string" where
  "seriesKey L pools m =
     (poolLabel L m pools, if stateString (state_of m) = [] then ''Unknown'' else stateString (state_of m))"

definition countMachine :: "string \<times> string \<Rightarrow> series \<Rightarrow> series" where
  "countMachine k counts = AList.update k ((case map_of counts k of None \<Rightarrow> 0 | Some n \<Rightarrow> n) + 1) counts"

definition nodeCounts :: "lib \<Rightarrow> nodepool list \<Rightarrow> machine list \<Rightarrow> series" where
  "nodeCounts L pools machines = fold (\<lambda>m. countMachine (seriesKey L pools m)) machines (zeroSeries pools)"

datatype metric = NodesTotal string string int | PendingUnschedulable int

text \<open>What a scrape sends on the channel. A failed list skips its metric.\<close>

definition collectNodes :: "'w env \<Rightarrow> ('w, metric list) go" where
  "collectNodes E =
     bind (attempt (list_pools E)) (\<lambda>r. case r of
       Inl e \<Rightarrow> ret []
     | Inr pools \<Rightarrow>
         bind (attempt (list_machines E)) (\<lambda>r. case r of
           Inl e \<Rightarrow> ret []
         | Inr machines \<Rightarrow>
             ret (map (\<lambda>((pool, state), n). NodesTotal pool state n) (nodeCounts (env_lib E) pools machines))))"

definition collectPending :: "'w env \<Rightarrow> ('w, metric list) go" where
  "collectPending E =
     bind (attempt (list_pods E)) (\<lambda>r. case r of
       Inl e \<Rightarrow> ret []
     | Inr pods \<Rightarrow> ret [PendingUnschedulable (int (length (filter isScaleUpCandidate pods)))])"

definition Collect :: "'w env \<Rightarrow> ('w, metric list) go" where
  "Collect E = bind (collectNodes E) (\<lambda>ms. bind (collectPending E) (\<lambda>ps. ret (ms @ ps)))"

definition counted_world :: world where
  "counted_world = (empty_world 100)\<lparr>w_machines := [sample_machine ''m'' ''n'' Ready, sample_machine ''o'' ''k'' Off],
     w_pools := [sample_pool ''a'' False]\<rparr>"

section \<open>Counting\<close>

lemma countReady_exact:
  assumes "0 \<le> t" and "0 \<le> r" and "t + int (length ms) < 2 ^ 31" and "r + int (length ms) < 2 ^ 31"
  shows "countReady ms (t, r) = (t + int (length ms), r + int (length (filter (\<lambda>m. state_of m = Ready) ms)))"
  using assms
proof (induction ms arbitrary: t r)
  case (Cons m ms)
  have "wrap32 (t + 1) = t + 1" "wrap32 (r + 1) = r + 1"
    using Cons.prems by (auto intro!: fits_wrap simp: fits_width_def)
  with Cons show ?case by auto
qed simp

text \<open>The write of a reconcile: the counts of one listing, put on the pool that was fetched, which had others.\<close>

definition counts_write :: "string \<Rightarrow> nodepool \<Rightarrow> action set \<Rightarrow> bool" where
  "counts_write name p' A \<longleftrightarrow> (\<exists>p ms. GetPool Cached name (Inr p) \<in> A \<and>
     ListMachinesMatching Cached (ps_machineSelector (pool_spec p)) (Inr ms) \<in> A \<and>
     p' = with_counts (fst (countReady ms (0, 0))) (snd (countReady ms (0, 0))) p \<and> p' \<noteq> p)"

definition one_write :: "string \<Rightarrow> action list \<Rightarrow> bool" where
  "one_write name as \<longleftrightarrow> (\<exists>p' r xs ys. as = xs @ UpdatePoolStatus p' r # ys \<and> list_all is_passive (xs @ ys) \<and>
     counts_write name p' (set xs))"

lemma with_counts_eq:
  "with_counts t r p = p \<longleftrightarrow> pst_totalMachines (pool_status p) = t \<and> pst_readyMachines (pool_status p) = r"
proof
  assume eq: "with_counts t r p = p"
  have "pst_totalMachines (pool_status (with_counts t r p)) = t" "pst_readyMachines (pool_status (with_counts t r p)) = r"
    by (simp_all add: with_counts_def)
  then show "pst_totalMachines (pool_status p) = t \<and> pst_readyMachines (pool_status p) = r" unfolding eq by simp
qed (auto simp: with_counts_def)

lemma wp_poolReconcile_writes:
  "wp (poolReconcile E name) (\<lambda>as res. list_all is_passive as \<or> one_write name as)"
  unfolding poolReconcile_def countPoolMembers_def client_defs
proof (rule wp_bind, rule wp_attempt, rule wp_call, goal_cases)
  case (1 e)
  show ?case by (auto intro!: wp_rules)
next
  case (2 p)
  let ?reads = "\<lambda>ms. [GetPool Cached name (Inr p),
      ListMachinesMatching Cached (ps_machineSelector (pool_spec p)) (Inr ms)]"
  have written: "one_write name (?reads ms @ UpdatePoolStatus (with_counts t r p) u # zs)"
    if "countReady ms (0, 0) = (t, r)" and "with_counts t r p \<noteq> p" and "list_all is_report zs" for ms t r u zs
    unfolding one_write_def
  proof (intro exI conjI)
    show "list_all is_passive (?reads ms @ zs)" using that(3) by (auto simp: list_all_iff)
    show "counts_write name (with_counts t r p) (set (?reads ms))"
      unfolding counts_write_def using that(1,2) by (intro exI [of _ p] exI [of _ ms]) simp
  qed simp
  show ?case
    unfolding sum.case
    by (intro wp_rules) (auto simp: with_counts_eq intro!: wp_rules written [simplified])
qed

section \<open>Labels\<close>

lemma labelFrom_selected:
  assumes "\<forall>p\<in>set pools. pool_name p \<noteq> poolUnassigned"
  shows "labelFrom L labels name pools =
    (case filter (\<lambda>p. selects L p labels) pools of
       [] \<Rightarrow> name
     | [p] \<Rightarrow> if name = poolUnassigned then pool_name p else poolConflicted
     | _ \<Rightarrow> poolConflicted)"
  using assms by (induction pools arbitrary: name) (auto split: list.splits)


lemma poolLabel_membership:
  assumes "\<forall>p\<in>set pools. pool_name p \<noteq> poolUnassigned"
  shows "poolLabel L m pools =
    (case poolsOf L pools m of [] \<Rightarrow> poolUnassigned | [p] \<Rightarrow> pool_name p | _ \<Rightarrow> poolConflicted)"
proof -
  let ?sel = "filter (\<lambda>p. selects L p (m_labels m)) pools"
  have "length (poolsOf L pools m) = length ?sel" "set (poolsOf L pools m) = set ?sel"
    by (simp_all add: poolsOf_def)
  then show ?thesis
    using labelFrom_selected [OF assms, of L "m_labels m" poolUnassigned] unfolding poolLabel_def
    by (cases ?sel; cases "tl ?sel"; cases "poolsOf L pools m"; cases "tl (poolsOf L pools m)") auto
qed

section \<open>Series\<close>

lemma map_of_countMachine:
  "map_of (countMachine k counts) k' =
     (if k' = k then Some ((case map_of counts k of None \<Rightarrow> 0 | Some n \<Rightarrow> n) + 1) else map_of counts k')"
  by (simp add: countMachine_def update_conv)

lemma map_of_fold_count:
  "map_of (fold (\<lambda>m. countMachine (f m)) ms counts) k =
     (if k \<in> f ` set ms then Some ((case map_of counts k of None \<Rightarrow> 0 | Some n \<Rightarrow> n) + int (length (filter (\<lambda>m. f m = k) ms)))
      else map_of counts k)"
  by (induction ms arbitrary: counts) (auto simp: map_of_countMachine filter_empty_conv image_iff)

lemma map_of_zeroSeries:
  "map_of (zeroSeries pools) k = (if k \<in> (\<lambda>(p, s). (pool_name p, stateString s)) ` (set pools \<times> set machineStates) then Some 0 else None)"
proof -
  have states: "map_of (fold (\<lambda>s counts. AList.update (n, stateString s) 0 counts) ss counts) k =
      (if k \<in> (\<lambda>s. (n, stateString s)) ` set ss then Some 0 else map_of counts k)" for n ss and counts :: series
    by (induction ss arbitrary: counts) (auto simp: update_conv)
  have "map_of (fold (\<lambda>p counts. fold (\<lambda>s counts. AList.update (pool_name p, stateString s) 0 counts) machineStates counts) ps counts) k =
      (if k \<in> (\<lambda>(p, s). (pool_name p, stateString s)) ` (set ps \<times> set machineStates) then Some 0 else map_of counts k)"
    for ps and counts :: series
  proof (induction ps arbitrary: counts)
    case (Cons p ps)
    then show ?case by (simp add: states) (auto simp: image_iff)
  qed simp
  from this [of pools "[]"] show ?thesis by (simp add: zeroSeries_def)
qed

section \<open>Properties\<close>

text \<open>C36. The status of a pool reports its membership. A reconcile writes at most once; the write puts on the fetched pool
  the number of Machines that its selector lists and the number of them that are Ready (for fewer than \<open>2 ^ 31\<close>
  Machines), changes nothing else, and is left out when the pool reports these counts already.\<close>

theorem pool_status_counts:
  assumes "UpdatePoolStatus p' r \<in> set (actions (poolReconcile E name) w)" (is "_ \<in> set ?acts")
  shows "\<exists>p ms. GetPool Cached name (Inr p) \<in> set ?acts \<and>
    ListMachinesMatching Cached (ps_machineSelector (pool_spec p)) (Inr ms) \<in> set ?acts \<and> p' \<noteq> p \<and>
    (length ms < 2 ^ 31 \<longrightarrow>
       p' = with_counts (int (length ms)) (int (length (filter (\<lambda>m. state_of m = Ready) ms))) p) \<and>
    (\<forall>a\<in>set ?acts. \<not> is_passive a \<longrightarrow> a = UpdatePoolStatus p' r)"
proof -
  have "\<not> list_all is_passive ?acts" using assms by (force simp: list_all_iff)
  with wpD [OF wp_poolReconcile_writes, of E name w] have "one_write name ?acts" by blast
  then obtain q u xs ys where as: "?acts = xs @ UpdatePoolStatus q u # ys" and others: "list_all is_passive (xs @ ys)"
    and "counts_write name q (set xs)"
    unfolding one_write_def by blast
  moreover have q: "q = p'" "u = r" using assms others unfolding as by (auto simp: list_all_iff dest!: bspec)
  ultimately obtain p ms where "GetPool Cached name (Inr p) \<in> set ?acts"
    "ListMachinesMatching Cached (ps_machineSelector (pool_spec p)) (Inr ms) \<in> set ?acts" "p' \<noteq> p"
    and p': "p' = with_counts (fst (countReady ms (0, 0))) (snd (countReady ms (0, 0))) p"
    unfolding counts_write_def by auto
  moreover have "p' = with_counts (int (length ms)) (int (length (filter (\<lambda>m. state_of m = Ready) ms))) p" if "length ms < 2 ^ 31"
    using that countReady_exact [of 0 0 ms] unfolding p' by simp
  moreover have "\<forall>a\<in>set ?acts. \<not> is_passive a \<longrightarrow> a = UpdatePoolStatus p' r"
    using others q unfolding as by (auto simp: list_all_iff)
  ultimately show ?thesis by blast
qed

theorem pool_status_counts_witness:
  "\<exists>p' r. UpdatePoolStatus p' r \<in> set (actions (poolReconcile store_env ''a'') counted_world) \<and>
     (\<exists>p ms. ListMachinesMatching Cached (ps_machineSelector (pool_spec p)) (Inr ms) \<in>
         set (actions (poolReconcile store_env ''a'') counted_world) \<and>
       (length ms < 2 ^ 31 \<longrightarrow>
          p' = with_counts (int (length ms)) (int (length (filter (\<lambda>m. state_of m = Ready) ms))) p))"
proof -
  let ?p = "with_counts 2 1 (sample_pool ''a'' False)"
  have written: "UpdatePoolStatus ?p (Inr ?p) \<in> set (actions (poolReconcile store_env ''a'') counted_world)"
    by code_simp
  from pool_status_counts [OF written] written show ?thesis by blast
qed

text \<open>C37. The gauge \<^verbatim>\<open>onp_nodes_total\<close> counts every Machine once, under the pool that the controllers act on.
  The series of a key holds the number of Machines with that key; a Machine's key names its pool as the membership rule
  does (no pool may be called \<^verbatim>\<open><none>\<close>, which is no Kubernetes name) and its state; and every pool has a series for every
  lifecycle state, zero included.\<close>

theorem node_gauge_exact:
  assumes "\<forall>p\<in>set pools. pool_name p \<noteq> poolUnassigned"
  shows "(\<forall>k n. map_of (nodeCounts L pools machines) k = Some n \<longrightarrow>
       n = int (length (filter (\<lambda>m. seriesKey L pools m = k) machines))) \<and>
    (\<forall>m\<in>set machines. map_of (nodeCounts L pools machines) (seriesKey L pools m) \<noteq> None \<and>
       fst (seriesKey L pools m) =
         (case poolsOf L pools m of [] \<Rightarrow> poolUnassigned | [p] \<Rightarrow> pool_name p | _ \<Rightarrow> poolConflicted) \<and>
       snd (seriesKey L pools m) = (if state_of m = Unset then ''Unknown'' else stateString (state_of m))) \<and>
    (\<forall>p\<in>set pools. \<forall>s\<in>set machineStates. map_of (nodeCounts L pools machines) (pool_name p, stateString s) \<noteq> None)"
proof -
  let ?key = "seriesKey L pools"
  have series: "map_of (nodeCounts L pools machines) k =
      (if k \<in> ?key ` set machines \<or> k \<in> (\<lambda>(p, s). (pool_name p, stateString s)) ` (set pools \<times> set machineStates)
       then Some (int (length (filter (\<lambda>m. ?key m = k) machines))) else None)" for k
    unfolding nodeCounts_def map_of_fold_count map_of_zeroSeries by (auto simp: filter_empty_conv image_iff split: option.splits)
  have "map_of (nodeCounts L pools machines) k = Some n \<longrightarrow> n = int (length (filter (\<lambda>m. ?key m = k) machines))" for k n
    unfolding series by simp
  moreover have "map_of (nodeCounts L pools machines) (?key m) \<noteq> None" if "m \<in> set machines" for m
    using that unfolding series by simp
  moreover have "fst (?key m) = (case poolsOf L pools m of [] \<Rightarrow> poolUnassigned | [p] \<Rightarrow> pool_name p | _ \<Rightarrow> poolConflicted)" for m
    using poolLabel_membership [OF assms] by (simp add: seriesKey_def)
  moreover have "snd (?key m) = (if state_of m = Unset then ''Unknown'' else stateString (state_of m))" for m
    by (cases "state_of m") (simp_all add: seriesKey_def)
  moreover have "map_of (nodeCounts L pools machines) (pool_name p, stateString s) \<noteq> None"
    if "p \<in> set pools" and "s \<in> set machineStates" for p s
    using that unfolding series by force
  ultimately show ?thesis by blast
qed

theorem node_gauge_exact_witness:
  "map_of (nodeCounts store_lib [sample_pool ''a'' False] [sample_machine ''m'' ''n'' Ready]) (''a'', ''Ready'') = Some 1 \<and>
   1 = int (length (filter (\<lambda>m. seriesKey store_lib [sample_pool ''a'' False] m = (''a'', ''Ready'')) [sample_machine ''m'' ''n'' Ready]))"
proof -
  let ?pools = "[sample_pool ''a'' False]" and ?ms = "[sample_machine ''m'' ''n'' Ready]"
  have names: "\<forall>p\<in>set ?pools. pool_name p \<noteq> poolUnassigned" by code_simp
  have one: "map_of (nodeCounts store_lib ?pools ?ms) (''a'', ''Ready'') = Some 1" by code_simp
  from node_gauge_exact [OF names, of store_lib ?ms] one show ?thesis by blast
qed

text \<open>The mapper of Machine events enqueues exactly the pools that the membership rule gives.\<close>

lemma poolsForMachine_membership:
  assumes "env_list_pools E w = (Inr pools, w')"
  shows "\<exists>ns. result (poolsForMachine E m) w = Inr ns \<and> set ns = pool_name ` set (poolsOf (env_lib E) pools m)"
  using assms by (simp add: poolsForMachine_def list_pools_def set_poolsOf result_def bind_def attempt_def call_def ret_def)

end
