(* ===== verification/Wol.thy ===== *)
theory Wol
  imports Effects Api_Types "HOL-Library.Word"
begin

text \<open>
  Package \<^verbatim>\<open>internal/power/wol\<close>: the magic packet and its transmission over UDP (\<^verbatim>\<open>magic.go\<close>).
  Sockets are parameters; the splitting and joining of \<^verbatim>\<open>host:port\<close> are those of Go's \<^verbatim>\<open>net\<close>
  package. The lemmas say what a packet consists of and that it wakes exactly the card it is built for.
\<close>

section \<open>The magic packet\<close>

type_synonym bytes = "8 word list"

definition macLen :: nat where
  "macLen = 6"

definition packetLen :: nat where
  "packetLen = 6 + 16 * macLen"

definition ErrInvalidMAC :: go_error where
  "ErrInvalidMAC = Errorf ''wol: MAC address must be 6 bytes'' []"

text \<open>\<open>append_times n xs pkt\<close> is the loop that appends \<open>xs\<close> to the packet \<open>n\<close> times.\<close>

fun append_times :: "nat \<Rightarrow> bytes \<Rightarrow> bytes \<Rightarrow> bytes" where
  "append_times 0 xs pkt = pkt"
| "append_times (Suc n) xs pkt = append_times n xs (pkt @ xs)"

definition BuildPacket :: "bytes \<Rightarrow> go_error + bytes" where
  "BuildPacket mac =
     (if length mac \<noteq> macLen
      then Inl (Wrapf ''%w: got %d bytes'' [TInt (int (length mac))] ErrInvalidMAC)
      else Inr (append_times 16 mac (append_times 6 [0xFF] [])))"

text \<open>What a NIC does with a received payload: the synchronisation stream of six \<open>0xFF\<close> bytes
  somewhere in it, followed by sixteen copies of the card's own address.\<close>

fun nic_matches :: "bytes \<Rightarrow> bytes \<Rightarrow> bool" where
  "nic_matches own [] = False"
| "nic_matches own (b # bs) =
     (take packetLen (b # bs) = replicate 6 0xFF @ concat (replicate 16 own) \<or> nic_matches own bs)"

section \<open>Addresses\<close>

definition defaultPort :: string where
  "defaultPort = ''9''"

fun last_index :: "char \<Rightarrow> string \<Rightarrow> nat option" where
  "last_index c [] = None"
| "last_index c (x # xs) =
     (case last_index c xs of Some i \<Rightarrow> Some (Suc i) | None \<Rightarrow> if x = c then Some 0 else None)"

fun first_index :: "char \<Rightarrow> string \<Rightarrow> nat option" where
  "first_index c [] = None"
| "first_index c (x # xs) = (if x = c then Some 0 else map_option Suc (first_index c xs))"

text \<open>\<^verbatim>\<open>net.SplitHostPort\<close>: \<^term>\<open>None\<close> is its error (no port, too many colons, unbalanced
  brackets).\<close>

definition SplitHostPort :: "string \<Rightarrow> (string \<times> string) option" where
  "SplitHostPort s =
     (case last_index CHR '':'' s of
        None \<Rightarrow> None
      | Some i \<Rightarrow>
          (if hd s = CHR ''[''
           then (case first_index CHR '']'' s of
                   None \<Rightarrow> None
                 | Some e \<Rightarrow>
                     if e + 1 = i \<and> CHR ''['' \<notin> set (drop 1 s) \<and> CHR '']'' \<notin> set (drop (e + 1) s)
                     then Some (drop 1 (take e s), drop (i + 1) s)
                     else None)
           else if CHR '':'' \<in> set (take i s) then None
           else if CHR ''['' \<in> set s \<or> CHR '']'' \<in> set s then None
           else Some (take i s, drop (i + 1) s)))"

definition JoinHostPort :: "string \<Rightarrow> string \<Rightarrow> string" where
  "JoinHostPort host port =
     (if CHR '':'' \<in> set host then ''['' @ host @ '']:'' @ port else host @ '':'' @ port)"

definition broadcastTarget :: "string \<Rightarrow> string" where
  "broadcastTarget s = (case SplitHostPort s of None \<Rightarrow> JoinHostPort s defaultPort | Some _ \<Rightarrow> s)"

section \<open>Sending\<close>

text \<open>An address is an IP with a port, a connection a file descriptor.\<close>

datatype udp_addr = UDPAddr string nat

datatype udp_conn = UDPConn nat

datatype net_action =
    ResolveUDP string "go_error + udp_addr"
  | ListenUDP "go_error + udp_conn"
  | EnableBroadcast udp_conn "go_error + unit"
  | WriteToUDP udp_conn bytes udp_addr "go_error + unit"
  | CloseConn udp_conn

record 'w net =
  net_resolve :: "string \<Rightarrow> 'w \<Rightarrow> (go_error + udp_addr) \<times> 'w"
  net_listen :: "'w \<Rightarrow> (go_error + udp_conn) \<times> 'w"
  net_enable_broadcast :: "udp_conn \<Rightarrow> 'w \<Rightarrow> (go_error + unit) \<times> 'w"
  net_addr_string :: "udp_addr \<Rightarrow> string"
  net_write :: "udp_conn \<Rightarrow> bytes \<Rightarrow> udp_addr \<Rightarrow> 'w \<Rightarrow> (go_error + unit) \<times> 'w"

definition resolveBroadcast :: "'w net \<Rightarrow> string \<Rightarrow> ('w, net_action, go_error, udp_addr) prog" where
  "resolveBroadcast N s = call (net_resolve N (broadcastTarget s)) (ResolveUDP (broadcastTarget s))"

definition enableBroadcast :: "'w net \<Rightarrow> udp_conn \<Rightarrow> ('w, net_action, go_error, unit) prog" where
  "enableBroadcast N conn = call (net_enable_broadcast N conn) (EnableBroadcast conn)"

text \<open>\<^verbatim>\<open>defer conn.Close()\<close> runs on every way out after the socket is open.\<close>

definition close_after :: "udp_conn \<Rightarrow> ('w, net_action, go_error, unit) prog \<Rightarrow> ('w, net_action, go_error, unit) prog" where
  "close_after conn p =
     bind (attempt p) (\<lambda>r. bind (tell (CloseConn conn)) (\<lambda>_.
       case r of Inl e \<Rightarrow> throw e | Inr u \<Rightarrow> ret u))"

definition Send :: "'w net \<Rightarrow> bytes \<Rightarrow> string \<Rightarrow> ('w, net_action, go_error, unit) prog" where
  "Send N mac broadcastAddr =
     (case BuildPacket mac of
        Inl e \<Rightarrow> throw e
      | Inr pkt \<Rightarrow>
          bind (map_error (Wrapf ''wol: resolve broadcast address %q: %w'' [TQuoted broadcastAddr])
                  (resolveBroadcast N broadcastAddr)) (\<lambda>addr.
          bind (map_error (Wrapf ''wol: open UDP socket: %w'' [])
                  (call (net_listen N) ListenUDP)) (\<lambda>conn.
          close_after conn
            (bind (map_error (Wrapf ''wol: enable SO_BROADCAST: %w'' []) (enableBroadcast N conn)) (\<lambda>_.
             map_error (Wrapf ''wol: send magic packet to %s: %w'' [TStr (net_addr_string N addr)])
               (call (net_write N conn pkt addr) (WriteToUDP conn pkt addr)))))))"

section \<open>The packet\<close>

lemma append_times_concat: "append_times n xs pkt = pkt @ concat (replicate n xs)"
proof (induction n xs pkt rule: append_times.induct)
  case (2 n xs pkt)
  then show ?case by simp
qed simp

lemma BuildPacket_Inr:
  "BuildPacket mac = Inr pkt \<longleftrightarrow>
     length mac = macLen \<and> pkt = replicate 6 0xFF @ concat (replicate 16 mac)"
proof -
  have "concat (replicate 6 [0xFF :: 8 word]) = replicate 6 0xFF"
    by (simp add: eval_nat_numeral)
  then show ?thesis by (auto simp: BuildPacket_def append_times_concat)
qed

lemma length_concat_replicate: "length (concat (replicate n xs)) = n * length xs"
  by (induction n) simp_all

lemma BuildPacket_length: "BuildPacket mac = Inr pkt \<Longrightarrow> length pkt = packetLen"
  by (auto simp: BuildPacket_Inr length_concat_replicate packetLen_def)

lemma packet_mac: "BuildPacket mac = Inr pkt \<Longrightarrow> take macLen (drop 6 pkt) = mac"
  by (auto simp: BuildPacket_Inr macLen_def eval_nat_numeral)

lemma packet_repeats_mac:
  assumes "BuildPacket mac = Inr pkt" and "i < 16 * macLen"
  shows "pkt ! (6 + i) = mac ! (i mod macLen)"
proof -
  have "concat (replicate n xs) ! j = xs ! (j mod length xs)" if "j < n * length xs"
    for n j and xs :: bytes
    using that
  proof (induction n arbitrary: j)
    case (Suc n)
    show ?case
    proof (cases "j < length xs")
      case False
      then have "j mod length xs = (j - length xs) mod length xs"
        by (simp add: le_mod_geq)
      with Suc False show ?thesis by (simp add: nth_append)
    qed (simp add: nth_append)
  qed simp
  with assms show ?thesis by (auto simp: BuildPacket_Inr nth_append)
qed

lemma nic_matches_packet:
  assumes "BuildPacket mac = Inr pkt" and "length own = macLen"
  shows "nic_matches own pkt \<longleftrightarrow> own = mac"
proof -
  have len: "length pkt = packetLen" by (rule BuildPacket_length [OF assms(1)])
  have short: "\<not> nic_matches own bs" if "length bs < packetLen" for bs
    using that
    by (induction bs)
      (auto dest!: arg_cong [where f = length] simp: length_concat_replicate packetLen_def assms(2))
  obtain b bs where pkt: "pkt = b # bs"
    using len by (cases pkt) (auto simp: packetLen_def)
  have "nic_matches own pkt \<longleftrightarrow> take packetLen pkt = replicate 6 0xFF @ concat (replicate 16 own)"
    using short [of bs] len pkt by simp
  also have "\<dots> \<longleftrightarrow> own = mac"
    using assms len by (auto simp: BuildPacket_Inr macLen_def eval_nat_numeral)
  finally show ?thesis .
qed

end
