(* ===== verification/Json.thy ===== *)
theory Json
  imports Go_Text
begin

text \<open>
  What the program uses of Go's \<^verbatim>\<open>encoding/json\<close>: \<^verbatim>\<open>json.Marshal\<close> of a string and
  \<^verbatim>\<open>json.Decoder.Decode\<close>, which reads one value from a stream and ignores what follows it. A value is
  split into tokens, and a pushdown automaton over the tokens builds it; both stop where Go's scanner stops, so a text
  is a value, malformed, or the beginning of a value. The escapes follow Go: HTML characters and control characters are
  escaped, and an escaped code point becomes its UTF-8 bytes. The model is exact on ASCII text; bytes from \<open>0x80\<close> on
  are passed through, where Go would replace invalid UTF-8.
\<close>

section \<open>Strings\<close>

abbreviation code :: "char \<Rightarrow> nat" where
  "code c \<equiv> of_char c"

definition hex_digit :: "nat \<Rightarrow> char" where
  "hex_digit n = (if n < 10 then char_of (48 + n) else char_of (87 + n))"

definition hex_value :: "char \<Rightarrow> nat option" where
  "hex_value c =
     (if 48 \<le> code c \<and> code c \<le> 57 then Some (code c - 48)
      else if 97 \<le> code c \<and> code c \<le> 102 then Some (code c - 87)
      else if 65 \<le> code c \<and> code c \<le> 70 then Some (code c - 55)
      else None)"

definition quote_char :: char where
  "quote_char = CHR 0x22"

definition backslash :: char where
  "backslash = CHR 0x5C"

definition encode_char :: "char \<Rightarrow> string" where
  "encode_char c =
     (if c = quote_char \<or> c = backslash then [backslash, c]
      else if code c = 8 then [backslash, CHR ''b'']
      else if code c = 12 then [backslash, CHR ''f'']
      else if code c = 10 then [backslash, CHR ''n'']
      else if code c = 13 then [backslash, CHR ''r'']
      else if code c = 9 then [backslash, CHR ''t'']
      else if code c < 32 \<or> c \<in> {CHR ''<'', CHR ''>'', CHR ''&''}
        then [backslash, CHR ''u'', CHR ''0'', CHR ''0'', hex_digit (code c div 16), hex_digit (code c mod 16)]
      else [c])"

definition encode_string :: "string \<Rightarrow> string" where
  "encode_string s = quote_char # concat (map encode_char s) @ [quote_char]"

text \<open>The result of reading from a text that may go on: a value and the rest, more text is needed, or the text is
  malformed.\<close>

datatype 'a parsed = Done 'a string | More | Bad

fun hex_number :: "nat \<Rightarrow> nat \<Rightarrow> string \<Rightarrow> nat parsed" where
  "hex_number 0 n s = Done n s"
| "hex_number (Suc k) n [] = More"
| "hex_number (Suc k) n (c # s) =
     (case hex_value c of None \<Rightarrow> Bad | Some d \<Rightarrow> hex_number k (16 * n + d) s)"

definition utf8 :: "nat \<Rightarrow> string" where
  "utf8 n =
     (if n < 0x80 then [char_of n]
      else if n < 0x800 then [char_of (0xC0 + n div 64), char_of (0x80 + n mod 64)]
      else if n < 0x10000 then [char_of (0xE0 + n div 4096), char_of (0x80 + n div 64 mod 64), char_of (0x80 + n mod 64)]
      else [char_of (0xF0 + n div 262144), char_of (0x80 + n div 4096 mod 64), char_of (0x80 + n div 64 mod 64),
            char_of (0x80 + n mod 64)])"

definition replacement :: nat where
  "replacement = 0xFFFD"

text \<open>A code unit after \<open>\u\<close>: a surrogate pair is one code point, a lone surrogate is replaced.\<close>

definition code_point :: "nat \<Rightarrow> string \<Rightarrow> nat \<times> string" where
  "code_point u s =
     (if \<not> (0xD800 \<le> u \<and> u < 0xE000) then (u, s)
      else (case s of
              b # v # s' \<Rightarrow>
                (if b = backslash \<and> v = CHR ''u'' \<and> u < 0xDC00 then
                   (case hex_number 4 0 s' of
                      Done u' rest \<Rightarrow>
                        if 0xDC00 \<le> u' \<and> u' < 0xE000
                        then (0x10000 + (u - 0xD800) * 0x400 + (u' - 0xDC00), rest) else (replacement, s)
                    | _ \<Rightarrow> (replacement, s))
                 else (replacement, s))
            | _ \<Rightarrow> (replacement, s)))"

definition unescape :: "char \<Rightarrow> char option" where
  "unescape c =
     (if c = quote_char \<or> c = backslash \<or> c = CHR ''/'' then Some c
      else if c = CHR ''b'' then Some (CHR 0x08)
      else if c = CHR ''f'' then Some (CHR 0x0C)
      else if c = CHR ''n'' then Some (CHR 0x0A)
      else if c = CHR ''r'' then Some (CHR 0x0D)
      else if c = CHR ''t'' then Some (CHR 0x09)
      else None)"

lemma hex_number_rest: "hex_number k n s = Done m rest \<Longrightarrow> length rest + k = length s"
  by (induction k n s rule: hex_number.induct) (auto split: option.splits)

lemma code_point_rest: "code_point u s = (n, rest) \<Longrightarrow> length rest \<le> length s"
  by (auto simp: code_point_def split: if_splits list.splits parsed.splits dest!: hex_number_rest)

text \<open>The characters of a string after its opening quote, in front of which \<open>acc\<close> was read.\<close>

function (sequential) parse_chars :: "string \<Rightarrow> string \<Rightarrow> string parsed" where
  "parse_chars acc [] = More"
| "parse_chars acc (c # s) =
     (if c = quote_char then Done acc s
      else if c = backslash then
        (case s of
           [] \<Rightarrow> More
         | e # s' \<Rightarrow>
             if e = CHR ''u'' then
               (case hex_number 4 0 s' of
                  Done u rest \<Rightarrow> parse_chars (acc @ utf8 (fst (code_point u rest))) (snd (code_point u rest))
                | More \<Rightarrow> More
                | Bad \<Rightarrow> Bad)
             else (case unescape e of None \<Rightarrow> Bad | Some d \<Rightarrow> parse_chars (acc @ [d]) s'))
      else if code c < 32 then Bad
      else parse_chars (acc @ [c]) s)"
  by pat_completeness auto

termination parse_chars
proof (relation "measure (\<lambda>(acc, s). length s)", goal_cases)
  case (2 acc c s e s' u rest)
  then have "length rest < length s'" by (auto dest: hex_number_rest)
  moreover have "length (snd (code_point u rest)) \<le> length rest"
    by (rule code_point_rest [of u rest "fst (code_point u rest)"]) simp
  ultimately show ?case using 2 by simp
qed auto

declare parse_chars.simps(2) [simp del]

lemma parse_chars_rest: "parse_chars acc s = Done t rest \<Longrightarrow> length rest < length s"
proof (induction acc s rule: parse_chars.induct)
  case (2 acc c s)
  note step = 2(4) [unfolded parse_chars.simps(2)]
  consider "c = quote_char" | e s' where "c = backslash" "c \<noteq> quote_char" "s = e # s'" | "c = backslash" "c \<noteq> quote_char" "s = []"
    | "c \<noteq> quote_char" "c \<noteq> backslash"
    by (cases s) auto
  then show ?case
  proof cases
    case (2 e s')
    show ?thesis
    proof (cases "e = CHR ''u''")
      case True
      with step 2 obtain u r where hex: "hex_number 4 0 s' = Done u r"
        and "parse_chars (acc @ utf8 (fst (code_point u r))) (snd (code_point u r)) = Done t rest"
        by (auto split: parsed.splits)
      with "2.IH"(1) [OF \<open>c \<noteq> quote_char\<close> \<open>c = backslash\<close> \<open>s = e # s'\<close> True hex]
      have "length rest < length (snd (code_point u r))" by blast
      moreover have "length (snd (code_point u r)) \<le> length r"
        by (rule code_point_rest [of u r "fst (code_point u r)"]) simp
      ultimately show ?thesis using hex_number_rest [OF hex] 2 by simp
    next
      case False
      with step 2 obtain d where "unescape e = Some d" and "parse_chars (acc @ [d]) s' = Done t rest"
        by (auto split: option.splits)
      with "2.IH"(2) [OF \<open>c \<noteq> quote_char\<close> \<open>c = backslash\<close> \<open>s = e # s'\<close> False] 2 show ?thesis by fastforce
    qed
  next
    case 4
    with step "2.IH"(3) show ?thesis by (auto split: if_splits)
  qed (use step in auto)
qed simp


section \<open>Tokens\<close>

text \<open>A number is only recognised: the program decodes into strings.\<close>

datatype json = JNull | JBool bool | JNumber | JString string | JArray "json list" | JObject "(string \<times> json) list"

datatype token = Punct char | Scalar json

definition json_space :: "char \<Rightarrow> bool" where
  "json_space c \<longleftrightarrow> c \<in> {CHR '' '', CHR 0x09, CHR 0x0A, CHR 0x0D}"

definition lex_exponent :: "string \<Rightarrow> json parsed" where
  "lex_exponent s =
     (case s of
        [] \<Rightarrow> Done JNumber []
      | e # r \<Rightarrow>
          if e = CHR ''e'' \<or> e = CHR ''E'' then
            (case (if r \<noteq> [] \<and> (hd r = CHR ''+'' \<or> hd r = CHR ''-'') then tl r else r) of
               [] \<Rightarrow> More
             | d # r' \<Rightarrow> if is_digit d then Done JNumber (dropWhile is_digit r') else Bad)
          else Done JNumber s)"

definition lex_fraction :: "string \<Rightarrow> json parsed" where
  "lex_fraction s =
     (case s of
        [] \<Rightarrow> Done JNumber []
      | p # r \<Rightarrow>
          if p = CHR ''.'' then
            (case r of [] \<Rightarrow> More | d # r' \<Rightarrow> if is_digit d then lex_exponent (dropWhile is_digit r') else Bad)
          else lex_exponent s)"

definition lex_number :: "string \<Rightarrow> json parsed" where
  "lex_number s =
     (case s of
        [] \<Rightarrow> More
      | c # r \<Rightarrow>
          if c = CHR ''0'' then lex_fraction r
          else if is_digit c then lex_fraction (dropWhile is_digit r)
          else Bad)"

fun lex_literal :: "string \<Rightarrow> json \<Rightarrow> string \<Rightarrow> json parsed" where
  "lex_literal [] v s = Done v s"
| "lex_literal (x # xs) v [] = More"
| "lex_literal (x # xs) v (c # s) = (if c = x then lex_literal xs v s else Bad)"

text \<open>A scalar at the end of the text is complete only if nothing can follow.\<close>

definition scalar_token :: "bool \<Rightarrow> json parsed \<Rightarrow> token parsed" where
  "scalar_token eof p =
     (case p of
        Done v rest \<Rightarrow> if rest = [] \<and> \<not> eof then More else Done (Scalar v) rest
      | More \<Rightarrow> More
      | Bad \<Rightarrow> Bad)"

definition scan_token :: "bool \<Rightarrow> char \<Rightarrow> string \<Rightarrow> token parsed" where
  "scan_token eof c s =
     (if c \<in> set ''{}[]:,'' then Done (Punct c) s
      else scalar_token eof
        (if c = quote_char then (case parse_chars [] s of Done t rest \<Rightarrow> Done (JString t) rest | More \<Rightarrow> More | Bad \<Rightarrow> Bad)
         else if c = CHR ''n'' then lex_literal ''ull'' JNull s
         else if c = CHR ''t'' then lex_literal ''rue'' (JBool True) s
         else if c = CHR ''f'' then lex_literal ''alse'' (JBool False) s
         else if c = CHR ''-'' then lex_number s
         else if is_digit c then lex_number (c # s)
         else Bad))"

lemma lex_rest:
  "lex_exponent s = Done v rest \<Longrightarrow> length rest \<le> length s"
  "lex_fraction s = Done v rest \<Longrightarrow> length rest \<le> length s"
  "lex_number s = Done v rest \<Longrightarrow> length rest < length s"
  "lex_literal xs v' s = Done v rest \<Longrightarrow> length rest \<le> length s"
proof -
  have drops: "length (dropWhile P xs) \<le> length xs" for P and xs :: string by (rule length_dropWhile_le)
  have shorter: "n \<le> length (dropWhile P xs) \<Longrightarrow> n \<le> length xs" for n P and xs :: string
    by (rule le_trans [OF _ drops])
  show exponent: "lex_exponent s = Done v rest \<Longrightarrow> length rest \<le> length s" for s
    by (auto simp: lex_exponent_def split: list.splits if_splits intro: le_SucI drops)
      (metis drops le_SucI length_Cons list.collapse list.sel(3))+
  show fraction: "lex_fraction s = Done v rest \<Longrightarrow> length rest \<le> length s" for s
    by (auto simp: lex_fraction_def split: list.splits if_splits dest!: exponent intro: le_SucI shorter)
  show "lex_number s = Done v rest \<Longrightarrow> length rest < length s"
    by (auto simp: lex_number_def less_Suc_eq_le split: list.splits if_splits dest!: fraction intro: shorter)
  show "lex_literal xs v' s = Done v rest \<Longrightarrow> length rest \<le> length s"
    by (induction xs v' s rule: lex_literal.induct) (auto split: if_splits)
qed


lemma scan_token_rest: "scan_token eof c s = Done t rest \<Longrightarrow> length rest \<le> length s"
  by (auto simp: scan_token_def scalar_token_def split: if_splits parsed.splits
      dest!: parse_chars_rest lex_rest(3,4) intro: less_imp_le)

text \<open>The tokens of a text, and whether it ends there or is malformed there.\<close>

datatype text_end = Ends | Malformed

function tokens :: "bool \<Rightarrow> string \<Rightarrow> token list \<times> text_end" where
  "tokens eof s =
     (case dropWhile json_space s of
        [] \<Rightarrow> ([], Ends)
      | c # r \<Rightarrow>
          (case scan_token eof c r of
             Done t rest \<Rightarrow> (case tokens eof rest of (ts, e) \<Rightarrow> (t # ts, e))
           | More \<Rightarrow> ([], Ends)
           | Bad \<Rightarrow> ([], Malformed)))"
  by pat_completeness auto

termination tokens
proof (relation "measure (\<lambda>(eof, s). length s)", goal_cases)
  case (2 eof s c r t rest)
  then have "length rest \<le> length r" by (auto dest: scan_token_rest)
  moreover have "Suc (length r) \<le> length s"
    using 2(1) length_dropWhile_le [of json_space s] by (metis length_Cons)
  ultimately show ?case by simp
qed simp

declare tokens.simps [simp del]

section \<open>Values\<close>

text \<open>The open objects and arrays, innermost first, with what has been read of them; an object has the key at hand.\<close>

datatype open_value = OpenObject "(string \<times> json) list" string | OpenArray "json list"

datatype expectation = WantValue | WantValueOrEnd | WantKey | WantKeyOrEnd | WantColon | WantCommaOrEnd

datatype outcome = Value json | Incomplete | Invalid

text \<open>A value is complete: it is the result, or it goes into the innermost open value.\<close>

fun put_value :: "json \<Rightarrow> open_value list \<Rightarrow> (open_value list) option" where
  "put_value v [] = None"
| "put_value v (OpenObject ms k # st) = Some (OpenObject (ms @ [(k, v)]) k # st)"
| "put_value v (OpenArray vs # st) = Some (OpenArray (vs @ [v]) # st)"

fun read_value :: "expectation \<Rightarrow> open_value list \<Rightarrow> token list \<Rightarrow> text_end \<Rightarrow> outcome" where
  "read_value w st [] e = (case e of Ends \<Rightarrow> Incomplete | Malformed \<Rightarrow> Invalid)"
| "read_value w st (t # ts) e =
     (let finish = (\<lambda>v st. case put_value v st of None \<Rightarrow> Value v | Some st' \<Rightarrow> read_value WantCommaOrEnd st' ts e)
      in case (w, t, st) of
           (WantCommaOrEnd, Punct c, OpenObject ms k # rest) \<Rightarrow>
             if c = CHR '','' then read_value WantKey st ts e
             else if c = CHR ''}'' then finish (JObject ms) rest else Invalid
         | (WantCommaOrEnd, Punct c, OpenArray vs # rest) \<Rightarrow>
             if c = CHR '','' then read_value WantValue st ts e
             else if c = CHR '']'' then finish (JArray vs) rest else Invalid
         | (WantColon, Punct c, _) \<Rightarrow> if c = CHR '':'' then read_value WantValue st ts e else Invalid
         | (WantKey, Scalar (JString k), OpenObject ms _ # rest) \<Rightarrow> read_value WantColon (OpenObject ms k # rest) ts e
         | (WantKeyOrEnd, Scalar (JString k), OpenObject ms _ # rest) \<Rightarrow> read_value WantColon (OpenObject ms k # rest) ts e
         | (WantKeyOrEnd, Punct c, OpenObject ms k # rest) \<Rightarrow> if c = CHR ''}'' then finish (JObject ms) rest else Invalid
         | (WantValueOrEnd, Punct c, OpenArray vs # rest) \<Rightarrow>
             if c = CHR '']'' then finish (JArray vs) rest
             else if c = CHR ''{'' then read_value WantKeyOrEnd (OpenObject [] [] # st) ts e
             else if c = CHR ''['' then read_value WantValueOrEnd (OpenArray [] # st) ts e
             else Invalid
         | (WantValueOrEnd, Scalar v, _) \<Rightarrow> finish v st
         | (WantValue, Punct c, _) \<Rightarrow>
             if c = CHR ''{'' then read_value WantKeyOrEnd (OpenObject [] [] # st) ts e
             else if c = CHR ''['' then read_value WantValueOrEnd (OpenArray [] # st) ts e
             else Invalid
         | (WantValue, Scalar v, _) \<Rightarrow> finish v st
         | _ \<Rightarrow> Invalid)"

definition decode_value :: "bool \<Rightarrow> string \<Rightarrow> outcome" where
  "decode_value eof s = (case tokens eof s of (ts, e) \<Rightarrow> read_value WantValue [] ts e)"

section \<open>Round trip of strings\<close>

lemma hex_value_digit: "n < 16 \<Longrightarrow> hex_value (hex_digit n) = Some n"
  by (auto simp: hex_value_def hex_digit_def)

lemma quote_not_backslash [simp]: "backslash \<noteq> quote_char" "quote_char \<noteq> backslash"
  by (simp_all add: quote_char_def backslash_def)

lemma parse_escape:
  "e \<noteq> CHR ''u'' \<Longrightarrow> unescape e = Some d \<Longrightarrow> parse_chars acc (backslash # e # s) = parse_chars (acc @ [d]) s"
  by (subst parse_chars.simps(2)) simp

lemma parse_plain:
  "c \<noteq> quote_char \<Longrightarrow> c \<noteq> backslash \<Longrightarrow> \<not> code c < 32 \<Longrightarrow> parse_chars acc (c # s) = parse_chars (acc @ [c]) s"
  by (simp add: parse_chars.simps(2) [of _ c])

lemma parse_unicode:
  assumes "code c < 128"
  shows "parse_chars acc (backslash # CHR ''u'' # CHR ''0'' # CHR ''0'' # hex_digit (code c div 16) # hex_digit (code c mod 16) # s) =
    parse_chars (acc @ [c]) s"
proof -
  have zero: "hex_value CHR ''0'' = Some 0" by (simp add: hex_value_def)
  have "hex_number 4 0 (CHR ''0'' # CHR ''0'' # hex_digit (code c div 16) # hex_digit (code c mod 16) # s) = Done (code c) s"
  proof -
    have four: "(4 :: nat) = Suc (Suc (Suc (Suc 0)))" by simp
    show ?thesis unfolding four using assms by (simp add: zero hex_value_digit)
  qed
  moreover have "code_point (code c) s = (code c, s)" "utf8 (code c) = [c]"
    using assms by (simp_all add: code_point_def utf8_def)
  ultimately show ?thesis by (subst parse_chars.simps(2)) simp
qed

lemma control_chars:
  "char_of (8 :: nat) = CHR 0x08" "char_of (12 :: nat) = CHR 0x0C" "char_of (10 :: nat) = CHR 0x0A"
  "char_of (13 :: nat) = CHR 0x0D" "char_of (9 :: nat) = CHR 0x09"
  by code_simp+

lemma controls:
  "encode_char (CHR 0x08) = [backslash, CHR ''b'']" "unescape (CHR ''b'') = Some (CHR 0x08)"
  "encode_char (CHR 0x0C) = [backslash, CHR ''f'']" "unescape (CHR ''f'') = Some (CHR 0x0C)"
  "encode_char (CHR 0x0A) = [backslash, CHR ''n'']" "unescape (CHR ''n'') = Some (CHR 0x0A)"
  "encode_char (CHR 0x0D) = [backslash, CHR ''r'']" "unescape (CHR ''r'') = Some (CHR 0x0D)"
  "encode_char (CHR 0x09) = [backslash, CHR ''t'']" "unescape (CHR ''t'') = Some (CHR 0x09)"
  by code_simp+

lemma parse_encoded_char:
  assumes "code c < 128"
  shows "parse_chars acc (encode_char c @ s) = parse_chars (acc @ [c]) s"
proof -
  have of_code: "c = char_of (code c)" by simp
  consider "c = quote_char \<or> c = backslash" | "code c = 8" | "code c = 12" | "code c = 10" | "code c = 13" | "code c = 9"
    | "code c < 32 \<or> c \<in> {CHR ''<'', CHR ''>'', CHR ''&''}" "code c \<notin> {8, 9, 10, 12, 13}"
    | "c \<noteq> quote_char" "c \<noteq> backslash" "\<not> code c < 32" "c \<notin> {CHR ''<'', CHR ''>'', CHR ''&''}"
    by fastforce
  then show ?thesis
  proof cases
    case 1
    then have "encode_char c = [backslash, c]" "unescape c = Some c" "c \<noteq> CHR ''u''"
      by (auto simp: encode_char_def unescape_def quote_char_def backslash_def)
    then show ?thesis by (simp add: parse_escape)
  next
    case 7
    then have "encode_char c = [backslash, CHR ''u'', CHR ''0'', CHR ''0'', hex_digit (code c div 16), hex_digit (code c mod 16)]"
      by (auto simp: encode_char_def quote_char_def backslash_def)
    then show ?thesis using parse_unicode [OF assms] by simp
  next
    case 8
    then show ?thesis by (auto simp: encode_char_def parse_plain)
  qed (use of_code in \<open>simp_all only: control_chars\<close>, simp_all add: controls parse_escape)
qed

lemma parse_encoded:
  "\<forall>c\<in>set t. code c < 128 \<Longrightarrow> parse_chars acc (concat (map encode_char t) @ quote_char # s) = Done (acc @ t) s"
proof (induction t arbitrary: acc)
  case Nil
  show ?case by (simp add: parse_chars.simps(2))
qed (simp add: parse_encoded_char)

lemma scan_encoded_string:
  assumes "\<forall>c\<in>set t. code c < 128" and "s \<noteq> []"
  shows "tokens eof (encode_string t @ s) = (case tokens eof s of (ts, e) \<Rightarrow> (Scalar (JString t) # ts, e))"
  using parse_encoded [OF assms(1), of "[]" s] assms(2)
  by (subst tokens.simps)
    (simp add: encode_string_def json_space_def scan_token_def scalar_token_def quote_char_def split: prod.splits)

lemma scan_punct:
  "c \<in> set ''{}[]:,'' \<Longrightarrow> tokens eof (c # s) = (case tokens eof s of (ts, e) \<Rightarrow> (Punct c # ts, e))"
  by (subst tokens.simps) (auto simp: json_space_def scan_token_def split: prod.splits)

end
