(* ===== verification/Wol_Client.thy ===== *)
theory Wol_Client
  imports Wol Json Power_Provider
begin

text \<open>
  The controller's side of a wake: the wire format (\<^verbatim>\<open>internal/power/wol/wire.go\<close>), the HTTP client of
  onp-wol-agent (\<^verbatim>\<open>client.go\<close>) and the power provider on top of it (\<^verbatim>\<open>wolprovider.go\<close>). The
  HTTP transport, which the Go code injects as an \<^verbatim>\<open>http.Client\<close>, and the check of a URL by
  \<^verbatim>\<open>http.NewRequest\<close> are parameters.
\<close>

section \<open>Wire format\<close>

record wake_request =
  wr_MacAddress :: string
  wr_BroadcastAddress :: string

text \<open>\<^verbatim>\<open>json.Marshal\<close> of a \<^verbatim>\<open>WakeRequest\<close>; an empty broadcast address is omitted.\<close>

definition marshalWake :: "wake_request \<Rightarrow> string" where
  "marshalWake r =
     ''{'' @ encode_string ''macAddress'' @ '':'' @ encode_string (wr_MacAddress r) @
     (if wr_BroadcastAddress r = [] then []
      else '','' @ encode_string ''broadcastAddress'' @ '':'' @ encode_string (wr_BroadcastAddress r)) @ ''}''"

text \<open>\<^verbatim>\<open>Decode\<close> into a \<^verbatim>\<open>WakeRequest\<close>: a key selects a field by its exact name or, failing that,
  without regard to case; null leaves the field alone; any other type is an error; unknown keys are ignored.\<close>

definition field_of :: "string \<Rightarrow> string option" where
  "field_of k =
     (if k = ''macAddress'' \<or> k = ''broadcastAddress'' then Some k
      else if ToLower k = ''macaddress'' then Some ''macAddress''
      else if ToLower k = ''broadcastaddress'' then Some ''broadcastAddress''
      else None)"

fun setFields :: "(string \<times> json) list \<Rightarrow> wake_request \<Rightarrow> wake_request option" where
  "setFields [] r = Some r"
| "setFields ((k, v) # ms) r =
     (case field_of k of
        None \<Rightarrow> setFields ms r
      | Some f \<Rightarrow>
          (case v of
             JNull \<Rightarrow> setFields ms r
           | JString s \<Rightarrow>
               setFields ms (if f = ''macAddress'' then r\<lparr>wr_MacAddress := s\<rparr> else r\<lparr>wr_BroadcastAddress := s\<rparr>)
           | _ \<Rightarrow> None))"

definition unmarshalWake :: "json \<Rightarrow> wake_request option" where
  "unmarshalWake v =
     (let zero = \<lparr>wr_MacAddress = [], wr_BroadcastAddress = []\<rparr>
      in case v of JObject ms \<Rightarrow> setFields ms zero | JNull \<Rightarrow> Some zero | _ \<Rightarrow> None)"

section \<open>HTTP\<close>

record http_request =
  hr_method :: string
  hr_url :: string
  hr_header :: strmap
  hr_body :: string

record http_response =
  resp_code :: int
  resp_status :: string
  resp_header :: strmap
  resp_body :: string

datatype http_action = HttpDo http_request "go_error + http_response"

type_synonym 'w transport = "http_request \<Rightarrow> 'w \<Rightarrow> (go_error + http_response) \<times> 'w"

section \<open>The client\<close>

definition defaultTimeout :: duration where
  "defaultTimeout = 10 * second"

definition errBodyLimit :: nat where
  "errBodyLimit = 512"

record 'w client =
  cl_baseURL :: string
  cl_http :: "'w transport"
  cl_token :: string

definition WithToken :: "string \<Rightarrow> 'w client \<Rightarrow> 'w client" where
  "WithToken token c = c\<lparr>cl_token := token\<rparr>"

text \<open>\<open>default_http\<close> is an \<^verbatim>\<open>http.Client\<close> with a timeout.\<close>

definition NewClient ::
  "(duration \<Rightarrow> 'w transport) \<Rightarrow> string \<Rightarrow> 'w transport option \<Rightarrow> ('w client \<Rightarrow> 'w client) list \<Rightarrow> 'w client" where
  "NewClient default_http baseURL httpClient opts =
     fold (\<lambda>opt c. opt c) opts
       \<lparr>cl_baseURL = TrimRight baseURL ''/'',
        cl_http = (case httpClient of None \<Rightarrow> default_http defaultTimeout | Some h \<Rightarrow> h),
        cl_token = []\<rparr>"

definition wakeHTTPRequest :: "'w client \<Rightarrow> string \<Rightarrow> string \<Rightarrow> http_request" where
  "wakeHTTPRequest c macAddress broadcastAddress =
     \<lparr>hr_method = ''POST'', hr_url = cl_baseURL c @ ''/wake'',
      hr_header = (''Content-Type'', ''application/json'') #
        (if cl_token c \<noteq> [] then [(''Authorization'', ''Bearer '' @ cl_token c)] else []),
      hr_body = marshalWake \<lparr>wr_MacAddress = macAddress, wr_BroadcastAddress = broadcastAddress\<rparr>\<rparr>"

text \<open>\<open>badURL\<close> is the error of \<^verbatim>\<open>http.NewRequest\<close> for a URL it cannot parse. Marshalling two strings does
  not fail.\<close>

definition Wake :: "(string \<Rightarrow> go_error option) \<Rightarrow> 'w client \<Rightarrow> string \<Rightarrow> string \<Rightarrow> ('w, http_action, go_error, unit) prog" where
  "Wake badURL c macAddress broadcastAddress =
     (let req = wakeHTTPRequest c macAddress broadcastAddress in
      case badURL (hr_url req) of
        Some e \<Rightarrow> throw (Wrapf ''wol: build wake request: %w'' [] e)
      | None \<Rightarrow>
          bind (map_error (Wrapf ''wol: POST wake: %w'' []) (call (cl_http c req) (HttpDo req))) (\<lambda>resp.
          if resp_code resp < 200 \<or> 300 \<le> resp_code resp
          then throw (Errorf ''wol: agent returned %s: %s''
                 [TStr (resp_status resp), TStr (TrimSpace (take errBodyLimit (resp_body resp)))])
          else ret ()))"

section \<open>The provider\<close>

definition providerNameWoL :: string where
  "providerNameWoL = ''wol''"

definition wolPowerOn :: "(string \<Rightarrow> go_error option) \<Rightarrow> 'w client \<Rightarrow> machine \<Rightarrow> ('w, http_action, go_error, unit) prog" where
  "wolPowerOn badURL c m =
     (case power_wol (spec_power (m_spec m)) of
        None \<Rightarrow> throw (Errorf ''power: machine %q has provider wol but no wol config'' [TQuoted (m_name m)])
      | Some cfg \<Rightarrow>
          map_error (Wrapf ''power: wake machine %q: %w'' [TQuoted (m_name m)])
            (Wake badURL c (wol_macAddress cfg) (wol_broadcastAddress cfg)))"

definition NewWoLProvider :: "(string \<Rightarrow> go_error option) \<Rightarrow> 'w client \<Rightarrow> 'w provider" where
  "NewWoLProvider badURL c =
     \<lparr>prov_Name = providerNameWoL,
      prov_PowerOn = (\<lambda>m w. case wolPowerOn badURL c m w of (r, as, w') \<Rightarrow> (r, w')),
      prov_PowerOff = (\<lambda>m w. (Inl ErrUnsupported, w)),
      prov_PowerStatus = (\<lambda>m w. ((StateUnknown, Some ErrUnsupported), w)),
      prov_Capabilities = \<lparr>CanPowerOn = True, CanPowerOff = False, CanQueryStatus = False\<rparr>\<rparr>"

section \<open>The contract of a provider\<close>

text \<open>What \<^verbatim>\<open>provider.go\<close> asks of every implementation: a method whose capability is not advertised does
  nothing and says so.\<close>

locale honest_provider =
  fixes p :: "'w provider"
  assumes no_power_on: "\<not> CanPowerOn (prov_Capabilities p) \<Longrightarrow> prov_PowerOn p m w = (Inl ErrUnsupported, w)"
    and no_power_off: "\<not> CanPowerOff (prov_Capabilities p) \<Longrightarrow> prov_PowerOff p m w = (Inl ErrUnsupported, w)"
    and no_status: "\<not> CanQueryStatus (prov_Capabilities p) \<Longrightarrow>
      prov_PowerStatus p m w = ((StateUnknown, Some ErrUnsupported), w)"
begin

text \<open>A call that succeeds was advertised.\<close>

lemma success_advertised: "prov_PowerOn p m w = (Inr (), w') \<Longrightarrow> CanPowerOn (prov_Capabilities p)"
  by (rule ccontr) (simp add: no_power_on)

lemma power_off_refused:
  "\<not> CanPowerOff (prov_Capabilities p) \<Longrightarrow> fst (prov_PowerOff p m w) \<noteq> Inr () \<and> snd (prov_PowerOff p m w) = w"
  by (simp add: no_power_off)

end

interpretation wol_provider: honest_provider "NewWoLProvider badURL c" for badURL c
  by unfold_locales (simp_all add: NewWoLProvider_def)

section \<open>Round trip of the wire format\<close>

definition ascii :: "string \<Rightarrow> bool" where
  "ascii s \<longleftrightarrow> (\<forall>c\<in>set s. code c < 128)"

definition decodeWake :: "nat \<Rightarrow> string \<Rightarrow> (bool, wake_request) sum" where
  "decodeWake limit body =
     (let prefix = take limit body; overflow = (limit < length body)
      in case decode_value (\<not> overflow) prefix of
           Value v \<Rightarrow> (case unmarshalWake v of None \<Rightarrow> Inl False | Some r \<Rightarrow> Inr r)
         | Invalid \<Rightarrow> Inl False
         | Incomplete \<Rightarrow> Inl overflow)"

lemma decode_marshal:
  assumes "ascii (wr_MacAddress r)" and "ascii (wr_BroadcastAddress r)"
  shows "decode_value eof (marshalWake r @ s) =
    Value (JObject ((''macAddress'', JString (wr_MacAddress r)) #
      (if wr_BroadcastAddress r = [] then [] else [(''broadcastAddress'', JString (wr_BroadcastAddress r))])))"
proof -
  have keys: "\<forall>c\<in>set ''macAddress''. code c < 128" "\<forall>c\<in>set ''broadcastAddress''. code c < 128" by simp_all
  note scan = scan_encoded_string [OF keys(1)] scan_encoded_string [OF keys(2)]
    scan_encoded_string [OF assms(1) [unfolded ascii_def]] scan_encoded_string [OF assms(2) [unfolded ascii_def]]
  show ?thesis
    by (simp add: decode_value_def marshalWake_def scan scan_punct split: prod.splits)
qed

lemma wire_roundtrip:
  assumes "ascii (wr_MacAddress r)" and "ascii (wr_BroadcastAddress r)" and "length (marshalWake r) \<le> limit"
  shows "decodeWake limit (marshalWake r) = Inr r"
  using decode_marshal [OF assms(1,2), of True "[]"] assms(3)
  by (simp add: decodeWake_def unmarshalWake_def field_of_def)

end
