(* ===== verification/Wol_Agent.thy ===== *)
theory Wol_Agent
  imports Wol_Client
begin

text \<open>
  onp-wol-agent (\<^verbatim>\<open>internal/agent/server.go\<close>) and the command-line probe
  (\<^verbatim>\<open>cmd/wol-probe\<close>): the \<^verbatim>\<open>/wake\<close> endpoint behind its bearer token, the health endpoints,
  and the parsing of a MAC address by Go's \<^verbatim>\<open>net\<close> package. A handler is a program over the interactions of
  \<open>Send\<close> that returns the response it writes: the code, the header fields it sets itself and the body. What the router
  answers on a path that is not registered is a parameter; log lines are left out.
\<close>

section \<open>MAC addresses\<close>

text \<open>\<^verbatim>\<open>xtoi2\<close>: a byte from two hex digits that stand at the end or are followed by the separator.\<close>

definition xtoi2 :: "string \<Rightarrow> char \<Rightarrow> 8 word option" where
  "xtoi2 s e =
     (if 2 < length s \<and> s ! 2 \<noteq> e then None
      else (case take 2 s of
              [a, b] \<Rightarrow>
                (case (hex_value a, hex_value b) of
                   (Some x, Some y) \<Rightarrow> Some (of_nat (16 * x + y))
                 | _ \<Rightarrow> None)
            | _ \<Rightarrow> None))"

fun colon_octets :: "nat \<Rightarrow> char \<Rightarrow> string \<Rightarrow> bytes option" where
  "colon_octets 0 e s = Some []"
| "colon_octets (Suc n) e s =
     (case xtoi2 s e of
        None \<Rightarrow> None
      | Some b \<Rightarrow> map_option (Cons b) (colon_octets n e (drop 3 s)))"

fun dot_octets :: "nat \<Rightarrow> string \<Rightarrow> bytes option" where
  "dot_octets 0 s = Some []"
| "dot_octets (Suc n) s =
     (case (xtoi2 (take 2 s) (CHR 0x00), xtoi2 (drop 2 s) (CHR ''.'')) of
        (Some a, Some b) \<Rightarrow> map_option (\<lambda>bs. a # b # bs) (dot_octets n (drop 5 s))
      | _ \<Rightarrow> None)"

definition invalidMAC :: "string \<Rightarrow> go_error" where
  "invalidMAC s = Errorf ''address %s: invalid MAC address'' [TStr s]"

definition ParseMAC :: "string \<Rightarrow> go_error + bytes" where
  "ParseMAC s =
     (let parsed =
        (if length s < 14 then None
         else if s ! 2 = CHR '':'' \<or> s ! 2 = CHR ''-'' then
           (let n = (length s + 1) div 3 in
            if (length s + 1) mod 3 \<noteq> 0 \<or> n \<notin> {6, 8, 20} then None else colon_octets n (s ! 2) s)
         else if s ! 4 = CHR ''.'' then
           (let n = 2 * (length s + 1) div 5 in
            if (length s + 1) mod 5 \<noteq> 0 \<or> n \<notin> {6, 8, 20} then None else dot_octets (n div 2) s)
         else None)
      in case parsed of None \<Rightarrow> Inl (invalidMAC s) | Some mac \<Rightarrow> Inr mac)"

text \<open>\<^verbatim>\<open>HardwareAddr.String\<close>.\<close>

definition hex_byte :: "8 word \<Rightarrow> string" where
  "hex_byte b = [hex_digit (unat b div 16), hex_digit (unat b mod 16)]"

fun mac_string :: "bytes \<Rightarrow> string" where
  "mac_string [] = []"
| "mac_string [b] = hex_byte b"
| "mac_string (b # bs) = hex_byte b @ '':'' @ mac_string bs"

section \<open>Responses\<close>

definition StatusText :: "int \<Rightarrow> string" where
  "StatusText status =
     (if status = 200 then ''OK'' else if status = 204 then ''No Content''
      else if status = 400 then ''Bad Request'' else if status = 401 then ''Unauthorized''
      else if status = 404 then ''Not Found'' else if status = 405 then ''Method Not Allowed''
      else if status = 413 then ''Request Entity Too Large'' else if status = 502 then ''Bad Gateway''
      else [])"

definition respond :: "strmap \<Rightarrow> int \<Rightarrow> string \<Rightarrow> http_response" where
  "respond header status body =
     \<lparr>resp_code = status, resp_status = decimal (nat status) @ '' '' @ StatusText status,
      resp_header = header, resp_body = body\<rparr>"

text \<open>\<^verbatim>\<open>http.Error\<close>.\<close>

definition http_Error :: "strmap \<Rightarrow> string \<Rightarrow> int \<Rightarrow> http_response" where
  "http_Error header msg status =
     respond ((''Content-Type'', ''text/plain; charset=utf-8'') # (''X-Content-Type-Options'', ''nosniff'') # header)
       status (msg @ [newline])"

definition header_get :: "strmap \<Rightarrow> string \<Rightarrow> string" where
  "header_get h k = (case map_of h k of None \<Rightarrow> [] | Some v \<Rightarrow> v)"

section \<open>The handlers\<close>

definition defaultBroadcast :: string where
  "defaultBroadcast = ''255.255.255.255''"

definition maxBodyBytes :: nat where
  "maxBodyBytes = 4 * 2 ^ 10"

type_synonym 'w waker = "bytes \<Rightarrow> string \<Rightarrow> ('w, net_action, go_error, unit) prog"

type_synonym 'w handler = "http_request \<Rightarrow> ('w, net_action, go_error, http_response) prog"

definition sendWaker :: "'w net \<Rightarrow> 'w waker" where
  "sendWaker N = Send N"

text \<open>\<^verbatim>\<open>subtle.ConstantTimeCompare\<close> is 1 on equal byte strings and 0 otherwise.\<close>

definition requireBearer :: "string \<Rightarrow> 'w handler \<Rightarrow> 'w handler" where
  "requireBearer token next r =
     (if token = [] then next r
      else if header_get (hr_header r) ''Authorization'' \<noteq> ''Bearer '' @ token
      then ret (http_Error [(''WWW-Authenticate'', ''Bearer'')] ''unauthorized'' 401)
      else next r)"

definition wakeHandler :: "'w waker \<Rightarrow> 'w handler" where
  "wakeHandler waker r =
     (if hr_method r \<noteq> ''POST''
      then ret (http_Error [(''Allow'', ''POST'')] ''method not allowed'' 405)
      else (case decodeWake maxBodyBytes (hr_body r) of
              Inl tooLarge \<Rightarrow>
                if tooLarge then ret (http_Error [] ''request body too large'' 413)
                else ret (http_Error [] ''invalid JSON body'' 400)
            | Inr req \<Rightarrow>
                (case ParseMAC (wr_MacAddress req) of
                   Inl _ \<Rightarrow> ret (http_Error [] ''invalid macAddress: want a 6-byte (EUI-48) MAC'' 400)
                 | Inr mac \<Rightarrow>
                     if length mac \<noteq> 6
                     then ret (http_Error [] ''invalid macAddress: want a 6-byte (EUI-48) MAC'' 400)
                     else
                       (let broadcast = (if wr_BroadcastAddress req = [] then defaultBroadcast
                                         else wr_BroadcastAddress req) in
                        bind (attempt (waker mac broadcast)) (\<lambda>sent.
                        case sent of
                          Inl _ \<Rightarrow> ret (http_Error [] ''send failed'' 502)
                        | Inr _ \<Rightarrow> ret (respond [] 204 []))))))"

definition health :: "'w handler" where
  "health r =
     (if hr_method r \<noteq> ''GET''
      then ret (http_Error [(''Allow'', ''GET'')] ''method not allowed'' 405)
      else ret (respond [] 200 []))"

text \<open>The handler behind the listener, on the path the router has extracted from the request's URL; a nil waker is the
  real one.\<close>

definition Handler :: "'w net \<Rightarrow> (string \<Rightarrow> 'w handler) \<Rightarrow> 'w waker option \<Rightarrow> string \<Rightarrow> string \<Rightarrow> 'w handler" where
  "Handler N other waker token path =
     (let waker = (case waker of None \<Rightarrow> sendWaker N | Some k \<Rightarrow> k)
      in if path = ''/wake'' then requireBearer token (wakeHandler waker)
         else if path = ''/healthz'' \<or> path = ''/readyz'' then health
         else other path)"

section \<open>The probe\<close>

text \<open>\<^verbatim>\<open>run\<close> of \<^verbatim>\<open>cmd/wol-probe\<close>; its result is the line it prints.\<close>

definition probeRun :: "'w net \<Rightarrow> string list \<Rightarrow> ('w, net_action, go_error, string) prog" where
  "probeRun N args =
     (if length args < 1 \<or> 2 < length args
      then throw (Errorf ''expected 1 or 2 arguments, got %d'' [TInt (int (length args))])
      else (case ParseMAC (args ! 0) of
              Inl e \<Rightarrow> throw (Wrapf ''parse MAC %q: %w'' [TQuoted (args ! 0)] e)
            | Inr mac \<Rightarrow>
                (let broadcast = (if length args = 2 then args ! 1 else defaultBroadcast) in
                 bind (Send N mac broadcast) (\<lambda>_.
                 ret (''wake packet sent to '' @ mac_string mac @ '' via '' @ broadcast @ [newline])))))"

section \<open>The round trip of addresses\<close>

lemma hex_byte_parse: "xtoi2 (hex_byte b @ s) e = (if s \<noteq> [] \<and> hd s \<noteq> e then None else Some b)"
proof -
  have "unat b < 256" using unsigned_less [of b] by simp
  then have "unat b div 16 < 16" by simp
  then have "hex_value (hex_digit (unat b div 16)) = Some (unat b div 16)"
      "hex_value (hex_digit (unat b mod 16)) = Some (unat b mod 16)"
    by (simp_all add: hex_value_digit)
  then show ?thesis by (cases s) (simp_all add: xtoi2_def hex_byte_def)
qed

lemma colon_octets_print: "mac \<noteq> [] \<Longrightarrow> colon_octets (length mac) (CHR '':'') (mac_string mac) = Some mac"
proof (induction mac rule: mac_string.induct)
  case (2 b)
  then show ?case using hex_byte_parse [of b "[]"] by simp
next
  case (3 b c bs)
  have "drop 3 (hex_byte b @ CHR '':'' # mac_string (c # bs)) = mac_string (c # bs)" by (simp add: hex_byte_def)
  moreover have "xtoi2 (hex_byte b @ CHR '':'' # mac_string (c # bs)) CHR '':'' = Some b" by (simp add: hex_byte_parse)
  moreover have "colon_octets (length (c # bs)) CHR '':'' (mac_string (c # bs)) = Some (c # bs)" using 3 by simp
  ultimately have "colon_octets (Suc (length (c # bs))) CHR '':'' (hex_byte b @ CHR '':'' # mac_string (c # bs)) =
    Some (b # c # bs)" by (simp only: colon_octets.simps option.case option.map)
  then show ?case by simp
qed simp

lemma length_mac_string: "mac \<noteq> [] \<Longrightarrow> Suc (length (mac_string mac)) = 3 * length mac"
  by (induction mac rule: mac_string.induct) (simp_all add: hex_byte_def)

lemma mac_string_separator: "2 \<le> length mac \<Longrightarrow> mac_string mac ! 2 = CHR '':''"
  by (cases mac rule: mac_string.cases) (simp_all add: hex_byte_def)

lemma ParseMAC_mac_string:
  assumes "length mac \<in> {6, 8, 20}"
  shows "ParseMAC (mac_string mac) = Inr mac"
proof -
  have "mac \<noteq> []" and two: "2 \<le> length mac" using assms by auto
  note len = length_mac_string [OF \<open>mac \<noteq> []\<close>]
  have "(length (mac_string mac) + 1) div 3 = length mac" "(length (mac_string mac) + 1) mod 3 = 0"
    using len by simp_all
  moreover have "\<not> length (mac_string mac) < 14" using len assms by auto
  ultimately show ?thesis
    using assms mac_string_separator [OF two] colon_octets_print [OF \<open>mac \<noteq> []\<close>]
    by (simp add: ParseMAC_def Let_def)
qed

text \<open>A magic packet carries six bytes; the parser also accepts longer addresses.\<close>

lemma colon_octets_length: "colon_octets n e s = Some mac \<Longrightarrow> length mac = n"
  by (induction n e s arbitrary: mac rule: colon_octets.induct) (auto split: option.splits)

lemma dot_octets_length: "dot_octets n s = Some mac \<Longrightarrow> length mac = 2 * n"
  by (induction n s arbitrary: mac rule: dot_octets.induct) (auto split: option.splits)

lemma ParseMAC_length: "ParseMAC s = Inr mac \<Longrightarrow> length mac \<in> {6, 8, 20}"
  by (auto simp: ParseMAC_def Let_def split: if_splits option.splits dest!: colon_octets_length dot_octets_length)

end
