(* ===== verification/Flags.thy ===== *)
theory Flags
  imports Go_Text
begin

text \<open>
  What the commands use of Go's packages \<^verbatim>\<open>flag\<close>, \<^verbatim>\<open>strconv\<close> and \<^verbatim>\<open>time\<close>: a set
  of named flags with their current values, \<^verbatim>\<open>Parse\<close>, \<^verbatim>\<open>ParseBool\<close> and \<^verbatim>\<open>ParseDuration\<close>.
  The product of floating-point numbers that a fraction of a unit comes to is a parameter.
\<close>

section \<open>Durations\<close>

text \<open>Integers of 64 bits without a sign, checked against overflow before they are formed.\<close>

fun leadingInt :: "string \<Rightarrow> nat \<Rightarrow> (nat \<times> string) option" where
  "leadingInt [] x = Some (x, [])"
| "leadingInt (c # s) x =
     (if \<not> is_digit c then Some (x, c # s)
      else if 2 ^ 63 div 10 < x then None
      else (let y = 10 * x + digit_value c in if 2 ^ 63 < y then None else leadingInt s y))"

text \<open>A fraction keeps the digits that fit; the second component counts them.\<close>

fun leadingFraction :: "string \<Rightarrow> nat \<Rightarrow> nat \<Rightarrow> bool \<Rightarrow> nat \<times> nat \<times> string" where
  "leadingFraction [] x n overflow = (x, n, [])"
| "leadingFraction (c # s) x n overflow =
     (if \<not> is_digit c then (x, n, c # s)
      else if overflow \<or> (2 ^ 63 - 1) div 10 < x then leadingFraction s x n True
      else (let y = 10 * x + digit_value c
            in if 2 ^ 63 < y then leadingFraction s x n True else leadingFraction s y (n + 1) False))"

definition unitMap :: "(string \<times> nat) list" where
  "unitMap =
     [(''ns'', 1), (''us'', 1000), ([CHR 0xC2, CHR 0xB5, CHR ''s''], 1000), ([CHR 0xCE, CHR 0xBC, CHR ''s''], 1000),
      (''ms'', 1000000), (''s'', 1000000000), (''m'', 60000000000), (''h'', 3600000000000)]"

text \<open>\<open>frac f n unit\<close> stands for \<^verbatim>\<open>uint64(float64(f) * (float64(unit) / 10^n))\<close>.\<close>

type_synonym fraction = "nat \<Rightarrow> nat \<Rightarrow> nat \<Rightarrow> nat"

lemma leadingInt_length: "leadingInt s x = Some (y, r) \<Longrightarrow> length r \<le> length s"
  by (induction s x rule: leadingInt.induct) (auto simp: Let_def split: if_splits)

lemma leadingFraction_length: "leadingFraction s x n b = (y, k, r) \<Longrightarrow> length r \<le> length s"
  by (induction s x n b rule: leadingFraction.induct) (auto simp: Let_def split: if_splits)

definition unit_char :: "char \<Rightarrow> bool" where
  "unit_char c \<longleftrightarrow> c \<noteq> CHR ''.'' \<and> \<not> is_digit c"

text \<open>One number with its unit: what it comes to and what follows it.\<close>

definition durationTerm :: "fraction \<Rightarrow> string \<Rightarrow> (nat \<times> string) option" where
  "durationTerm frac s =
     (if s = [] \<or> \<not> (hd s = CHR ''.'' \<or> is_digit (hd s)) then None
      else (case leadingInt s 0 of
          None \<Rightarrow> None
        | Some (v, r) \<Rightarrow>
            (let pre = (length r \<noteq> length s);
                 (f, n, r', post) =
                   (case r of
                      c # r1 \<Rightarrow> if c = CHR ''.'' then (case leadingFraction r1 0 0 False of (f, n, r2) \<Rightarrow> (f, n, r2, length r2 \<noteq> length r1))
                                else (0, 0, r, False)
                    | [] \<Rightarrow> (0, 0, r, False));
                 u = takeWhile unit_char r'
             in if \<not> pre \<and> \<not> post then None
                else if u = [] then None
                else (case map_of unitMap u of
                    None \<Rightarrow> None
                  | Some unit \<Rightarrow>
                      if 2 ^ 63 div unit < v then None
                      else (let v' = (v * unit + (if 0 < f then frac f n unit else 0)) mod 2 ^ 64
                            in if 2 ^ 63 < v' then None else Some (v', dropWhile unit_char r'))))))"

lemma dropWhile_unit:
  "takeWhile unit_char t \<noteq> [] \<Longrightarrow> length t \<le> k \<Longrightarrow> length (dropWhile unit_char t) < k"
  by (cases t) (auto simp: Suc_le_eq intro: le_less_trans [OF length_dropWhile_le] split: if_splits)

lemma durationTerm_length: "durationTerm frac s = Some (v, r) \<Longrightarrow> length r < length s"
  unfolding durationTerm_def Let_def
  by (auto split: if_splits option.splits prod.splits list.splits
      dest!: leadingInt_length leadingFraction_length
      intro!: dropWhile_unit le_less_trans [OF length_dropWhile_le] simp: Suc_le_eq)

text \<open>The loop: the sum of the terms, with its carry out of 64 bits lost.\<close>

function durationTerms :: "fraction \<Rightarrow> string \<Rightarrow> nat \<Rightarrow> nat option" where
  "durationTerms frac s d =
     (if s = [] then Some d
      else (case durationTerm frac s of
          None \<Rightarrow> None
        | Some (v, r) \<Rightarrow> (let d' = (d + v) mod 2 ^ 64 in if 2 ^ 63 < d' then None else durationTerms frac r d')))"
  by pat_completeness auto

termination durationTerms
  by (relation "measure (\<lambda>(_, s, _). length s)") (auto dest: durationTerm_length)

declare durationTerms.simps [simp del]

definition ParseDuration :: "fraction \<Rightarrow> string \<Rightarrow> duration option" where
  "ParseDuration frac orig =
     (let neg = (orig \<noteq> [] \<and> hd orig = CHR ''-'');
          s = (if orig \<noteq> [] \<and> (hd orig = CHR ''-'' \<or> hd orig = CHR ''+'') then tl orig else orig)
      in if s = ''0'' then Some 0
         else if s = [] then None
         else (case durationTerms frac s 0 of
             None \<Rightarrow> None
           | Some d \<Rightarrow>
               if neg then Some (- int d) else if 2 ^ 63 - 1 < d then None else Some (int d)))"

section \<open>Truth values\<close>

definition ParseBool :: "string \<Rightarrow> bool option" where
  "ParseBool s =
     (if s \<in> {''1'', ''t'', ''T'', ''true'', ''TRUE'', ''True''} then Some True
      else if s \<in> {''0'', ''f'', ''F'', ''false'', ''FALSE'', ''False''} then Some False
      else None)"

section \<open>Sets of flags\<close>

datatype flag_value = StringValue string | BoolValue bool | DurationValue duration

type_synonym flag_set = "(string \<times> flag_value) list"

definition errParse :: go_error where
  "errParse = Errorf ''parse error'' []"

definition ErrHelp :: go_error where
  "ErrHelp = Errorf ''flag: help requested'' []"

text \<open>A flag keeps its type; a text it cannot read is an error.\<close>

fun setValue :: "fraction \<Rightarrow> flag_value \<Rightarrow> string \<Rightarrow> flag_value option" where
  "setValue frac (StringValue _) text = Some (StringValue text)"
| "setValue frac (BoolValue _) text = map_option BoolValue (ParseBool text)"
| "setValue frac (DurationValue _) text = map_option DurationValue (ParseDuration frac text)"

fun IsBoolFlag :: "flag_value \<Rightarrow> bool" where
  "IsBoolFlag (BoolValue _) = True"
| "IsBoolFlag _ = False"

fun assign :: "string \<Rightarrow> flag_value \<Rightarrow> flag_set \<Rightarrow> flag_set" where
  "assign name v [] = []"
| "assign name v ((k, old) # F) = (if k = name then (k, v) # F else (k, old) # assign name v F)"

text \<open>An argument that names a flag, without its dashes, and the value after its first \<open>=\<close>, which is never the first
  character.\<close>

definition splitFlag :: "string \<Rightarrow> string \<times> string option" where
  "splitFlag s =
     (let rest = dropWhile (\<lambda>c. c \<noteq> CHR ''='') (tl s)
      in (hd s # takeWhile (\<lambda>c. c \<noteq> CHR ''='') (tl s), if rest = [] then None else Some (tl rest)))"

definition dashes :: "string \<Rightarrow> nat" where
  "dashes s = (if s ! 1 = CHR ''-'' then 2 else 1)"

text \<open>\<^verbatim>\<open>FlagSet.Parse\<close>: the values after the flags have been read and the arguments that are left.\<close>

fun Parse :: "fraction \<Rightarrow> flag_set \<Rightarrow> string list \<Rightarrow> go_error + flag_set \<times> string list" where
  "Parse frac F [] = Inr (F, [])"
| "Parse frac F (s # args) =
     (if length s < 2 \<or> hd s \<noteq> CHR ''-'' then Inr (F, s # args)
      else if s = ''--'' then Inr (F, args)
      else (let body = drop (dashes s) s in
        if body = [] \<or> hd body = CHR ''-'' \<or> hd body = CHR ''='' then Inl (Errorf ''bad flag syntax: %s'' [TStr s])
        else (case splitFlag body of
          (name, given) \<Rightarrow>
            (case map_of F name of
               None \<Rightarrow> Inl (if name = ''help'' \<or> name = ''h'' then ErrHelp
                            else Errorf ''flag provided but not defined: -%s'' [TStr name])
             | Some v \<Rightarrow>
                 if IsBoolFlag v then
                   (let text = (case given of None \<Rightarrow> ''true'' | Some t \<Rightarrow> t) in
                    case setValue frac v text of
                      None \<Rightarrow> Inl (Wrapf ''invalid boolean value %q for -%s: %v'' [TQuoted text, TStr name] errParse)
                    | Some v' \<Rightarrow> Parse frac (assign name v' F) args)
                 else (case given of
                     Some text \<Rightarrow>
                       (case setValue frac v text of
                          None \<Rightarrow> Inl (Wrapf ''invalid value %q for flag -%s: %v'' [TQuoted text, TStr name] errParse)
                        | Some v' \<Rightarrow> Parse frac (assign name v' F) args)
                   | None \<Rightarrow>
                       (case args of
                          [] \<Rightarrow> Inl (Errorf ''flag needs an argument: -%s'' [TStr name])
                        | text # args' \<Rightarrow>
                            (case setValue frac v text of
                               None \<Rightarrow> Inl (Wrapf ''invalid value %q for flag -%s: %v'' [TQuoted text, TStr name] errParse)
                             | Some v' \<Rightarrow> Parse frac (assign name v' F) args')))))))"

section \<open>Durations print and parse\<close>

text \<open>A duration in nanoseconds, the unit every duration has a text in.\<close>

definition durationText :: "duration \<Rightarrow> string" where
  "durationText d = (if d < 0 then ''-'' else []) @ decimal (nat \<bar>d\<bar>) @ ''ns''"

lemma leadingInt_decimal: "n \<le> 2 ^ 63 \<Longrightarrow> leadingInt (decimal n @ r) 0 = leadingInt r n"
proof (induction n arbitrary: r rule: decimal.induct)
  case (1 n)
  note digit = is_digit_char_of [of n] is_digit_char_of [of "n mod 10"]
  show ?case
  proof (cases "n < 10")
    case True
    then show ?thesis using digit by (subst decimal.simps) simp
  next
    case False
    have small: "n div 10 \<le> 2 ^ 63 div 10" using 1(2) by (rule div_le_mono)
    then have "leadingInt (decimal (n div 10) @ char_of (48 + n mod 10) # r) 0 =
        leadingInt (char_of (48 + n mod 10) # r) (n div 10)"
      using 1 False by (intro 1(1)) auto
    also have "\<dots> = leadingInt r n" using digit small 1(2) by (simp add: Let_def)
    finally show ?thesis using False by (subst decimal.simps) simp
  qed
qed

lemma decimal_hd: "is_digit (hd (decimal n))"
  by (rule decimal_digits [of _ n]) simp

lemma durationTerm_ns: "n \<le> 2 ^ 63 \<Longrightarrow> durationTerm frac (decimal n @ ''ns'') = Some (n, [])"
proof -
  assume n: "n \<le> 2 ^ 63"
  have "leadingInt (decimal n @ ''ns'') 0 = Some (n, ''ns'')"
    using leadingInt_decimal [OF n] by (simp add: is_digit_def)
  moreover have "\<not> is_digit CHR ''n''" "\<not> is_digit CHR ''s''" by (simp_all add: is_digit_def)
  ultimately show ?thesis using n
    by (simp add: durationTerm_def decimal_hd Let_def unit_char_def unitMap_def)
qed

lemma ParseDuration_text: "fits_width 64 d \<Longrightarrow> ParseDuration frac (durationText d) = Some d"
proof -
  assume d: "fits_width 64 d"
  then have n: "nat \<bar>d\<bar> \<le> 2 ^ 63" by (auto simp: fits_width_def)
  then have terms: "durationTerms frac (decimal (nat \<bar>d\<bar>) @ ''ns'') 0 = Some (nat \<bar>d\<bar>)"
    by (subst durationTerms.simps) (simp add: durationTerm_ns durationTerms.simps)
  have sign: "hd (decimal k) \<noteq> CHR ''-'' \<and> hd (decimal k) \<noteq> CHR ''+''" for k
    by (rule digit_not_sign) (rule decimal_hd)
  have not0: "decimal k @ ''ns'' \<noteq> ''0''" for k by (cases "decimal k") auto
  show ?thesis
  proof (cases "d < 0")
    case True
    then show ?thesis using terms not0 by (simp add: ParseDuration_def durationText_def Let_def)
  next
    case False
    then show ?thesis using terms not0 sign d
      by (simp add: ParseDuration_def durationText_def Let_def fits_width_def)
  qed
qed

section \<open>Arguments that set flags\<close>

fun valueText :: "flag_value \<Rightarrow> string" where
  "valueText (StringValue s) = s"
| "valueText (BoolValue b) = (if b then ''true'' else ''false'')"
| "valueText (DurationValue d) = durationText d"

fun value_fits :: "flag_value \<Rightarrow> bool" where
  "value_fits (DurationValue d) = fits_width 64 d"
| "value_fits _ = True"

fun same_type :: "flag_value \<Rightarrow> flag_value \<Rightarrow> bool" where
  "same_type (StringValue _) (StringValue _) = True"
| "same_type (BoolValue _) (BoolValue _) = True"
| "same_type (DurationValue _) (DurationValue _) = True"
| "same_type _ _ = False"

definition flag_name :: "string \<Rightarrow> bool" where
  "flag_name n \<longleftrightarrow> n \<noteq> [] \<and> hd n \<noteq> CHR ''-'' \<and> CHR ''='' \<notin> set n"

fun flagArg :: "string \<times> flag_value \<Rightarrow> string" where
  "flagArg (name, v) = ''--'' @ name @ ''='' @ valueText v"

lemma setValue_text: "same_type old v \<Longrightarrow> value_fits v \<Longrightarrow> setValue frac old (valueText v) = Some v"
  by (cases old; cases v) (simp_all add: ParseBool_def ParseDuration_text)

lemma map_of_assign: "map_of (assign name v F) k = (if k = name \<and> map_of F name \<noteq> None then Some v else map_of F k)"
  by (induction F) (auto split: if_splits)

lemma assign_names: "map fst (assign name v F) = map fst F"
  by (induction F) auto

lemma splitFlag_set: "flag_name n \<Longrightarrow> splitFlag (n @ CHR ''='' # t) = (n, Some t)"
  by (cases n) (auto simp: flag_name_def splitFlag_def takeWhile_append dropWhile_append Let_def)

text \<open>One argument sets one flag, whatever follows it.\<close>

lemma Parse_flagArg:
  assumes "flag_name n" and "map_of F n = Some old" and "same_type old v" and "value_fits v"
  shows "Parse frac F (flagArg (n, v) # args) = Parse frac (assign n v F) args"
proof -
  obtain c m where n: "n = c # m" "c \<noteq> CHR ''-''" "c \<noteq> CHR ''=''"
    using assms(1) by (cases n) (auto simp: flag_name_def)
  let ?body = "n @ CHR ''='' # valueText v"
  have body: "drop (dashes (flagArg (n, v))) (flagArg (n, v)) = ?body" by (simp add: dashes_def)
  have "flagArg (n, v) \<noteq> ''--''" "length (flagArg (n, v)) \<ge> 2" "hd (flagArg (n, v)) = CHR ''-''" by simp_all
  then show ?thesis
    using assms n setValue_text [OF assms(3,4), of frac] body splitFlag_set [OF assms(1), of "valueText v"]
    by (simp del: flagArg.simps add: Let_def)
qed

text \<open>Arguments set flags in order, so the last setting of a flag counts.\<close>

definition assignAll :: "(string \<times> flag_value) list \<Rightarrow> flag_set \<Rightarrow> flag_set" where
  "assignAll settings F = fold (\<lambda>(n, v). assign n v) settings F"

definition may_set :: "flag_set \<Rightarrow> string \<times> flag_value \<Rightarrow> bool" where
  "may_set F s \<longleftrightarrow> flag_name (fst s) \<and> value_fits (snd s) \<and>
     (\<exists>old. map_of F (fst s) = Some old \<and> same_type old (snd s))"

lemma same_type_trans: "same_type a b \<Longrightarrow> same_type a c \<Longrightarrow> same_type b c"
  by (cases a; cases b; cases c) simp_all

lemma may_set_assign: "may_set F s \<Longrightarrow> may_set F (n, v) \<Longrightarrow> may_set (assign n v F) s"
  by (auto simp: may_set_def map_of_assign intro: same_type_trans)

theorem Parse_settings:
  assumes "\<forall>s\<in>set settings. may_set F s"
  shows "Parse frac F (map flagArg settings @ args) = Parse frac (assignAll settings F) args"
  using assms
proof (induction settings arbitrary: F)
  case (Cons s settings)
  obtain n v where s: "s = (n, v)" by force
  with Cons.prems have set: "may_set F (n, v)" by simp
  then have "Parse frac F (flagArg (n, v) # map flagArg settings @ args) =
      Parse frac (assign n v F) (map flagArg settings @ args)"
    unfolding may_set_def by (auto simp del: flagArg.simps Parse.simps intro: Parse_flagArg)
  also have "\<dots> = Parse frac (assignAll settings (assign n v F)) args"
    using Cons.prems set by (intro Cons.IH) (auto intro: may_set_assign)
  finally show ?case by (simp add: s assignAll_def del: flagArg.simps)
qed (simp add: assignAll_def)

lemma map_of_assignAll:
  "map_of F k \<noteq> None \<Longrightarrow>
   map_of (assignAll settings F) k = (case map_of (rev settings) k of None \<Rightarrow> map_of F k | Some v \<Rightarrow> Some v)"
proof (induction settings arbitrary: F)
  case (Cons s settings)
  obtain n v where s: "s = (n, v)" by force
  have "map_of (assign n v F) k \<noteq> None" using Cons.prems by (simp add: map_of_assign)
  from Cons.IH [OF this] show ?case
    using Cons.prems by (auto simp: s assignAll_def map_of_assign map_add_def split: option.splits)
qed (simp add: assignAll_def)

text \<open>Arguments end the flags when the first of them is no flag.\<close>

definition no_flag :: "string list \<Rightarrow> bool" where
  "no_flag args \<longleftrightarrow> (case args of [] \<Rightarrow> True | s # _ \<Rightarrow> length s < 2 \<or> hd s \<noteq> CHR ''-'')"

lemma Parse_no_flag: "no_flag args \<Longrightarrow> Parse frac F args = Inr (F, args)"
  by (cases args) (auto simp: no_flag_def)

text \<open>Parsing never changes which flags there are or their types.\<close>

lemma setValue_type: "setValue frac v t = Some v' \<Longrightarrow> same_type v v'"
  by (cases v) auto

end
