(* ===== verification/Commands.thy ===== *)
theory Commands
  imports Wol_Agent Machine_Controller Shutdown_Agent Flags
begin

text \<open>
  The four commands (\<^verbatim>\<open>cmd/*\<close>), from their arguments and environment to the servers and reconcilers they run, and the
  package \<^verbatim>\<open>internal/logging\<close> they share: the flags, the log level, the bearer token of the wake endpoint on both
  of its sides, the registry of power providers, the field indexes the reconcilers list by, the refusal to run
  without a token or without a node name, the registration of the API types with the client's scheme, and the life
  of the wol-agent's HTTP server. Arguments and environment variables are parameters, and so is what the controller
  framework answers; a process that ends is the value \<^term>\<open>Inl\<close> of what it reports or of its exit code.
\<close>

section \<open>Logging\<close>

datatype level = LevelDebug | LevelInfo | LevelWarn | LevelError

definition ParseLevel :: "string \<Rightarrow> go_error + level" where
  "ParseLevel s =
     (let name = ToLower (TrimSpace s) in
      if name = ''debug'' then Inr LevelDebug
      else if name = ''info'' then Inr LevelInfo
      else if name = ''warn'' then Inr LevelWarn
      else if name = ''error'' then Inr LevelError
      else Inl (Errorf ''logging: unknown level %q (want debug|info|warn|error)'' [TQuoted s]))"

text \<open>slog's built-in keys become those of the Elastic Common Schema, at the top level only.\<close>

definition ecsKeys :: "string list \<Rightarrow> string \<times> 'v \<Rightarrow> string \<times> 'v" where
  "ecsKeys groups a =
     (if groups \<noteq> [] then a
      else if fst a = ''time'' then (''@timestamp'', snd a)
      else if fst a = ''level'' then (''log.level'', snd a)
      else if fst a = ''msg'' then (''message'', snd a)
      else a)"

record 'o options =
  opt_Level :: "level option"
  opt_Output :: "'o option"
  opt_AddSource :: bool

record ('o, 'v) json_handler =
  jh_Output :: 'o
  jh_Level :: "level option"
  jh_AddSource :: bool
  jh_ReplaceAttr :: "string list \<Rightarrow> string \<times> 'v \<Rightarrow> string \<times> 'v"

text \<open>\<^verbatim>\<open>logging.New\<close> over the process's standard output.\<close>

definition newLogger :: "'o \<Rightarrow> 'o options \<Rightarrow> ('o, 'v) json_handler" where
  "newLogger stdout opts =
     \<lparr>jh_Output = (case opt_Output opts of None \<Rightarrow> stdout | Some out \<Rightarrow> out),
      jh_Level = opt_Level opts, jh_AddSource = opt_AddSource opts, jh_ReplaceAttr = ecsKeys\<rparr>"

section \<open>onp-controller\<close>

definition wolOpts :: "string \<Rightarrow> ('w client \<Rightarrow> 'w client) list" where
  "wolOpts env = (let token = TrimSpace env in if token \<noteq> [] then [WithToken token] else [])"

definition controllerRegistry ::
  "(duration \<Rightarrow> 'w transport) \<Rightarrow> (string \<Rightarrow> go_error option) \<Rightarrow> string \<Rightarrow> string \<Rightarrow> go_error + 'w registry" where
  "controllerRegistry default_http badURL wolAgentEndpoint env =
     Register NewRegistry (NewWoLProvider badURL (NewClient default_http wolAgentEndpoint None (wolOpts env)))"

definition machineNodeNameKeys :: "machine \<Rightarrow> string list" where
  "machineNodeNameKeys m = (if spec_nodeName (m_spec m) = [] then [] else [spec_nodeName (m_spec m)])"

definition podNodeNameKeys :: "pod \<Rightarrow> string list" where
  "podNodeNameKeys p = (if pod_nodeName p = [] then [] else [pod_nodeName p])"

record controller_flags =
  fl_metricsAddr :: string
  fl_probeAddr :: string
  fl_leaderElect :: bool
  fl_bootTimeout :: duration
  fl_shutdownTimeout :: duration
  fl_nodeLossGracePeriod :: duration
  fl_wolAgentEndpoint :: string
  fl_logLevel :: string

definition controllerFlagSet :: flag_set where
  "controllerFlagSet =
     [(''metrics-bind-address'', StringValue '':8080''), (''health-probe-bind-address'', StringValue '':8081''),
      (''leader-elect'', BoolValue False), (''log-level'', StringValue ''info''),
      (''boot-timeout'', DurationValue (10 * minute)), (''shutdown-timeout'', DurationValue (5 * minute)),
      (''node-loss-grace-period'', DurationValue minute),
      (''wol-agent-endpoint'', StringValue ''http://onp-wol-agent:9119'')]"

text \<open>The variables the flags are bound to, after they have been parsed.\<close>

definition stringVar :: "flag_set \<Rightarrow> string \<Rightarrow> string" where
  "stringVar F name = (case map_of F name of Some (StringValue s) \<Rightarrow> s | _ \<Rightarrow> [])"

definition boolVar :: "flag_set \<Rightarrow> string \<Rightarrow> bool" where
  "boolVar F name = (case map_of F name of Some (BoolValue b) \<Rightarrow> b | _ \<Rightarrow> False)"

definition durationVar :: "flag_set \<Rightarrow> string \<Rightarrow> duration" where
  "durationVar F name = (case map_of F name of Some (DurationValue d) \<Rightarrow> d | _ \<Rightarrow> 0)"

definition controllerFlags :: "flag_set \<Rightarrow> controller_flags" where
  "controllerFlags F =
     \<lparr>fl_metricsAddr = stringVar F ''metrics-bind-address'', fl_probeAddr = stringVar F ''health-probe-bind-address'',
      fl_leaderElect = boolVar F ''leader-elect'', fl_bootTimeout = durationVar F ''boot-timeout'',
      fl_shutdownTimeout = durationVar F ''shutdown-timeout'',
      fl_nodeLossGracePeriod = durationVar F ''node-loss-grace-period'',
      fl_wolAgentEndpoint = stringVar F ''wol-agent-endpoint'', fl_logLevel = stringVar F ''log-level''\<rparr>"

record manager_options =
  mo_BindAddress :: string
  mo_HealthProbeBindAddress :: string
  mo_LeaderElection :: bool
  mo_LeaderElectionID :: string
  mo_LeaderElectionReleaseOnCancel :: bool

definition controllerManagerOptions :: "controller_flags \<Rightarrow> manager_options" where
  "controllerManagerOptions fl =
     \<lparr>mo_BindAddress = fl_metricsAddr fl, mo_HealthProbeBindAddress = fl_probeAddr fl,
      mo_LeaderElection = fl_leaderElect fl, mo_LeaderElectionID = ''onp-controller.onp.io'',
      mo_LeaderElectionReleaseOnCancel = True\<rparr>"

text \<open>The calls of a \<^verbatim>\<open>main\<close> that may fail, in order, each with the message it is reported with; the first failure
  ends the process.\<close>

fun first_failure :: "(string \<times> go_error option) list \<Rightarrow> (string \<times> go_error) option" where
  "first_failure [] = None"
| "first_failure ((msg, None) # steps) = first_failure steps"
| "first_failure ((msg, Some e) # steps) = Some (msg, e)"

definition controllerReconciler :: "'w env \<Rightarrow> 'w registry \<Rightarrow> controller_flags \<Rightarrow> 'w machine_reconciler" where
  "controllerReconciler E registry fl =
     \<lparr>mr_env = E, mr_Registry = registry, mr_BootTimeout = fl_bootTimeout fl,
      mr_ShutdownTimeout = fl_shutdownTimeout fl, mr_NodeLossGracePeriod = fl_nodeLossGracePeriod fl, mr_Evict = None\<rparr>"

text \<open>\<open>fw\<close> is the outcome of a call into the controller framework, by its message; making a manager depends on the
  options too. Reading the cluster's configuration and registering the collector are reported by the libraries, the
  first with exit code 1 and the second by a panic.\<close>

definition noConfig :: string where
  "noConfig = ''unable to get kubeconfig''"

definition mustRegister :: string where
  "mustRegister = ''register state collector''"

definition controllerMain ::
  "'w env \<Rightarrow> (duration \<Rightarrow> 'w transport) \<Rightarrow> (string \<Rightarrow> go_error option) \<Rightarrow> (manager_options \<Rightarrow> go_error option) \<Rightarrow>
   (string \<Rightarrow> go_error option) \<Rightarrow> controller_flags \<Rightarrow> string \<Rightarrow>
   (string \<times> go_error) + level \<times> manager_options \<times> 'w machine_reconciler" where
  "controllerMain E default_http badURL newManager fw fl env =
     (case ParseLevel (fl_logLevel fl) of
        Inl e \<Rightarrow> Inl ([], e)
      | Inr lvl \<Rightarrow>
          (let registry = controllerRegistry default_http badURL (fl_wolAgentEndpoint fl) env;
               opts = controllerManagerOptions fl;
               call = (\<lambda>msg. (msg, fw msg));
               steps =
                 [call noConfig, (''unable to create manager'', newManager opts),
                  (''unable to register power provider'', case registry of Inl e \<Rightarrow> Some e | Inr _ \<Rightarrow> None),
                  call ''unable to set up machine field indexer'', call ''unable to set up pod field indexer'',
                  call ''unable to set up machine reconciler'', call ''unable to set up nodepool reconciler'',
                  call ''unable to set up scale-up reconciler'', call ''unable to set up scale-down reconciler'',
                  call mustRegister,
                  call ''unable to set up health check'', call ''unable to set up ready check'',
                  call ''manager exited with error'']
           in case first_failure steps of
                Some failure \<Rightarrow> Inl failure
              | None \<Rightarrow> Inr (lvl, opts, controllerReconciler E (projr registry) fl)))"

text \<open>The exit code of a process: a flag set that ends the process on an error ends it with 2, and with 0 when help was asked
  for; a panic ends it with 2 and \<^verbatim>\<open>os.Exit(1)\<close> with 1.\<close>

definition parseExit :: "go_error \<Rightarrow> nat" where
  "parseExit e = (if e = ErrHelp then 0 else 2)"

definition mainExit :: "string \<times> go_error \<Rightarrow> nat" where
  "mainExit failure = (if fst failure = mustRegister then 2 else 1)"

text \<open>The whole command. \<open>lib\<close> are the flags that imported packages register at the same set, such as
  \<^verbatim>\<open>--kubeconfig\<close>.\<close>

definition controllerCommand ::
  "'w env \<Rightarrow> (duration \<Rightarrow> 'w transport) \<Rightarrow> (string \<Rightarrow> go_error option) \<Rightarrow> (manager_options \<Rightarrow> go_error option) \<Rightarrow>
   (string \<Rightarrow> go_error option) \<Rightarrow> fraction \<Rightarrow> flag_set \<Rightarrow> string list \<Rightarrow> string \<Rightarrow>
   nat + level \<times> manager_options \<times> 'w machine_reconciler" where
  "controllerCommand E default_http badURL newManager fw frac lib args env =
     (case Parse frac (controllerFlagSet @ lib) args of
        Inl e \<Rightarrow> Inl (parseExit e)
      | Inr (F, _) \<Rightarrow>
          (case controllerMain E default_http badURL newManager fw (controllerFlags F) env of
             Inl failure \<Rightarrow> Inl (mainExit failure)
           | Inr running \<Rightarrow> Inr running))"

section \<open>onp-wol-agent\<close>

definition agentToken :: "string \<Rightarrow> string" where
  "agentToken env = TrimSpace env"

text \<open>\<^verbatim>\<open>main\<close> up to \<^verbatim>\<open>run\<close>: the level and the token the server starts with.\<close>

definition agentStart :: "string \<Rightarrow> bool \<Rightarrow> string \<Rightarrow> go_error + level \<times> string" where
  "agentStart logLevel requireToken env =
     (case ParseLevel logLevel of
        Inl e \<Rightarrow> Inl e
      | Inr lvl \<Rightarrow>
          if agentToken env = [] \<and> requireToken
          then Inl (Errorf ''no bearer token configured and --require-token is set; refusing to serve /wake unauthenticated'' [])
          else Inr (lvl, agentToken env))"

definition agentFlagSet :: flag_set where
  "agentFlagSet =
     [(''listen-addr'', StringValue '':9119''), (''log-level'', StringValue ''info''), (''require-token'', BoolValue False)]"

definition readHeaderTimeout :: duration where
  "readHeaderTimeout = 5 * second"

definition readTimeout :: duration where
  "readTimeout = 10 * second"

definition writeTimeout :: duration where
  "writeTimeout = 10 * second"

definition shutdownTimeout :: duration where
  "shutdownTimeout = 10 * second"

text \<open>The handler on the path the router extracted, and the server around it.\<close>

definition agentServer :: "'w net \<Rightarrow> (string \<Rightarrow> 'w handler) \<Rightarrow> string \<Rightarrow> string \<Rightarrow> 'w handler" where
  "agentServer N other token path = Handler N other None token path"

record 'w http_server =
  srv_Addr :: string
  srv_Handler :: "string \<Rightarrow> 'w handler"
  srv_ReadHeaderTimeout :: duration
  srv_ReadTimeout :: duration
  srv_WriteTimeout :: duration

definition agentHTTPServer :: "'w net \<Rightarrow> (string \<Rightarrow> 'w handler) \<Rightarrow> string \<Rightarrow> string \<Rightarrow> 'w http_server" where
  "agentHTTPServer N other listenAddr token =
     \<lparr>srv_Addr = listenAddr, srv_Handler = agentServer N other token, srv_ReadHeaderTimeout = readHeaderTimeout,
      srv_ReadTimeout = readTimeout, srv_WriteTimeout = writeTimeout\<rparr>"

text \<open>The server that a start of the command runs, or its exit code.\<close>

definition agentCommand ::
  "'w net \<Rightarrow> (string \<Rightarrow> 'w handler) \<Rightarrow> fraction \<Rightarrow> string list \<Rightarrow> string \<Rightarrow> nat + level \<times> 'w http_server" where
  "agentCommand N other frac args env =
     (case Parse frac agentFlagSet args of
        Inl e \<Rightarrow> Inl (parseExit e)
      | Inr (F, _) \<Rightarrow>
          (case agentStart (stringVar F ''log-level'') (boolVar F ''require-token'') env of
             Inl _ \<Rightarrow> Inl 1
           | Inr (lvl, token) \<Rightarrow> Inr (lvl, agentHTTPServer N other (stringVar F ''listen-addr'') token)))"

text \<open>The \<^verbatim>\<open>select\<close> of \<^verbatim>\<open>run\<close>: the server returns first or a signal arrives first. A server always
  returns an error, \<^verbatim>\<open>ErrServerClosed\<close> after a shutdown. \<open>shutdown\<close> is the outcome of shutting the server down
  within a timeout, and \<open>returned\<close> what the server returns after it.\<close>

datatype select_case = ServerReturned go_error | SignalReceived

definition ErrServerClosed :: go_error where
  "ErrServerClosed = Errorf ''http: Server closed'' []"

text \<open>\<^verbatim>\<open>errors.Is\<close> follows the chain of wrapped errors.\<close>

fun errorIs :: "go_error \<Rightarrow> go_error \<Rightarrow> bool" where
  "errorIs (Wrapf f args e) target = (Wrapf f args e = target \<or> errorIs e target)"
| "errorIs e target = (e = target)"

definition agentRun :: "select_case \<Rightarrow> (duration \<Rightarrow> go_error option) \<Rightarrow> go_error option \<Rightarrow> go_error + unit" where
  "agentRun first shutdown returned =
     (case first of
        ServerReturned e \<Rightarrow> Inl (Wrapf ''listen: %w'' [] e)
      | SignalReceived \<Rightarrow>
          (case shutdown shutdownTimeout of
             Some e \<Rightarrow> Inl (Wrapf ''graceful shutdown: %w'' [] e)
           | None \<Rightarrow>
               (case returned of
                  None \<Rightarrow> Inr ()
                | Some e \<Rightarrow> if errorIs e ErrServerClosed then Inr () else Inl (Wrapf ''serve: %w'' [] e))))"

definition agentExit :: "select_case \<Rightarrow> (duration \<Rightarrow> go_error option) \<Rightarrow> go_error option \<Rightarrow> nat" where
  "agentExit first shutdown returned = (case agentRun first shutdown returned of Inl _ \<Rightarrow> 1 | Inr _ \<Rightarrow> 0)"

section \<open>wol-probe\<close>

text \<open>No flag is defined, so every flag but a request for help is an error. The exit code, and the line that reports a
  packet.\<close>

definition probeCommand :: "'w net \<Rightarrow> fraction \<Rightarrow> string list \<Rightarrow> ('w, net_action, go_error, nat \<times> string) prog" where
  "probeCommand N frac argv =
     (case Parse frac [] argv of
        Inl e \<Rightarrow> ret (parseExit e, [])
      | Inr (_, args) \<Rightarrow>
          bind (attempt (probeRun N args)) (\<lambda>r. case r of Inl _ \<Rightarrow> ret (1, []) | Inr line \<Rightarrow> ret (0, line)))"

section \<open>onp-shutdown-agent\<close>

text \<open>The node's name defaults to the environment variable. Running a command and reading \<^verbatim>\<open>/proc/stat\<close> are
  parameters.\<close>

definition shutdownFlagSet :: "string \<Rightarrow> flag_set" where
  "shutdownFlagSet env =
     [(''node-name'', StringValue env), (''metrics-bind-address'', StringValue '':8080''),
      (''health-probe-bind-address'', StringValue '':8081''), (''log-level'', StringValue ''info'')]"

record shutdown_flags =
  sf_nodeName :: string
  sf_metricsAddr :: string
  sf_probeAddr :: string
  sf_logLevel :: string

definition shutdownFlags :: "flag_set \<Rightarrow> shutdown_flags" where
  "shutdownFlags F =
     \<lparr>sf_nodeName = stringVar F ''node-name'', sf_metricsAddr = stringVar F ''metrics-bind-address'',
      sf_probeAddr = stringVar F ''health-probe-bind-address'', sf_logLevel = stringVar F ''log-level''\<rparr>"

definition shutdownManagerOptions :: "shutdown_flags \<Rightarrow> manager_options" where
  "shutdownManagerOptions fl =
     \<lparr>mo_BindAddress = sf_metricsAddr fl, mo_HealthProbeBindAddress = sf_probeAddr fl, mo_LeaderElection = False,
      mo_LeaderElectionID = [], mo_LeaderElectionReleaseOnCancel = False\<rparr>"

definition agentReconciler ::
  "'w env \<Rightarrow> (string \<Rightarrow> string list \<Rightarrow> 'w \<Rightarrow> (string \<times> go_error option) \<times> 'w) \<Rightarrow>
   ('w \<Rightarrow> (go_error + string \<times> go_error option) \<times> 'w) \<Rightarrow> string \<Rightarrow> 'w shutdown_reconciler" where
  "agentReconciler E exec open_stat nodeName =
     \<lparr>sr_env = E, sr_NodeName = nodeName, sr_PowerOff = SystemctlPowerOff exec, sr_Recorder = True, sr_BootTime = Some (HostBootTime open_stat)\<rparr>"

definition shutdownAgentMain ::
  "'w env \<Rightarrow> (string \<Rightarrow> string list \<Rightarrow> 'w \<Rightarrow> (string \<times> go_error option) \<times> 'w) \<Rightarrow>
   ('w \<Rightarrow> (go_error + string \<times> go_error option) \<times> 'w) \<Rightarrow> (manager_options \<Rightarrow> go_error option) \<Rightarrow>
   (string \<Rightarrow> go_error option) \<Rightarrow> shutdown_flags \<Rightarrow>
   (string \<times> go_error) + level \<times> manager_options \<times> 'w shutdown_reconciler" where
  "shutdownAgentMain E exec open_stat newManager fw fl =
     (case ParseLevel (sf_logLevel fl) of
        Inl e \<Rightarrow> Inl ([], e)
      | Inr lvl \<Rightarrow>
          (let opts = shutdownManagerOptions fl; call = (\<lambda>msg. (msg, fw msg)) in
           if sf_nodeName fl = [] then Inl (''set --node-name or the NODE_NAME env var'', Errorf ''node name is empty'' [])
           else case first_failure
               [call noConfig, (''unable to create manager'', newManager opts),
                call ''unable to set up shutdown reconciler'',
                call ''unable to set up health check'', call ''unable to set up ready check'',
                call ''manager exited with error''] of
             Some failure \<Rightarrow> Inl failure
           | None \<Rightarrow> Inr (lvl, opts, agentReconciler E exec open_stat (sf_nodeName fl))))"

definition shutdownCommand ::
  "'w env \<Rightarrow> (string \<Rightarrow> string list \<Rightarrow> 'w \<Rightarrow> (string \<times> go_error option) \<times> 'w) \<Rightarrow>
   ('w \<Rightarrow> (go_error + string \<times> go_error option) \<times> 'w) \<Rightarrow> (manager_options \<Rightarrow> go_error option) \<Rightarrow>
   (string \<Rightarrow> go_error option) \<Rightarrow> fraction \<Rightarrow> flag_set \<Rightarrow> string list \<Rightarrow> string \<Rightarrow>
   nat + level \<times> manager_options \<times> 'w shutdown_reconciler" where
  "shutdownCommand E exec open_stat newManager fw frac lib args env =
     (case Parse frac (shutdownFlagSet env @ lib) args of
        Inl e \<Rightarrow> Inl (parseExit e)
      | Inr (F, _) \<Rightarrow>
          (case shutdownAgentMain E exec open_stat newManager fw (shutdownFlags F) of
             Inl failure \<Rightarrow> Inl (mainExit failure)
           | Inr running \<Rightarrow> Inr running))"

section \<open>Registration of the API types\<close>

text \<open>What the program uses of the scheme builder and of the scheme, which belong to libraries: a builder for a group and
  version, adding kinds to it, and adding what it holds to a scheme.\<close>

record ('b, 's) scheme_package =
  sp_Builder :: "string \<times> string \<Rightarrow> 'b"
  sp_Register :: "string list \<Rightarrow> 'b \<Rightarrow> 'b"
  sp_AddToScheme :: "'b \<Rightarrow> 's \<Rightarrow> go_error + 's"

definition GroupVersion :: "string \<times> string" where
  "GroupVersion = (''onp.io'', ''v1alpha1'')"

definition SchemeBuilder :: "('b, 's) scheme_package \<Rightarrow> 'b" where
  "SchemeBuilder P = sp_Builder P GroupVersion"

definition initMachineTypes :: "('b, 's) scheme_package \<Rightarrow> 'b \<Rightarrow> 'b" where
  "initMachineTypes P b = sp_Register P [''Machine'', ''MachineList''] b"

definition initNodePoolTypes :: "('b, 's) scheme_package \<Rightarrow> 'b \<Rightarrow> 'b" where
  "initNodePoolTypes P b = sp_Register P [''NodePool'', ''NodePoolList''] b"

text \<open>The package initialises its files in the order of their names.\<close>

definition AddToScheme :: "('b, 's) scheme_package \<Rightarrow> 's \<Rightarrow> go_error + 's" where
  "AddToScheme P = sp_AddToScheme P (initNodePoolTypes P (initMachineTypes P (SchemeBuilder P)))"

text \<open>\<^verbatim>\<open>init\<close> of the two commands that talk to the cluster; \<^term>\<open>Inl\<close> is the panic.\<close>

definition initScheme :: "('b, 's) scheme_package \<Rightarrow> ('s \<Rightarrow> go_error + 's) \<Rightarrow> 's \<Rightarrow> go_error + 's" where
  "initScheme P clientgo newScheme =
     (case clientgo newScheme of Inl e \<Rightarrow> Inl e | Inr s \<Rightarrow> AddToScheme P s)"

section \<open>Facts\<close>

lemma ecsKeys_value: "snd (ecsKeys groups a) = snd a"
  by (simp add: ecsKeys_def)

lemma ecsKeys_nested: "groups \<noteq> [] \<Longrightarrow> ecsKeys groups a = a"
  by (simp add: ecsKeys_def)

text \<open>The one provider of the controller.\<close>

lemma controllerRegistry_get:
  "registry_get (projr (controllerRegistry http badURL endpoint env)) name =
     (if name = providerNameWoL
      then Some (NewWoLProvider badURL (NewClient http endpoint None (wolOpts env))) else None)"
  "\<not> isl (controllerRegistry http badURL endpoint env)"
proof -
  let ?p = "NewWoLProvider badURL (NewClient http endpoint None (wolOpts env))"
  obtain r where r: "controllerRegistry http badURL endpoint env = Inr r"
    by (simp add: controllerRegistry_def Register_def NewRegistry_def has_key_iff)
  with Register_get [of NewRegistry ?p r name]
  show "registry_get (projr (controllerRegistry http badURL endpoint env)) name =
      (if name = providerNameWoL then Some ?p else None)"
    by (simp add: controllerRegistry_def) (simp add: registry_get_def NewRegistry_def NewWoLProvider_def)
  from r show "\<not> isl (controllerRegistry http badURL endpoint env)" by simp
qed

lemma NewClient_fields:
  "cl_token (NewClient http endpoint None (wolOpts env)) = TrimSpace env"
  "cl_http (NewClient http endpoint None (wolOpts env)) = http defaultTimeout"
  "cl_baseURL (NewClient http endpoint None (wolOpts env)) = TrimRight endpoint ''/''"
  by (simp_all add: NewClient_def wolOpts_def WithToken_def Let_def)

text \<open>A shutdown agent that runs knows its node, and a wol-agent that must have a token has one.\<close>

lemma shutdownAgentMain_node:
  "shutdownAgentMain E exec open_stat newManager fw fl = Inr (lvl, opts, R) \<Longrightarrow>
   sf_nodeName fl \<noteq> [] \<and> R = agentReconciler E exec open_stat (sf_nodeName fl)"
  by (auto simp: shutdownAgentMain_def Let_def split: sum.splits if_splits option.splits)

lemma agentStart_token:
  "agentStart logLevel requireToken env = Inr (lvl, token) \<Longrightarrow> token = agentToken env \<and> (requireToken \<longrightarrow> token \<noteq> [])"
  by (auto simp: agentStart_def split: sum.splits if_splits)

text \<open>The Machine reconciler that runs has the timeouts of the flags and the registry with the one provider.\<close>

lemma controllerMain_running:
  "controllerMain E http badURL newManager fw fl env = Inr (lvl, opts, R) \<Longrightarrow>
   R = controllerReconciler E (projr (controllerRegistry http badURL (fl_wolAgentEndpoint fl) env)) fl \<and>
   opts = controllerManagerOptions fl \<and> ParseLevel (fl_logLevel fl) = Inr lvl"
  by (auto simp: controllerMain_def Let_def split: sum.splits option.splits)

lemma first_failure_none: "first_failure steps = None \<longleftrightarrow> (\<forall>s\<in>set steps. snd s = None)"
  by (induction steps rule: first_failure.induct) auto

lemma controllerMain_starts:
  assumes "ParseLevel (fl_logLevel fl) = Inr lvl" and "newManager (controllerManagerOptions fl) = None" and "\<forall>msg. fw msg = None"
  shows "controllerMain E http badURL newManager fw fl env =
    Inr (lvl, controllerManagerOptions fl, controllerReconciler E (projr (controllerRegistry http badURL (fl_wolAgentEndpoint fl) env)) fl)"
  using assms controllerRegistry_get(2) [of http badURL "fl_wolAgentEndpoint fl" env]
  by (cases "controllerRegistry http badURL (fl_wolAgentEndpoint fl) env") (simp_all add: controllerMain_def Let_def)

end
