(* ===== verification/Wake_Path.thy ===== *)
theory Wake_Path
  imports Commands Reference_Store
begin

text \<open>
  The wake path from end to end: what the agent's HTTP surface lets through, and what a successful
  \<^verbatim>\<open>PowerOn\<close> of the controller's provider has put on the wire once client, wire format, handler and
  packet builder are composed. The contract of \<^verbatim>\<open>Waker\<close> is a locale; \<^verbatim>\<open>wol.Send\<close> meets it.
\<close>

section \<open>The contract of a waker\<close>

definition wrote :: "bytes \<Rightarrow> net_action list \<Rightarrow> bool" where
  "wrote pkt as \<longleftrightarrow> (\<exists>conn addr. WriteToUDP conn pkt addr (Inr ()) \<in> set as)"

lemma wrote_Nil [simp]: "\<not> wrote pkt []"
  by (simp add: wrote_def)

lemma resp_code_simps [simp]: "resp_code (respond h c b) = c" "resp_code (http_Error h msg c) = c"
  by (simp_all add: respond_def http_Error_def)

fun writes_only :: "bytes \<Rightarrow> net_action \<Rightarrow> bool" where
  "writes_only mac (WriteToUDP conn pkt addr r) = (BuildPacket mac = Inr pkt)"
| "writes_only mac a = True"

text \<open>What a response says of the interactions, and what the request must be when there are any.\<close>

definition answer_tells :: "net_action list \<Rightarrow> http_response \<Rightarrow> bool" where
  "answer_tells as resp \<longleftrightarrow>
     resp_code resp \<in> {204, 400, 401, 405, 413, 502} \<and> (resp_code resp = 204 \<longleftrightarrow> (\<exists>pkt. wrote pkt as)) \<and>
     (resp_code resp \<in> {400, 401, 405, 413} \<longrightarrow> as = [])"

definition valid_wake :: "http_request \<Rightarrow> net_action list \<Rightarrow> bool" where
  "valid_wake r as \<longleftrightarrow> hr_method r = ''POST'' \<and>
     (\<exists>req mac. decodeWake maxBodyBytes (hr_body r) = Inr req \<and> ParseMAC (wr_MacAddress req) = Inr mac \<and>
        length mac = 6 \<and> list_all (writes_only mac) as)"

lemma rejection_tells: "status \<in> {400, 401, 405, 413} \<Longrightarrow> answer_tells [] (http_Error h msg status)"
  by (auto simp: answer_tells_def)

text \<open>A waker writes nothing but the packet of the address it is given, and succeeds exactly when it has written it.\<close>

locale waker_contract =
  fixes waker :: "'w waker"
  assumes writes: "wp (waker mac bc) (\<lambda>as r. list_all (writes_only mac) as)"
    and reports: "wp (waker mac bc) (\<lambda>as r. r = Inr () \<longleftrightarrow> (\<exists>pkt. wrote pkt as))"
begin

lemma attempt_answers:
  "wp (bind (attempt (waker mac bc)) (\<lambda>sent. case sent of
         Inl _ \<Rightarrow> ret (http_Error [] ''send failed'' 502) | Inr _ \<Rightarrow> ret (respond [] 204 [])))
     (\<lambda>as res. \<exists>resp. res = Inr resp \<and> answer_tells as resp \<and> list_all (writes_only mac) as)"
proof (rule wp_bind, rule wp_attempt, rule wp_mono [OF wp_conj [OF writes reports]], goal_cases)
  case (1 as r)
  then show ?case by (cases r) (auto intro!: wp_ret simp: answer_tells_def)
qed

text \<open>The response of \<^verbatim>\<open>/wake\<close> tells whether a packet was sent, and a packet is sent only for a valid
  request.\<close>

lemma wakeHandler_answers:
  "wp (wakeHandler waker r) (\<lambda>as res. \<exists>resp. res = Inr resp \<and> answer_tells as resp \<and> (as \<noteq> [] \<longrightarrow> valid_wake r as))"
  unfolding wakeHandler_def Let_def
  by (intro wp_if wp_case_sum)
    (auto intro!: wp_ret wp_mono [OF attempt_answers] simp: valid_wake_def rejection_tells)

lemma gated_answers:
  "wp (requireBearer token (wakeHandler waker) r) (\<lambda>as res. \<exists>resp. res = Inr resp \<and> answer_tells as resp \<and>
     (as \<noteq> [] \<longrightarrow> valid_wake r as \<and>
       (token = [] \<or> header_get (hr_header r) ''Authorization'' = ''Bearer '' @ token)))"
  unfolding requireBearer_def
  by (intro wp_if) (auto intro!: wp_ret wp_mono [OF wakeHandler_answers] simp: rejection_tells)

end

lemma Send_writes: "wp (Send N mac bc) (\<lambda>as r. list_all (writes_only mac) as)"
  unfolding Send_def resolveBroadcast_def enableBroadcast_def close_after_def
  by (auto intro!: wp_rules split: sum.splits)

lemma Send_reports: "wp (Send N mac bc) (\<lambda>as r. r = Inr () \<longleftrightarrow> (\<exists>pkt. wrote pkt as))"
  unfolding Send_def resolveBroadcast_def enableBroadcast_def close_after_def
  by (auto intro!: wp_rules simp: wrote_def split: sum.splits)

interpretation send_waker: waker_contract "sendWaker N" for N
  by unfold_locales (simp_all only: sendWaker_def Send_writes Send_reports)

section \<open>The agent's surface\<close>

text \<open>C20. What the agent puts on the network: for a request on one of its paths, the agent writes to a socket only when
  the path is /wake, the method is POST, the bearer token is the configured one (if one is configured), the body decodes
  within its size limit, and the address in it is a MAC of exactly six bytes; every datagram it writes is the magic
  packet of that address. The health paths never touch the network.\<close>

theorem agent_sends_only:
  assumes "agentServer N other token path r w = (res, as, w')"
    and "path \<in> {''/wake'', ''/healthz'', ''/readyz''}" and "WriteToUDP conn pkt addr sent \<in> set as"
  shows "path = ''/wake'' \<and> hr_method r = ''POST'' \<and>
    (token = [] \<or> header_get (hr_header r) ''Authorization'' = ''Bearer '' @ token) \<and>
    (\<exists>req mac. decodeWake maxBodyBytes (hr_body r) = Inr req \<and> ParseMAC (wr_MacAddress req) = Inr mac \<and>
       length mac = 6 \<and> BuildPacket mac = Inr pkt)"
proof (cases "path = ''/wake''")
  case True
  with assms(1) have run: "requireBearer token (wakeHandler (sendWaker N)) r w = (res, as, w')"
    by (simp add: agentServer_def Handler_def)
  from wp_run [OF send_waker.gated_answers run] assms(3) True show ?thesis
    by (fastforce simp: valid_wake_def list_all_iff)
next
  case False
  with assms(1,2) have "as = []" by (auto simp: agentServer_def Handler_def health_def prog_defs split: if_splits)
  with assms(3) show ?thesis by simp
qed

definition test_net :: "'w net" where
  "test_net = \<lparr>net_resolve = (\<lambda>s w. (Inr (UDPAddr s 9), w)), net_listen = (\<lambda>w. (Inr (UDPConn 3), w)),
     net_enable_broadcast = (\<lambda>conn w. (Inr (), w)), net_addr_string = (\<lambda>a. []),
     net_write = (\<lambda>conn pkt addr w. (Inr (), w))\<rparr>"

definition test_request :: http_request where
  "test_request = \<lparr>hr_method = ''POST'', hr_url = ''/wake'', hr_header = [(''Authorization'', ''Bearer s'')],
     hr_body = marshalWake \<lparr>wr_MacAddress = ''01:23:45:67:89:ab'', wr_BroadcastAddress = []\<rparr>\<rparr>"

definition test_packet :: bytes where
  "test_packet = append_times 16 [0x01, 0x23, 0x45, 0x67, 0x89, 0xAB] (append_times 6 [0xFF] [])"

lemma test_run:
  "agentServer test_net (\<lambda>_. health) ''s'' ''/wake'' test_request () =
     (Inr (respond [] 204 []),
      [ResolveUDP ''255.255.255.255:9'' (Inr (UDPAddr ''255.255.255.255:9'' 9)), ListenUDP (Inr (UDPConn 3)),
       EnableBroadcast (UDPConn 3) (Inr ()),
       WriteToUDP (UDPConn 3) test_packet (UDPAddr ''255.255.255.255:9'' 9) (Inr ()), CloseConn (UDPConn 3)], ())"
  by code_simp

theorem agent_sends_only_witness:
  "hr_method test_request = ''POST'' \<and> header_get (hr_header test_request) ''Authorization'' = ''Bearer s'' \<and>
   (\<exists>req mac. decodeWake maxBodyBytes (hr_body test_request) = Inr req \<and> ParseMAC (wr_MacAddress req) = Inr mac \<and>
      length mac = 6 \<and> BuildPacket mac = Inr test_packet)"
  using agent_sends_only [OF test_run, of "UDPConn 3" test_packet "UDPAddr ''255.255.255.255:9'' 9" "Inr ()"] by simp

text \<open>C22. The answer of /wake is truthful: the handler always answers, with one of the codes 204, 400, 401, 405, 413 and
  502, and the answer is 204 exactly when a datagram was written without an error; a 4xx answer means that the network
  was not touched at all.\<close>

theorem agent_answer_truthful:
  "\<exists>resp. result (agentServer N other token ''/wake'' r) w = Inr resp \<and>
     resp_code resp \<in> {204, 400, 401, 405, 413, 502} \<and>
     (resp_code resp = 204 \<longleftrightarrow> (\<exists>pkt. wrote pkt (actions (agentServer N other token ''/wake'' r) w))) \<and>
     (actions (agentServer N other token ''/wake'' r) w = [] \<or> resp_code resp \<in> {204, 502})"
proof -
  have "agentServer N other token ''/wake'' = requireBearer token (wakeHandler (sendWaker N))"
    by (simp add: agentServer_def Handler_def)
  with wpD [OF send_waker.gated_answers, of token N r w] show ?thesis by (auto simp: answer_tells_def)
qed

section \<open>The wire\<close>

lemma length_encode_string: "length (encode_string s) \<le> 6 * length s + 2"
proof -
  have char: "length (encode_char c) \<le> 6" for c by (simp add: encode_char_def)
  have "length (concat (map encode_char s)) \<le> 6 * length s"
  proof (induction s)
    case (Cons c s)
    then show ?case using char [of c] by simp
  qed simp
  then show ?thesis by (simp add: encode_string_def)
qed

lemma length_marshalWake:
  "length (marshalWake r) \<le> 6 * (length (wr_MacAddress r) + length (wr_BroadcastAddress r)) + 40"
proof -
  have keys: "length (encode_string ''macAddress'') = 12" "length (encode_string ''broadcastAddress'') = 18" by code_simp+
  show ?thesis
    using length_encode_string [of "wr_MacAddress r"] length_encode_string [of "wr_BroadcastAddress r"]
    by (simp add: marshalWake_def keys)
qed

definition wire_fits :: "string \<Rightarrow> string \<Rightarrow> bool" where
  "wire_fits mac bc \<longleftrightarrow> ascii mac \<and> ascii bc \<and> 6 * (length mac + length bc) + 40 \<le> maxBodyBytes"

lemma marshal_decodes:
  "wire_fits (wr_MacAddress r) (wr_BroadcastAddress r) \<Longrightarrow> decodeWake maxBodyBytes (marshalWake r) = Inr r"
  using wire_roundtrip [of r maxBodyBytes] length_marshalWake [of r] by (simp add: wire_fits_def)

text \<open>C38. The two sides of the wire agree: a request the controller's client marshals is decoded by the agent's handler,
  under its 4 KiB limit, into the same request, as long as the strings are ASCII and fit. The bound allows for every
  character being escaped.\<close>

theorem wake_request_roundtrip:
  assumes "ascii (wr_MacAddress r)" and "ascii (wr_BroadcastAddress r)"
    and "6 * (length (wr_MacAddress r) + length (wr_BroadcastAddress r)) + 40 \<le> maxBodyBytes"
  shows "decodeWake maxBodyBytes (marshalWake r) = Inr r"
  by (rule marshal_decodes) (use assms in \<open>simp_all add: wire_fits_def\<close>)

theorem wake_request_roundtrip_witness:
  "decodeWake maxBodyBytes (marshalWake \<lparr>wr_MacAddress = ''01:23:45:67:89:ab'', wr_BroadcastAddress = ''10.0.0.255:9''\<rparr>) =
     Inr \<lparr>wr_MacAddress = ''01:23:45:67:89:ab'', wr_BroadcastAddress = ''10.0.0.255:9''\<rparr>"
  by (rule wake_request_roundtrip) (simp_all add: ascii_def maxBodyBytes_def)

section \<open>From the controller to the network card\<close>

text \<open>The transport that delivers a request to the agent and brings its answer back, with the agent's interactions
  appended to a log.\<close>

definition agentTransport :: "(string \<Rightarrow> string) \<Rightarrow> (string \<Rightarrow> 'w handler) \<Rightarrow> ('w \<times> net_action list) transport" where
  "agentTransport url_path server req W =
     (case W of (w, log) \<Rightarrow> case server (url_path (hr_url req)) req w of (r, as, w') \<Rightarrow> (r, w', log @ as))"

text \<open>The controller and the agent as their commands set them up, with the same environment variable on both sides.\<close>

definition deployed ::
  "'w net \<Rightarrow> (string \<Rightarrow> 'w handler) \<Rightarrow> (string \<Rightarrow> string) \<Rightarrow> (string \<Rightarrow> go_error option) \<Rightarrow> string \<Rightarrow> string \<Rightarrow>
   ('w \<times> net_action list) registry" where
  "deployed N other url_path badURL endpoint env =
     projr (controllerRegistry (\<lambda>_. agentTransport url_path (agentServer N other (agentToken env))) badURL endpoint env)"

lemma PowerOn_success:
  "fst (prov_PowerOn (NewWoLProvider badURL c) m W) = Inr () \<longleftrightarrow>
     (\<exists>cfg resp. power_wol (spec_power (m_spec m)) = Some cfg \<and> badURL (cl_baseURL c @ ''/wake'') = None \<and>
        fst (cl_http c (wakeHTTPRequest c (wol_macAddress cfg) (wol_broadcastAddress cfg)) W) = Inr resp \<and>
        200 \<le> resp_code resp \<and> resp_code resp < 300)"
  by (auto simp: NewWoLProvider_def wolPowerOn_def Wake_def Let_def wakeHTTPRequest_def prog_defs
      split: option.splits prod.splits sum.splits if_splits)

lemma PowerOn_world:
  assumes "power_wol (spec_power (m_spec m)) = Some cfg" and "badURL (cl_baseURL c @ ''/wake'') = None"
  shows "snd (prov_PowerOn (NewWoLProvider badURL c) m W) =
    snd (cl_http c (wakeHTTPRequest c (wol_macAddress cfg) (wol_broadcastAddress cfg)) W)"
  using assms by (auto simp: NewWoLProvider_def wolPowerOn_def Wake_def Let_def wakeHTTPRequest_def prog_defs
      split: option.splits prod.splits sum.splits if_splits)

lemma deployed_get:
  assumes "registry_get (deployed N other url_path badURL endpoint env) name = Some p"
  obtains c where "name = providerNameWoL" and "p = NewWoLProvider badURL c"
    and "cl_token c = agentToken env" and "cl_baseURL c = TrimRight endpoint ''/''"
    and "cl_http c = agentTransport url_path (agentServer N other (agentToken env))"
  using assms by (auto simp: deployed_def controllerRegistry_get agentToken_def NewClient_fields split: if_splits)

text \<open>The client's request passes the agent's gate and reaches the waker with the address of the configuration.\<close>

lemma request_accepted:
  assumes "wire_fits mac bc" and "cl_token c = token"
  shows "requireBearer token (wakeHandler waker) (wakeHTTPRequest c mac bc) = wakeHandler waker (wakeHTTPRequest c mac bc)"
    and "hr_method (wakeHTTPRequest c mac bc) = ''POST''"
    and "decodeWake maxBodyBytes (hr_body (wakeHTTPRequest c mac bc)) = Inr \<lparr>wr_MacAddress = mac, wr_BroadcastAddress = bc\<rparr>"
  using assms marshal_decodes [of "\<lparr>wr_MacAddress = mac, wr_BroadcastAddress = bc\<rparr>"]
  by (auto simp: requireBearer_def wakeHTTPRequest_def header_get_def)

lemma transport_run:
  assumes "url_path (cl_baseURL c @ ''/wake'') = ''/wake''" and "cl_token c = token"
    and "cl_http c = agentTransport url_path (agentServer N other token)" and "wire_fits mac bc"
  shows "cl_http c (wakeHTTPRequest c mac bc) (w, log) =
    (case wakeHandler (sendWaker N) (wakeHTTPRequest c mac bc) w of (r, as, w') \<Rightarrow> (r, w', log @ as))"
  using assms(1,3) request_accepted(1) [OF assms(4,2), of "sendWaker N"]
  by (simp add: agentTransport_def agentServer_def Handler_def) (simp add: wakeHTTPRequest_def)

text \<open>What a successful call has added to the log of the network.\<close>

lemma success_wrote:
  assumes "registry_get (deployed N other url_path badURL endpoint env) (power_provider (spec_power (m_spec m))) = Some p"
    and "url_path (TrimRight endpoint ''/'' @ ''/wake'') = ''/wake''"
    and "power_wol (spec_power (m_spec m)) = Some cfg" and "wire_fits (wol_macAddress cfg) (wol_broadcastAddress cfg)"
    and "fst (prov_PowerOn p m (w, log)) = Inr ()"
  obtains w' as mac pkt where "prov_PowerOn p m (w, log) = (Inr (), w', log @ as)"
    and "ParseMAC (wol_macAddress cfg) = Inr mac" and "length mac = 6" and "wrote pkt as"
    and "\<forall>own. length own = 6 \<longrightarrow> (nic_matches own pkt \<longleftrightarrow> own = mac)"
proof -
  from assms(1) obtain c where p: "p = NewWoLProvider badURL c" and c: "cl_token c = agentToken env"
      "cl_baseURL c = TrimRight endpoint ''/''" "cl_http c = agentTransport url_path (agentServer N other (agentToken env))"
    by (rule deployed_get)
  let ?req = "wakeHTTPRequest c (wol_macAddress cfg) (wol_broadcastAddress cfg)"
  note sent = transport_run [of url_path c "agentToken env" N other, OF _ c(1,3) assms(4)]
  obtain res as v where run: "wakeHandler (sendWaker N) ?req w = (res, as, v)" by (cases "wakeHandler (sendWaker N) ?req w")
  have url: "badURL (cl_baseURL c @ ''/wake'') = None" and ok: "\<exists>resp. res = Inr resp \<and> 200 \<le> resp_code resp \<and> resp_code resp < 300"
    using assms(3,5) sent [of w log] run PowerOn_success [of badURL c m "(w, log)"] assms(2) c(2) by (auto simp: p)
  have world: "prov_PowerOn p m (w, log) = (Inr (), v, log @ as)"
    using PowerOn_world [of m cfg badURL c, OF assms(3) url, of "(w, log)"] sent [of w log] run assms(2,5) c(2)
    by (simp add: p prod_eq_iff)
  from wp_run [OF send_waker.wakeHandler_answers run] ok obtain pkt where "wrote pkt as" and "valid_wake ?req as"
    by (fastforce simp: answer_tells_def)
  then obtain mac where mac: "ParseMAC (wol_macAddress cfg) = Inr mac" "length mac = 6" "list_all (writes_only mac) as"
    using request_accepted(3) [OF assms(4) c(1)] by (auto simp: valid_wake_def)
  with \<open>wrote pkt as\<close> have "BuildPacket mac = Inr pkt" by (auto simp: wrote_def list_all_iff)
  then have "\<forall>own. length own = 6 \<longrightarrow> (nic_matches own pkt \<longleftrightarrow> own = mac)" using nic_matches_packet by (simp add: macLen_def)
  with that [OF world mac(1,2) \<open>wrote pkt as\<close>] show ?thesis by blast
qed

text \<open>C5. A successful wake reached the wire: when the controller's provider, called through the HTTP client, the agent's
  handler and the UDP sender as the two commands set them up, reports that a Machine was powered on, then the Machine's
  configuration holds a six-byte MAC address, and a datagram was written that wakes exactly the card with that address:
  no other card matches it.\<close>

theorem power_on_reaches_card:
  assumes "registry_get (deployed N other url_path badURL endpoint env) (power_provider (spec_power (m_spec m))) = Some p"
    and "url_path (TrimRight endpoint ''/'' @ ''/wake'') = ''/wake''"
    and "power_wol (spec_power (m_spec m)) = Some cfg" and "wire_fits (wol_macAddress cfg) (wol_broadcastAddress cfg)"
    and "prov_PowerOn p m (w, []) = (Inr (), w', log)"
  shows "\<exists>mac pkt. ParseMAC (wol_macAddress cfg) = Inr mac \<and> length mac = 6 \<and> wrote pkt log \<and>
    (\<forall>own. length own = 6 \<longrightarrow> (nic_matches own pkt \<longleftrightarrow> own = mac))"
proof -
  have "fst (prov_PowerOn p m (w, [])) = Inr ()" using assms(5) by simp
  from success_wrote [OF assms(1-4) this] assms(5) show ?thesis by (metis Pair_inject append_Nil)
qed

definition test_machine :: machine where
  "test_machine = (sample_machine ''m'' ''n'' Off)\<lparr>m_spec := (m_spec (sample_machine ''m'' ''n'' Off))\<lparr>spec_power :=
     \<lparr>power_provider = ''wol'', power_wol = Some \<lparr>wol_macAddress = ''01:23:45:67:89:ab'', wol_broadcastAddress = []\<rparr>\<rparr>\<rparr>\<rparr>"

definition test_path :: "string \<Rightarrow> string" where
  "test_path url = drop (length ''http://agent'') url"

theorem power_on_reaches_card_witness:
  "fst (prov_PowerOn (the (registry_get (deployed test_net (\<lambda>_. health) test_path (\<lambda>_. None) ''http://agent/'' ''s '') ''wol''))
     test_machine ((), [])) = Inr () \<and>
   (\<exists>mac pkt. ParseMAC ''01:23:45:67:89:ab'' = Inr mac \<and> length mac = 6 \<and>
     wrote pkt (snd (snd (prov_PowerOn (the (registry_get (deployed test_net (\<lambda>_. health) test_path (\<lambda>_. None) ''http://agent/'' ''s '') ''wol''))
       test_machine ((), [])))) \<and> nic_matches mac pkt)"
proof -
  let ?reg = "deployed test_net (\<lambda>_. health) test_path (\<lambda>_. None) ''http://agent/'' ''s ''"
  let ?p = "the (registry_get ?reg ''wol'')"
  let ?cfg = "\<lparr>wol_macAddress = ''01:23:45:67:89:ab'', wol_broadcastAddress = []\<rparr>"
  have provider: "registry_get ?reg (power_provider (spec_power (m_spec test_machine))) = Some ?p"
    by (simp add: deployed_def controllerRegistry_get providerNameWoL_def test_machine_def)
  have path: "test_path (TrimRight ''http://agent/'' ''/'' @ ''/wake'') = ''/wake''" by code_simp
  have cfg: "power_wol (spec_power (m_spec test_machine)) = Some ?cfg" by (simp add: test_machine_def)
  have fits: "wire_fits (wol_macAddress ?cfg) (wol_broadcastAddress ?cfg)" by code_simp
  have success: "fst (prov_PowerOn ?p test_machine ((), [])) = Inr ()" by code_simp
  then have run: "prov_PowerOn ?p test_machine ((), []) =
      (Inr (), fst (snd (prov_PowerOn ?p test_machine ((), []))), snd (snd (prov_PowerOn ?p test_machine ((), []))))"
    by (metis prod.collapse)
  from power_on_reaches_card [OF provider path cfg fits run] success show ?thesis by auto
qed

section \<open>Working networks\<close>

text \<open>The host's network stack accepts every call.\<close>

definition net_works :: "'w net \<Rightarrow> bool" where
  "net_works N \<longleftrightarrow>
     (\<forall>s w. \<not> isl (fst (net_resolve N s w))) \<and> (\<forall>w. \<not> isl (fst (net_listen N w))) \<and>
     (\<forall>conn w. \<not> isl (fst (net_enable_broadcast N conn w))) \<and>
     (\<forall>conn pkt addr w. \<not> isl (fst (net_write N conn pkt addr w)))"

lemma not_isl: "\<not> isl r \<longleftrightarrow> (\<exists>v. r = Inr v)"
  by (cases r) simp_all

lemma attempted:
  "result p w = Inr u \<Longrightarrow> result (bind (attempt p) (\<lambda>sent. case sent of Inl e \<Rightarrow> q e | Inr _ \<Rightarrow> ret v)) w = Inr v"
  by (cases "p w") (simp add: result_def prog_defs)

lemma attempt_answers_code:
  "\<exists>resp. result (bind (attempt p) (\<lambda>sent. case sent of Inl _ \<Rightarrow> ret (http_Error [] ''send failed'' 502)
     | Inr _ \<Rightarrow> ret (respond [] 204 []))) w = Inr resp \<and> resp_code resp \<noteq> 400"
  by (cases "p w") (auto simp: result_def prog_defs split: sum.splits)

lemma Send_works:
  assumes "net_works N" and "length mac = 6"
  shows "result (Send N mac bc) w = Inr ()"
proof -
  have pkt: "BuildPacket mac = Inr (append_times 16 mac (append_times 6 [0xFF] []))"
    using assms(2) by (simp add: BuildPacket_def macLen_def)
  have works: "\<exists>v w'. net_resolve N s w = (Inr v, w')" "\<exists>v w'. net_listen N w = (Inr v, w')"
      "\<exists>w'. net_enable_broadcast N conn w = (Inr (), w')" "\<exists>w'. net_write N conn pkt addr w = (Inr (), w')"
    for s w conn pkt addr
    using assms(1) by (auto simp: net_works_def not_isl; metis prod.collapse unit.exhaust old.unit.exhaust)+
  obtain addr w1 where 1: "net_resolve N (broadcastTarget bc) w = (Inr addr, w1)" using works(1) by blast
  obtain conn w2 where 2: "net_listen N w1 = (Inr conn, w2)" using works(2) by blast
  obtain w3 where 3: "net_enable_broadcast N conn w2 = (Inr (), w3)" using works(3) by blast
  obtain w4 where 4: "net_write N conn (append_times 16 mac (append_times 6 [0xFF] [])) addr w3 = (Inr (), w4)"
    using works(4) by blast
  show ?thesis
    unfolding Send_def pkt resolveBroadcast_def enableBroadcast_def close_after_def result_def
    using 1 2 3 4 by (simp add: prog_defs)
qed

text \<open>The validation the API server applies to \<^verbatim>\<open>macAddress\<close>: five pairs of hex digits with a colon or a dash
  after each, and a sixth pair.\<close>

definition macAddressPattern :: "string \<Rightarrow> bool" where
  "macAddressPattern s \<longleftrightarrow> length s = 17 \<and>
     list_all (\<lambda>i. if i mod 3 = 2 then s ! i \<in> {CHR '':'', CHR ''-''} else hex_value (s ! i) \<noteq> None) [0..<17]"

text \<open>The same separator throughout.\<close>

definition one_separator :: "string \<Rightarrow> bool" where
  "one_separator s \<longleftrightarrow> list_all (\<lambda>i. s ! i = s ! 2) [2, 5, 8, 11, 14]"

lemma length_17:
  "length s = 17 \<Longrightarrow> \<exists>a b c d e f g h i j k l m n p q r. s = [a, b, c, d, e, f, g, h, i, j, k, l, m, n, p, q, r]"
  by (auto simp: length_Suc_conv eval_nat_numeral)

lemma admitted_mac_parses:
  assumes "macAddressPattern s"
  shows "(\<exists>mac. ParseMAC s = Inr mac \<and> length mac = 6) \<longleftrightarrow> one_separator s"
proof -
  obtain a b c d e f g h i j k l m n p q r where s: "s = [a, b, c, d, e, f, g, h, i, j, k, l, m, n, p, q, r]"
    using assms length_17 [of s] by (auto simp: macAddressPattern_def)
  have six: "colon_octets 6 = colon_octets (Suc (Suc (Suc (Suc (Suc (Suc 0))))))" by (simp add: eval_nat_numeral)
  have sep: "c \<in> {CHR '':'', CHR ''-''}"
    using assms by (simp add: macAddressPattern_def s upt_rec)
  moreover have "length s = 17" "s ! 2 = c" by (simp_all add: s)
  ultimately have parse: "ParseMAC s = (case colon_octets 6 c s of None \<Rightarrow> Inl (invalidMAC s) | Some mac \<Rightarrow> Inr mac)"
    by (auto simp: ParseMAC_def Let_def)
  have "colon_octets 6 c s \<noteq> None \<longleftrightarrow> one_separator s"
    using assms unfolding six by (auto simp: macAddressPattern_def s upt_rec one_separator_def xtoi2_def)
  moreover have "length mac = 6" if "colon_octets 6 c s = Some mac" for mac
    using that by (rule colon_octets_length)
  ultimately show ?thesis unfolding parse by (auto split: option.splits)
qed

lemma hex_ascii: "hex_value c \<noteq> None \<Longrightarrow> of_char c < (128 :: nat)"
  by (auto simp: hex_value_def split: if_splits)

lemma admitted_mac_ascii: "macAddressPattern s \<Longrightarrow> ascii s \<and> length s = 17"
proof -
  assume admitted: "macAddressPattern s"
  have "of_char (s ! i) < (128 :: nat)" if "i < 17" for i
    using admitted that by (auto simp: macAddressPattern_def list_all_iff split: if_splits dest!: bspec [of _ _ i] intro: hex_ascii)
  with admitted show ?thesis by (auto simp: ascii_def in_set_conv_nth macAddressPattern_def)
qed

text \<open>A Machine whose address the API server admits, with one separator throughout, is powered on when the URL is
  accepted and the agent's host can send.\<close>

lemma admitted_machine_wakes:
  assumes "registry_get (deployed N other url_path badURL endpoint env) (power_provider (spec_power (m_spec m))) = Some p"
    and "url_path (TrimRight endpoint ''/'' @ ''/wake'') = ''/wake''"
    and "badURL (TrimRight endpoint ''/'' @ ''/wake'') = None"
    and "power_wol (spec_power (m_spec m)) = Some cfg"
    and "macAddressPattern (wol_macAddress cfg)" and "one_separator (wol_macAddress cfg)"
    and "ascii (wol_broadcastAddress cfg)" and "length (wol_broadcastAddress cfg) \<le> 650" and "net_works N"
  shows "fst (prov_PowerOn p m (w, log)) = Inr ()"
proof -
  from assms(1) obtain c where p: "p = NewWoLProvider badURL c" and c: "cl_token c = agentToken env"
      "cl_baseURL c = TrimRight endpoint ''/''" "cl_http c = agentTransport url_path (agentServer N other (agentToken env))"
    by (rule deployed_get)
  let ?req = "wakeHTTPRequest c (wol_macAddress cfg) (wol_broadcastAddress cfg)"
  have fits: "wire_fits (wol_macAddress cfg) (wol_broadcastAddress cfg)"
    using admitted_mac_ascii [OF assms(5)] assms(7,8) by (simp add: wire_fits_def maxBodyBytes_def)
  obtain mac where mac: "ParseMAC (wol_macAddress cfg) = Inr mac" "length mac = 6"
    using admitted_mac_parses [OF assms(5)] assms(6) by blast
  have "result (wakeHandler (sendWaker N) ?req) w = Inr (respond [] 204 [])"
    using request_accepted(2,3) [OF fits c(1)] mac Send_works [OF assms(9) mac(2), of _ w]
    by (simp add: wakeHandler_def Let_def sendWaker_def attempted)
  then have "fst (cl_http c ?req (w, log)) = Inr (respond [] 204 [])"
    using transport_run [of url_path c "agentToken env" N other, OF _ c(1,3) fits, of w log] assms(2) c(2)
    by (simp add: result_def split: prod.splits)
  then show ?thesis using PowerOn_success [of badURL c m "(w, log)"] assms(3,4) c(2) p by simp
qed

text \<open>C39. Which admitted Machines the agent refuses: the API server's pattern admits a MAC address with mixed separators;
  for an admitted address, the agent answers the client's request with 400 exactly when the address does not use one
  separator throughout.\<close>

theorem admitted_mac_accepted:
  assumes "macAddressPattern s" and "ascii bc" and "length bc \<le> 650"
  shows "\<exists>resp. result (agentServer N other (cl_token c) ''/wake'' (wakeHTTPRequest c s bc)) w = Inr resp \<and>
    (resp_code resp = 400 \<longleftrightarrow> \<not> one_separator s)"
proof -
  have fits: "wire_fits s bc"
    using admitted_mac_ascii [OF assms(1)] assms(2,3) by (simp add: wire_fits_def maxBodyBytes_def)
  note request = request_accepted [OF fits refl, of c]
  have server: "agentServer N other (cl_token c) ''/wake'' (wakeHTTPRequest c s bc) =
      wakeHandler (sendWaker N) (wakeHTTPRequest c s bc)"
    using request(1) [of "sendWaker N"] by (simp add: agentServer_def Handler_def)
  show ?thesis
  proof (cases "one_separator s")
    case True
    then obtain mac where "ParseMAC s = Inr mac" "length mac = 6" using admitted_mac_parses [OF assms(1)] by blast
    then show ?thesis
      unfolding server wakeHandler_def Let_def using request(2,3) True
      by (auto simp: attempt_answers_code)
  next
    case False
    then have "\<not> (\<exists>mac. ParseMAC s = Inr mac \<and> length mac = 6)" using admitted_mac_parses [OF assms(1)] by blast
    then show ?thesis
      unfolding server wakeHandler_def Let_def using request(2,3) False
      by (cases "ParseMAC s") (auto simp: result_def prog_defs)
  qed
qed

theorem admitted_mac_accepted_witness:
  "macAddressPattern ''01:23-45:67:89:ab'' \<and>
   (\<exists>resp. result (agentServer test_net (\<lambda>_. health) [] ''/wake''
       (wakeHTTPRequest (NewClient (\<lambda>_ _ w. (Inl ErrUnsupported, w)) ''http://agent'' None []) ''01:23-45:67:89:ab'' [])) () = Inr resp \<and>
     resp_code resp = 400)"
proof -
  let ?c = "NewClient (\<lambda>_ _ w. (Inl ErrUnsupported, w)) ''http://agent'' None []"
  have admitted: "macAddressPattern ''01:23-45:67:89:ab''" and mixed: "\<not> one_separator ''01:23-45:67:89:ab''"
    by code_simp+
  have token: "cl_token ?c = []" by (simp add: NewClient_def)
  from admitted_mac_accepted [OF admitted, of "[]" test_net "\<lambda>_. health" ?c "()"] admitted mixed show ?thesis
    by (simp add: ascii_def token)
qed

text \<open>The probe sends what it says: given the printed form of a six-byte address and at most one more argument, on a
  host that can send, wol-probe writes a packet that wakes exactly the card with that address, and the line it prints
  names the address and the broadcast address it used.\<close>

theorem probe_sends:
  assumes "length args \<in> {1, 2}" and "args ! 0 = mac_string mac" and "length mac = 6" and "net_works N"
  shows "result (probeRun N args) w = Inr (''wake packet sent to '' @ mac_string mac @ '' via '' @
      (if length args = 2 then args ! 1 else defaultBroadcast) @ [newline]) \<and>
    (\<exists>pkt. wrote pkt (actions (probeRun N args) w) \<and> (\<forall>own. length own = 6 \<longrightarrow> (nic_matches own pkt \<longleftrightarrow> own = mac)))"
proof -
  let ?bc = "if length args = 2 then args ! 1 else defaultBroadcast"
  have parsed: "ParseMAC (args ! 0) = Inr mac" using ParseMAC_mac_string [of mac] assms(2,3) by simp
  have run: "probeRun N args = bind (Send N mac ?bc) (\<lambda>_.
      ret (''wake packet sent to '' @ mac_string mac @ '' via '' @ ?bc @ [newline]))"
    using assms(1) parsed by (auto simp: probeRun_def Let_def)
  have sent: "result (Send N mac ?bc) w = Inr ()" by (rule Send_works [OF assms(4,3)])
  then obtain pkt where pkt: "wrote pkt (actions (Send N mac ?bc) w)" using wpD [OF Send_reports, of N mac ?bc w] by blast
  then have "BuildPacket mac = Inr pkt" using wpD [OF Send_writes, of mac N ?bc w] by (auto simp: wrote_def list_all_iff)
  then have "\<forall>own. length own = 6 \<longrightarrow> (nic_matches own pkt \<longleftrightarrow> own = mac)" using nic_matches_packet by (simp add: macLen_def)
  with pkt sent show ?thesis unfolding run
    by (cases "Send N mac ?bc w") (auto simp: result_def actions_def prog_defs)
qed

theorem probe_sends_witness:
  "result (probeRun test_net [''01:23:45:67:89:ab'']) () =
     Inr (''wake packet sent to 01:23:45:67:89:ab via 255.255.255.255'' @ [newline])"
proof -
  have printed: "[''01:23:45:67:89:ab''] ! 0 = mac_string [0x01, 0x23, 0x45, 0x67, 0x89, 0xAB]" by code_simp
  have works: "net_works test_net" by (simp add: net_works_def test_net_def)
  have mac: "mac_string [0x01, 0x23, 0x45, 0x67, 0x89, 0xAB] = ''01:23:45:67:89:ab''" by code_simp
  from probe_sends [OF _ printed _ works, of "()"] show ?thesis
    by (simp add: mac defaultBroadcast_def del: mac_string.simps)
qed

end
