(* ===== verification/Admission.thy ===== *)
theory Admission
  imports Wake_Path Scale_Down
begin

text \<open>
  The validation and defaulting that the markers of the API types ask of the API server, what the
  controllers may rely on because of them, and the wake of an admitted Machine from its
  \<^verbatim>\<open>wake-now\<close> annotation to the network card.
\<close>

section \<open>The schema markers\<close>

definition admitted_power :: "power_spec \<Rightarrow> bool" where
  "admitted_power p \<longleftrightarrow> power_provider p = ''wol'' \<and>
     (case power_wol p of None \<Rightarrow> True | Some cfg \<Rightarrow> macAddressPattern (wol_macAddress cfg))"

text \<open>\<^verbatim>\<open>omitempty\<close> drops an empty provider before the object reaches the API server, which then fills in the
  default.\<close>

definition default_shutdown :: "shutdown_spec \<Rightarrow> shutdown_spec" where
  "default_shutdown s = (if shutdown_provider s = [] then s\<lparr>shutdown_provider := ShutdownProviderAgent\<rparr> else s)"

definition admitted_shutdown :: "shutdown_spec \<Rightarrow> bool" where
  "admitted_shutdown s \<longleftrightarrow> shutdown_provider s = ShutdownProviderAgent"

definition default_machine :: "machine \<Rightarrow> machine" where
  "default_machine m = m\<lparr>m_spec := (m_spec m)\<lparr>spec_shutdown := map_option default_shutdown (spec_shutdown (m_spec m))\<rparr>\<rparr>"

definition admitted_machine :: "machine \<Rightarrow> bool" where
  "admitted_machine m \<longleftrightarrow> admitted_power (spec_power (m_spec m)) \<and>
     (case spec_shutdown (m_spec m) of None \<Rightarrow> True | Some s \<Rightarrow> admitted_shutdown s)"

text \<open>An update must be admitted itself and keep the node name.\<close>

definition admitted_update :: "machine \<Rightarrow> machine \<Rightarrow> bool" where
  "admitted_update old new \<longleftrightarrow> admitted_machine new \<and> nodeName_of new = nodeName_of old"

definition default_pool :: "nodepool \<Rightarrow> nodepool" where
  "default_pool p = p\<lparr>pool_spec := (pool_spec p)\<lparr>ps_disruption := (ps_disruption (pool_spec p))\<lparr>dis_maxConcurrent :=
     (case dis_maxConcurrent (ps_disruption (pool_spec p)) of None \<Rightarrow> Some 1 | Some k \<Rightarrow> Some k)\<rparr>\<rparr>\<rparr>"

definition at_least :: "int \<Rightarrow> int option \<Rightarrow> bool" where
  "at_least low field = (case field of None \<Rightarrow> True | Some k \<Rightarrow> low \<le> k \<and> fits_width 32 k)"

definition admitted_disruption :: "disruption_spec \<Rightarrow> bool" where
  "admitted_disruption d \<longleftrightarrow> dis_consolidationPolicy d \<in> {[], ConsolidationPolicyWhenEmpty} \<and>
     at_least 1 (dis_maxConcurrent d)"

definition admitted_pool :: "nodepool \<Rightarrow> bool" where
  "admitted_pool p \<longleftrightarrow> at_least 0 (Some (ps_minNodes (pool_spec p))) \<and> at_least 0 (ps_maxNodes (pool_spec p)) \<and>
     admitted_disruption (ps_disruption (pool_spec p)) \<and> at_least 0 (drain_timeoutSeconds (ps_drain (pool_spec p)))"

section \<open>Objects as the API server stores them\<close>

text \<open>An object is defaulted, then validated, then stored; \<open>None\<close> when it is refused. Objects stored under an older schema have not seen the
  defaults, so what the program reads from an object must not depend on them.\<close>

definition stored :: "('a \<Rightarrow> 'a) \<Rightarrow> ('a \<Rightarrow> bool) \<Rightarrow> 'a \<Rightarrow> 'a option" where
  "stored fill admitted x = (if admitted (fill x) then Some (fill x) else None)"

lemma storedD: "stored fill admitted x = Some y \<Longrightarrow> admitted y \<and> y = fill x"
  by (auto simp: stored_def split: if_splits)

locale admission =
  fixes fill :: "'a \<Rightarrow> 'a" and admitted :: "'a \<Rightarrow> bool" and reading :: "'a \<Rightarrow> 'b" and sound :: "'b \<Rightarrow> bool"
  assumes fill_idem: "fill (fill x) = fill x"
    and reading_fill: "reading (fill x) = reading x"
    and admitted_sound: "admitted x \<Longrightarrow> sound (reading x)"
begin

lemma stored_sound: "stored fill admitted x = Some y \<Longrightarrow> sound (reading y)"
  by (blast dest: storedD intro: admitted_sound)

lemma stored_again: "stored fill admitted x = Some y \<Longrightarrow> stored fill admitted y = Some y"
  by (drule storedD) (clarsimp simp: stored_def fill_idem)

lemma older_object_sound: "stored fill admitted x = Some y \<Longrightarrow> sound (reading x)"
  using stored_sound [of x y] reading_fill [of x] by (auto dest: storedD)

end

lemma default_shutdown_idem [simp]: "default_shutdown (default_shutdown s) = default_shutdown s"
  by (simp add: default_shutdown_def)

lemma maxConcurrentOf_default: "maxConcurrentOf (default_pool p) = maxConcurrentOf p"
  by (simp add: maxConcurrentOf_def default_pool_def split: option.splits)

lemma admitted_maxConcurrent: "admitted_pool p \<Longrightarrow> 1 \<le> maxConcurrentOf p \<and> maxConcurrentOf p < 2 ^ 31"
  by (auto simp: admitted_pool_def admitted_disruption_def at_least_def maxConcurrentOf_def fits_width_def split: option.splits)

interpretation concurrency: admission default_pool admitted_pool maxConcurrentOf "\<lambda>k. 1 \<le> k \<and> k < 2 ^ 31"
proof (unfold_locales, goal_cases)
  case (1 p)
  then show ?case by (simp add: default_pool_def split: option.splits)
qed (simp_all only: maxConcurrentOf_default admitted_maxConcurrent simp_thms)

lemma delegatesShutdown_default: "delegatesShutdown (default_machine m) = delegatesShutdown m"
  by (auto simp: delegatesShutdown_def default_machine_def default_shutdown_def split: option.splits)

interpretation shutdown_choice: admission default_machine admitted_machine delegatesShutdown Not
proof (unfold_locales, goal_cases)
  case (1 m)
  then show ?case by (simp add: default_machine_def option.map_comp comp_def)
next
  case (2 m)
  then show ?case by (rule delegatesShutdown_default)
qed (auto simp: delegatesShutdown_def admitted_machine_def admitted_shutdown_def split: option.splits)

text \<open>However often a Machine is updated, it stands for the Node it was created for.\<close>

lemma updates_keep_node:
  assumes "\<And>i. Suc i < length history \<Longrightarrow> admitted_update (history ! i) (history ! Suc i)" and "k < length history"
  shows "nodeName_of (history ! k) = nodeName_of (history ! 0)"
  using assms(2)
proof (induction k)
  case (Suc k)
  then show ?case using assms(1) [of k] by (simp add: admitted_update_def)
qed simp

text \<open>The drain budget of an admitted pool is never negative and never wraps, also under the conflict rule.\<close>

definition drain_budget :: "duration \<Rightarrow> bool" where
  "drain_budget d \<longleftrightarrow> 0 \<le> d \<and> d < 2 ^ 31 * second"

lemma admitted_drain_timeout:
  assumes "admitted_pool p"
  shows "drain_budget (fst (poolDrainPolicy (Some p)))"
proof (cases "drain_timeoutSeconds (ps_drain (pool_spec p))")
  case None
  then show ?thesis by (simp add: drain_budget_def poolDrainPolicy_def defaultDrainTimeout_def second_def)
next
  case (Some secs)
  with assms have "0 \<le> secs" and "fits_width 32 secs" by (auto simp: admitted_pool_def at_least_def)
  with poolDrainPolicy_timeout [OF Some] show ?thesis by (simp add: drain_budget_def fits_width_def second_def)
qed

interpretation drain_timeout: admission default_pool admitted_pool "\<lambda>p. fst (poolDrainPolicy (Some p))" drain_budget
proof (unfold_locales, goal_cases)
  case (2 p)
  then show ?case by (simp add: poolDrainPolicy_def default_pool_def)
qed (simp_all only: concurrency.fill_idem admitted_drain_timeout)

lemma conservativeDrainTimeout_budget:
  assumes "\<And>q. q \<in> set (p # ps) \<Longrightarrow> admitted_pool q"
  shows "drain_budget (conservativeDrainTimeout p ps)"
proof -
  have "conservativeDrainTimeout p ps \<in> (\<lambda>q. fst (poolDrainPolicy (Some q))) ` set (p # ps)"
    using shortestDrainTimeout_attained by (auto simp: conservativeDrainTimeout_def)
  then obtain q where "q \<in> set (p # ps)" and "conservativeDrainTimeout p ps = fst (poolDrainPolicy (Some q))" by blast
  with admitted_drain_timeout [OF assms] show ?thesis by metis
qed

lemma default_budget: "drain_budget defaultDrainTimeout"
  by (simp add: drain_budget_def defaultDrainTimeout_def second_def)

lemma drainPolicyOf_budget: "(\<And>q. q \<in> set pools \<Longrightarrow> admitted_pool q) \<Longrightarrow> drain_budget (fst (drainPolicyOf pools))"
  by (auto simp: drainPolicyOf_def default_budget poolDrainPolicy_def [of None]
      intro: admitted_drain_timeout conservativeDrainTimeout_budget split: list.splits)

text \<open>Whatever pools select a Machine, the budget that \<^verbatim>\<open>drainPolicy\<close> gives its drain is non-negative and below
  \<open>2 ^ 31\<close> seconds, so the comparison with the elapsed time is one of true durations; the cap on concurrent drains
  is at least one. Both hold of objects stored before the defaults existed.\<close>

theorem drain_policy_bounded:
  "wp (drainPolicy E m) (\<lambda>as r. \<forall>pools policy. ListPools (Inr pools) \<in> set as \<longrightarrow> list_all admitted_pool pools \<longrightarrow>
     r = Inr policy \<longrightarrow> drain_budget (fst policy))"
  by (rule wp_drainPolicy) (auto simp: list_all_iff set_poolsOf intro!: drainPolicyOf_budget)

theorem older_pool_sound:
  assumes "stored default_pool admitted_pool p = Some q"
  shows "1 \<le> maxConcurrentOf p" and "maxConcurrentOf p < 2 ^ 31" and "drain_budget (fst (poolDrainPolicy (Some p)))"
    and "stored default_pool admitted_pool q = Some q"
  using concurrency.older_object_sound [OF assms] drain_timeout.older_object_sound [OF assms] concurrency.stored_again [OF assms]
  by simp_all

text \<open>The agent never leaves the power-off of an admitted Machine to another provider.\<close>

theorem admitted_machine_left_to_agent:
  "stored default_machine admitted_machine m = Some m' \<Longrightarrow> \<not> delegatesShutdown m \<and> \<not> delegatesShutdown m'"
  by (blast dest: shutdown_choice.stored_sound shutdown_choice.older_object_sound)

section \<open>From the annotation to the network card\<close>

text \<open>The controller and the network beside each other: the API server's part of the world is touched by the calls of
  the reconciler, the log of the network by the provider only.\<close>

definition on_cluster :: "('w \<Rightarrow> 'r \<times> 'w) \<Rightarrow> 'w \<times> 'l \<Rightarrow> 'r \<times> 'w \<times> 'l" where
  "on_cluster f W = (case W of (w, log) \<Rightarrow> case f w of (r, w') \<Rightarrow> (r, w', log))"

lemma on_cluster_run [simp]: "on_cluster f (w, log) = (fst (f w), snd (f w), log)"
  by (simp add: on_cluster_def split: prod.splits)

definition beside :: "'w env \<Rightarrow> ('w \<times> 'l) env" where
  "beside E =
     \<lparr>env_lib = env_lib E,
      env_now = on_cluster (env_now E),
      env_get_machine = (\<lambda>n. on_cluster (env_get_machine E n)),
      env_get_node = (\<lambda>n. on_cluster (env_get_node E n)),
      env_get_pod = (\<lambda>ns n. on_cluster (env_get_pod E ns n)),
      env_get_pool = (\<lambda>rd n. on_cluster (env_get_pool E rd n)),
      env_get_claim = (\<lambda>ns n. on_cluster (env_get_claim E ns n)),
      env_get_volume = (\<lambda>n. on_cluster (env_get_volume E n)),
      env_list_pools = on_cluster (env_list_pools E),
      env_list_machines = on_cluster (env_list_machines E),
      env_list_machines_on_node = (\<lambda>k. on_cluster (env_list_machines_on_node E k)),
      env_list_machines_matching = (\<lambda>rd s. on_cluster (env_list_machines_matching E rd s)),
      env_list_pods = on_cluster (env_list_pods E),
      env_list_pods_on_node = (\<lambda>rd k. on_cluster (env_list_pods_on_node E rd k)),
      env_update_machine_status = (\<lambda>m. on_cluster (env_update_machine_status E m)),
      env_patch_machine = (\<lambda>orig m. on_cluster (env_patch_machine E orig m)),
      env_patch_machine_status = (\<lambda>orig m. on_cluster (env_patch_machine_status E orig m)),
      env_patch_node = (\<lambda>orig n. on_cluster (env_patch_node E orig n)),
      env_update_pool_status = (\<lambda>p. on_cluster (env_update_pool_status E p)),
      env_patch_pool_status = (\<lambda>orig p. on_cluster (env_patch_pool_status E orig p)),
      env_create_eviction = (\<lambda>pod ev. on_cluster (env_create_eviction E pod ev)),
      env_set_status_condition = (\<lambda>W. env_set_status_condition E (fst W))\<rparr>"

lemma otherMachinesOnNode_beside:
  "otherMachinesOnNode E m w = (r, as, w') \<Longrightarrow> otherMachinesOnNode (beside E) m (w, log) = (r, as, w', log)"
  by (auto simp: otherMachinesOnNode_def list_machines_on_node_def beside_def prog_defs split: prod.splits sum.splits if_splits)

lemma nodeIsReady_beside:
  "nodeIsReady E k w = (r, as, w') \<Longrightarrow> nodeIsReady (beside E) k (w, log) = (r, as, w', log)"
  by (auto simp: nodeIsReady_def get_node_def beside_def prog_defs split: prod.splits sum.splits if_splits)

text \<open>A call that the provider accepts is followed by the move to \<^verbatim>\<open>Booting\<close>, and nothing after it touches the
  network.\<close>

definition boots :: "machine \<Rightarrow> action list \<Rightarrow> bool" where
  "boots m as \<longleftrightarrow> (\<exists>m' r. UpdateMachineStatus m' r \<in> set as \<and> state_of m' = Booting \<and> m_name m' = m_name m \<and>
     m_spec m' = m_spec m \<and> st_bootStartTime (m_status m') \<noteq> None)"

lemma wakeMachine_accepted:
  assumes "mr_env R = beside E" and "registry_get (mr_Registry R) (provider_of m) = Some p"
    and "CanPowerOn (prov_Capabilities p)" and "prov_PowerOn p m (w, log) = (Inr (), w', log')"
  shows "\<exists>post v. snd (wakeMachine R m (w, log)) = (PowerOnCall (provider_of m) m (Inr ()) # post, v, log') \<and> boots m post"
  using assms
  by (auto simp: wakeMachine_def Let_def power_on_def RecordPowerOn_def now_def setCondition_def update_machine_status_def
      requeueForBoot_def since_def event_def beside_def boots_def prog_defs
      split: prod.splits sum.splits option.splits)

text \<open>The run of a reconcile that finds a Machine asked to wake, alone on a Node that is not Ready.\<close>

lemma reconcile_wakes:
  assumes "mr_env R = beside E" and "env_get_machine E name w = (Inr m, w1)" and "otherMachinesOnNode E m w1 = (Inr [], as1, w2)"
    and "nodeIsReady E (nodeName_of m) w2 = (Inr False, as2, w3)"
    and "state_of m = Off" and "wakeRequested m" and "\<not> has_key (m_annotations m) AnnotationDrainNow"
  shows "snd (machineReconcile R name (w, log)) =
    (GetMachine name (Inr m) # as1 @ as2 @ fst (snd (wakeMachine R m (w3, log))), snd (snd (wakeMachine R m (w3, log))))"
  using assms otherMachinesOnNode_beside [OF assms(3), of log] nodeIsReady_beside [OF assms(4), of log]
  by (auto simp: machineReconcile_def dispatch_def reconcileOff_def removeDrainAnnotation_def get_machine_def Let_def
      beside_def [where E = E] prog_defs split: prod.splits)

lemma wake_served:
  assumes "mr_env R = beside E" and "mr_Registry R = deployed N other url_path badURL endpoint env"
    and "url_path (TrimRight endpoint ''/'' @ ''/wake'') = ''/wake''" and "badURL (TrimRight endpoint ''/'' @ ''/wake'') = None"
    and "net_works N"
    and "env_get_machine E name w = (Inr m, w1)" and "otherMachinesOnNode E m w1 = (Inr [], as1, w2)"
    and "nodeIsReady E (nodeName_of m) w2 = (Inr False, as2, w3)"
    and "state_of m = Off" and "wakeRequested m" and "\<not> has_key (m_annotations m) AnnotationDrainNow"
    and "admitted_machine m" and "power_wol (spec_power (m_spec m)) = Some cfg" and "one_separator (wol_macAddress cfg)"
    and "ascii (wol_broadcastAddress cfg)" and "length (wol_broadcastAddress cfg) \<le> 650"
  shows "\<exists>pre post as mac pkt.
    actions (machineReconcile R name) (w, log) = pre @ PowerOnCall ''wol'' m (Inr ()) # post \<and> boots m post \<and>
    snd (final (machineReconcile R name) (w, log)) = log @ as \<and> wrote pkt as \<and>
    ParseMAC (wol_macAddress cfg) = Inr mac \<and> length mac = 6 \<and>
    (\<forall>own. length own = 6 \<longrightarrow> (nic_matches own pkt \<longleftrightarrow> own = mac))"
proof -
  have wol: "provider_of m = ''wol''" and mac: "macAddressPattern (wol_macAddress cfg)"
    using assms(12,13) by (auto simp: admitted_machine_def admitted_power_def)
  then obtain p where p: "registry_get (mr_Registry R) (provider_of m) = Some p" and can: "CanPowerOn (prov_Capabilities p)"
    by (simp add: assms(2) deployed_def controllerRegistry_get providerNameWoL_def NewWoLProvider_def)
  note reg = p [unfolded assms(2)]
  have fits: "wire_fits (wol_macAddress cfg) (wol_broadcastAddress cfg)"
    using admitted_mac_ascii [OF mac] assms(15,16) by (simp add: wire_fits_def maxBodyBytes_def)
  from admitted_machine_wakes [OF reg assms(3,4,13) mac assms(14,15,16,5)]
  have ok: "fst (prov_PowerOn p m (w3, log)) = Inr ()" .
  obtain w' as octets pkt
    where sent: "prov_PowerOn p m (w3, log) = (Inr (), w', log @ as)" "ParseMAC (wol_macAddress cfg) = Inr octets"
      "length octets = 6" "wrote pkt as" "\<forall>own. length own = 6 \<longrightarrow> (nic_matches own pkt \<longleftrightarrow> own = octets)"
    by (rule success_wrote [OF reg assms(3,13) fits ok])
  from wakeMachine_accepted [OF assms(1) p can sent(1)] obtain post v
    where woken: "snd (wakeMachine R m (w3, log)) = (PowerOnCall ''wol'' m (Inr ()) # post, v, log @ as)" and "boots m post"
    unfolding wol by blast
  have run: "snd (machineReconcile R name (w, log)) =
      (GetMachine name (Inr m) # as1 @ as2 @ PowerOnCall ''wol'' m (Inr ()) # post, v, log @ as)"
    unfolding reconcile_wakes [OF assms(1,6-11)] woken by simp
  have "actions (machineReconcile R name) (w, log) = (GetMachine name (Inr m) # as1 @ as2) @ PowerOnCall ''wol'' m (Inr ()) # post"
    and "snd (final (machineReconcile R name) (w, log)) = log @ as"
    unfolding actions_def final_def run by simp_all
  with \<open>boots m post\<close> sent(2-5) show ?thesis by blast
qed

text \<open>C6. A wake request is served from end to end: when a Machine that the API server admits is Off, carries the wake-now
  annotation and no drain-now annotation, is alone on a Node that is not Ready, and has a wol block whose MAC address uses
  one separator and whose broadcast address is ASCII text of at most 650 characters, the commands are set up as deployed,
  the endpoint of the agent with the path \<^verbatim>\<open>/wake\<close> is a valid URL with that path, and the agent's host can send, then
  a reconcile of it calls the provider successfully, goes on to write the state Booting with the time of the start, and
  has added to what is on the wire a packet that wakes exactly the card of the Machine.\<close>

theorem wake_request_served:
  assumes "mr_env R = beside E" and "mr_Registry R = deployed N other url_path badURL endpoint env"
    and "url_path (TrimRight endpoint ''/'' @ ''/wake'') = ''/wake''" and "badURL (TrimRight endpoint ''/'' @ ''/wake'') = None"
    and "net_works N"
    and "env_get_machine E name w = (Inr m, w1)" and "otherMachinesOnNode E m w1 = (Inr [], as1, w2)"
    and "nodeIsReady E (nodeName_of m) w2 = (Inr False, as2, w3)"
    and "state_of m = Off" and "wakeRequested m" and "\<not> has_key (m_annotations m) AnnotationDrainNow"
    and "admitted_machine m" and "power_wol (spec_power (m_spec m)) = Some cfg" and "one_separator (wol_macAddress cfg)"
    and "ascii (wol_broadcastAddress cfg)" and "length (wol_broadcastAddress cfg) \<le> 650"
  shows "\<exists>pre post as mac pkt.
    actions (machineReconcile R name) (w, log) = pre @ PowerOnCall ''wol'' m (Inr ()) # post \<and> boots m post \<and>
    snd (final (machineReconcile R name) (w, log)) = log @ as \<and> wrote pkt as \<and>
    ParseMAC (wol_macAddress cfg) = Inr mac \<and> length mac = 6 \<and>
    (\<forall>own. length own = 6 \<longrightarrow> (nic_matches own pkt \<longleftrightarrow> own = mac))"
  by (rule wake_served [OF assms])

definition requested_machine :: machine where
  "requested_machine = set_annotations (AList.update AnnotationWakeNow AnnotationWakeNowValue) test_machine"

definition request_world :: world where
  "request_world = (empty_world 100)\<lparr>w_machines := [requested_machine], w_nodes := [sample_node ''n'' CondFalse False]\<rparr>"

definition deployed_reconciler :: "(world \<times> net_action list) machine_reconciler" where
  "deployed_reconciler =
     \<lparr>mr_env = beside store_env,
      mr_Registry = deployed test_net (\<lambda>_. health) test_path (\<lambda>_. None) ''http://agent/'' ''s '',
      mr_BootTimeout = 10 * minute, mr_ShutdownTimeout = 10 * minute, mr_NodeLossGracePeriod = minute, mr_Evict = None\<rparr>"

theorem wake_request_served_witness:
  "\<exists>pre post as mac pkt.
    actions (machineReconcile deployed_reconciler ''m'') (request_world, []) =
      pre @ PowerOnCall ''wol'' requested_machine (Inr ()) # post \<and> boots requested_machine post \<and>
    snd (final (machineReconcile deployed_reconciler ''m'') (request_world, [])) = [] @ as \<and> wrote pkt as \<and>
    ParseMAC ''01:23:45:67:89:ab'' = Inr mac \<and> length mac = 6 \<and>
    (\<forall>own. length own = 6 \<longrightarrow> (nic_matches own pkt \<longleftrightarrow> own = mac))"
proof -
  let ?cfg = "\<lparr>wol_macAddress = ''01:23:45:67:89:ab'', wol_broadcastAddress = []\<rparr>"
  have set_up: "mr_env deployed_reconciler = beside store_env"
      "mr_Registry deployed_reconciler = deployed test_net (\<lambda>_. health) test_path (\<lambda>_. None) ''http://agent/'' ''s ''"
    by (simp_all add: deployed_reconciler_def)
  have path: "test_path (TrimRight ''http://agent/'' ''/'' @ ''/wake'') = ''/wake''" by code_simp
  have works: "net_works test_net" by (simp add: net_works_def test_net_def)
  have found: "env_get_machine store_env ''m'' request_world = (Inr requested_machine, request_world)" by code_simp
  have alone: "otherMachinesOnNode store_env requested_machine request_world =
      (Inr [], [ListMachinesOnNode ''n'' (Inr [requested_machine])], request_world)" by code_simp
  have down: "nodeIsReady store_env (nodeName_of requested_machine) request_world =
      (Inr False, [GetNode ''n'' (Inr (sample_node ''n'' CondFalse False))], request_world)" by code_simp
  have asked: "state_of requested_machine = Off" "wakeRequested requested_machine"
      "\<not> has_key (m_annotations requested_machine) AnnotationDrainNow" "admitted_machine requested_machine"
      "power_wol (spec_power (m_spec requested_machine)) = Some ?cfg" by code_simp+
  have address: "one_separator (wol_macAddress ?cfg)" "ascii (wol_broadcastAddress ?cfg)"
      "length (wol_broadcastAddress ?cfg) \<le> 650" by code_simp+
  from wake_request_served [OF set_up path refl works found alone down asked address, of "[]"] show ?thesis by simp
qed

end
