(* ===== verification/System_History.thy ===== *)
theory System_History
  imports Machine_Safety Scale_Up_Safety Scale_Down_Safety Shutdown_Safety NodePool_Controller
begin

text \<open>
  The processes together. A history is an interleaving of reconciles of the controller's four reconcilers and of
  the shutdown agents, call by call and in any order, each of them whole or cut off where its process died, on a
  cluster about which nothing is assumed but that a Machine it hands out as ShuttingDown was written so before. The property at the end follows a power-off of a host back
  through the agent's reconcile to the controller's reconcile that decided it.
\<close>

section \<open>Histories\<close>

record 'w system =
  sys_machine :: "'w machine_reconciler"
  sys_env :: "'w env"
  sys_agents :: "'w shutdown_reconciler list"

inductive reconcile_run :: "'w system \<Rightarrow> action list \<Rightarrow> bool" for S where
  machine_run: "reconcile_run S (actions (machineReconcile (sys_machine S) name) w)"
| pool_run: "reconcile_run S (actions (poolReconcile (sys_env S) name) w)"
| scale_up_run: "reconcile_run S (actions (scaleUpReconcile (sys_env S) ns name) w)"
| scale_down_run: "reconcile_run S (actions (scaleDownReconcile (sys_env S) name) (mem, w))"
| agent_run: "A \<in> set (sys_agents S) \<Longrightarrow> reconcile_run S (actions (shutdownReconcile A name) (am, w))"

text \<open>\<open>lost\<close> is what a reconcile would have done after its process died.\<close>

inductive history :: "'w system \<Rightarrow> action list \<Rightarrow> bool" for S where
  quiet: "history S []"
| more: "history S log \<Longrightarrow> reconcile_run S (as @ lost) \<Longrightarrow> log' \<in> shuffles log as \<Longrightarrow> history S log'"

inductive_cases reconcile_runE: "reconcile_run S as"

text \<open>The objects the API server hands out, to a read or to a patch.\<close>

fun hands_out :: "action \<Rightarrow> machine option" where
  "hands_out (GetMachine k (Inr m)) = Some m"
| "hands_out (PatchMachine orig new (Inr m)) = Some m"
| "hands_out _ = None"

text \<open>A status the API server hands out was written before, for the same Machine; the Node of a Machine is immutable.\<close>

fun writes_down :: "machine \<Rightarrow> action \<Rightarrow> bool" where
  "writes_down m (UpdateMachineStatus m' r) \<longleftrightarrow>
     state_of m' = ShuttingDown \<and> m_name m' = m_name m \<and> nodeName_of m' = nodeName_of m"
| "writes_down m _ \<longleftrightarrow> False"

fun honest_after :: "action list \<Rightarrow> action list \<Rightarrow> bool" where
  "honest_after seen [] = True"
| "honest_after seen (a # as) =
     ((case hands_out a of Some m \<Rightarrow> state_of m = ShuttingDown \<longrightarrow> list_ex (writes_down m) seen | None \<Rightarrow> True) \<and>
      honest_after (seen @ [a]) as)"

abbreviation api_honest :: "action list \<Rightarrow> bool" where
  "api_honest log \<equiv> honest_after [] log"

lemma honest_split: "honest_after seen (pre @ a # post) \<Longrightarrow> hands_out a = Some m \<Longrightarrow> state_of m = ShuttingDown \<Longrightarrow>
  list_ex (writes_down m) (seen @ pre)"
  by (induction pre arbitrary: seen) fastforce+

lemma honest_write:
  assumes "api_honest (pre @ a # post)" and "hands_out a = Some m" and "state_of m = ShuttingDown"
  obtains m' r q1 q2 where "pre = q1 @ UpdateMachineStatus m' r # q2" and "state_of m' = ShuttingDown"
    and "nodeName_of m' = nodeName_of m"
proof -
  from honest_split [OF assms] obtain b where "b \<in> set pre" and down: "writes_down m b" by (auto simp: list_ex_iff)
  then obtain q1 q2 where "pre = q1 @ b # q2" by (meson split_list)
  with down that show thesis by (cases b) auto
qed

section \<open>Interleavings\<close>

text \<open>An element of an interleaving comes from one of the two lists, and what came before it there comes before it.\<close>

lemma shuffles_split:
  assumes "zs \<in> shuffles xs ys" and "zs = pre @ a # post"
  shows "(\<exists>xs1 xs2. xs = xs1 @ a # xs2 \<and> set xs1 \<subseteq> set pre) \<or> (\<exists>ys1 ys2. ys = ys1 @ a # ys2 \<and> set ys1 \<subseteq> set pre)"
  using assms
proof (induction xs ys arbitrary: zs pre rule: shuffles.induct)
  case (1 ys)
  then show ?case by auto
next
  case (2 xs)
  then show ?case by auto
next
  case (3 x xs y ys)
  show ?case
  proof (cases pre)
    case Nil
    with 3 show ?thesis by (auto intro: exI [of _ "[]"])
  next
    case (Cons b pre')
    with 3 consider "b = x" "pre' @ a # post \<in> shuffles xs (y # ys)" | "b = y" "pre' @ a # post \<in> shuffles (x # xs) ys"
      by auto
    then show ?thesis
    proof cases
      case 1
      with 3(1) [OF 1(2) refl] Cons show ?thesis by (metis append_Cons list.simps(15) insert_mono subset_insertI2)
    next
      case 2
      with 3(2) [OF 2(2) refl] Cons show ?thesis by (metis append_Cons list.simps(15) insert_mono subset_insertI2)
    qed
  qed
qed

lemma history_run:
  assumes "history S log" and "log = pre @ a # post"
  obtains as bs where "reconcile_run S (as @ a # bs)" and "set as \<subseteq> set pre"
proof -
  have "\<exists>as bs. reconcile_run S (as @ a # bs) \<and> set as \<subseteq> set pre"
    using assms
  proof (induction arbitrary: pre post rule: history.induct)
    case (more log as lost log')
    from shuffles_split [OF more(3) more(5)] show ?case
    proof (elim disjE exE conjE)
      fix xs1 xs2
      assume "log = xs1 @ a # xs2" and "set xs1 \<subseteq> set pre"
      with more(4) [OF \<open>log = xs1 @ a # xs2\<close>] show ?thesis by blast
    next
      fix ys1 ys2
      assume "as = ys1 @ a # ys2" and "set ys1 \<subseteq> set pre"
      with more(2) show ?thesis by auto
    qed
  qed simp
  with that show thesis by blast
qed

section \<open>Who writes what\<close>

fun decides :: "action \<Rightarrow> bool" where
  "decides (UpdateMachineStatus m r) = (state_of m = ShuttingDown)"
| "decides (PowerOffHost r) = True"
| "decides _ = False"

lemma passive_not_decides: "is_passive a \<Longrightarrow> \<not> decides a"
  by (cases a) (simp_all add: is_passive_def)

lemma scaleUp_decides_not: "emits (\<lambda>a. \<not> decides a) (scaleUpReconcile E ns name)"
proof -
  have reads: "emits (\<lambda>a. \<not> decides a) p" if "emits plain_read p \<or> emits is_read p" for p :: "('a, 'b) go"
    using that by (auto elim!: emits_mono simp: plain_read_def dest: passive_not_decides [OF is_passive_simps(1)])
  show ?thesis
    unfolding scaleUpReconcile_def decideScaleUp_def stampScaleUp_def requestWake_def client_defs Let_def
    by (auto intro!: emits_rules reads [OF disjI1 [OF emits_scanPool]] reads [OF disjI1 [OF emits_scan_parts(7)]]
        reads [OF disjI2 [OF emits_podVolumeAffinities]])
qed

lemma scaleDown_decides_not: "emits (\<lambda>a. \<not> decides a) (scaleDownReconcile E name)"
proof (rule emits_mono [OF writes_scaleDownReconcile])
  show "scale_down_write a \<Longrightarrow> \<not> decides a" for a by (cases a) (auto dest: passive_not_decides)
qed

lemma pool_decides_not: "emits (\<lambda>a. \<not> decides a) (poolReconcile E name)"
  unfolding emits_def
  by (rule wp_mono [OF wp_poolReconcile_writes]) (use passive_not_decides in \<open>fastforce simp: list_all_iff one_write_def\<close>)

lemma agent_decides:
  assumes "actions (shutdownReconcile A name) (am, w) = as @ a # bs" and "decides a"
  obtains m r where "a = PowerOffHost r" and "GetMachine name (Inr m) \<in> set as" and "nodeName_of m = sr_NodeName A"
    and "state_of m = ShuttingDown"
proof -
  have "emits (\<lambda>a. decides a \<longrightarrow> is_power_cut a) (shutdownReconcile A name)"
    unfolding shutdownReconcile_def powerHostOff_def bootedAfter_def report_def remember_issued_def client_defs Let_def
    by (auto intro!: emits_rules)
  from emitsD [OF this, of "(am, w)"] assms have "is_power_cut a" by simp
  then obtain r where a: "a = PowerOffHost r" by (cases a) auto
  with assms(1) have "PowerOffHost r \<in> set (actions (shutdownReconcile A name) (am, w))" by simp
  then obtain m cs zs where "as @ a # bs = GetMachine name (Inr m) # cs @ PowerOffHost r # zs"
      and m: "nodeName_of m = sr_NodeName A" "state_of m = ShuttingDown"
    unfolding assms(1) by (rule power_cut_of [of r A name am w, unfolded assms(1)]) blast
  then have "GetMachine name (Inr m) \<in> set as" using a by (cases as) auto
  with a m show thesis by (intro that)
qed

lemma dispatch_powers_no_host: "emits (within all_rights) (dispatch R m)"
  by (cases "state_of m") (auto simp: dispatch_def intro!: emits_rules)

lemma machine_decides:
  assumes "actions (machineReconcile R name) w = as @ a # bs" and "decides a"
  obtains m r where "a = UpdateMachineStatus m r" and "state_of m = ShuttingDown"
proof -
  have "a \<in> set (actions (machineReconcile R name) w)" by (simp add: assms(1))
  then have "\<not> is_power_cut a"
  proof (cases rule: machineReconcile_cases [of R name w])
    case idle
    with assms passive_not_decides show ?thesis by (auto simp: list_all_iff)
  next
    case (dispatched m bs w')
    have "within all_rights a" if "a \<in> set (actions (dispatch R m) w')"
      using emitsD [OF dispatch_powers_no_host, of R m w'] that by (auto simp: list_all_iff)
    with dispatched \<open>a \<in> set _\<close> assms(2) passive_not_decides show ?thesis
      by (cases a) (auto simp: list_all_iff)
  qed
  with assms(2) that show thesis by (cases a) auto
qed

section \<open>Repeated states\<close>

definition repeats_down :: "machine \<Rightarrow> action set \<Rightarrow> action \<Rightarrow> bool" where
  "repeats_down m A a \<longleftrightarrow> (\<forall>m' r. a = UpdateMachineStatus m' r \<longrightarrow> state_of m' = ShuttingDown \<longrightarrow>
     state_of m = ShuttingDown \<and> m_name m' = m_name m \<and> nodeName_of m' = nodeName_of m)"

interpretation down_repeats: evidence is_power_off repeats_down
proof unfold_locales
  show "repeats_down m A a \<Longrightarrow> A \<subseteq> B \<Longrightarrow> repeats_down m B a" for m A a B by (simp only: repeats_down_def)
qed (simp_all add: power_offs.passive_unmarked)

lemma reconcileOff_repeats: "wp (reconcileOff R m) (\<lambda>as r. justified is_power_off repeats_down m as)"
proof -
  have rest: "wp (bind (map_error g (nodeIsReady (mr_env R) (nodeName_of m))) (\<lambda>ready.
      if ready then bind (event obj ty reason msg) (\<lambda>_. promoteToReady R m)
      else if \<not> wakeRequested m then ret NoRequeue else wakeMachine R m))
      (\<lambda>as r. justified is_power_off repeats_down m as)" (is "wp ?p _") for g obj ty reason msg m
  proof -
    have "emits (within (only_write (\<lambda>m'. state_of m' = ShuttingDown \<longrightarrow>
        state_of m = ShuttingDown \<and> m_name m' = m_name m \<and> nodeName_of m' = nodeName_of m))) ?p"
      unfolding nodeIsReady_def client_defs by (auto intro!: emits_rules)
    then show ?thesis
      by (rule emits_wp, intro down_repeats.here down_repeats.held_all) (auto simp: repeats_down_def dest: withinD(3))
  qed
  show ?thesis
    unfolding reconcileOff_def Let_def by (intro down_repeats.after_removeDrainAnnotation rest)
qed

text \<open>A power-off of the controller has its own evidence, or it repeats a state that a patch returned before.\<close>

definition guarded_off :: "string \<Rightarrow> action set \<Rightarrow> bool" where
  "guarded_off k A \<longleftrightarrow> node_answer (\<lambda>n. \<not> alwaysOnLabelled n) k A \<and> node_answer node_unschedulable k A \<and>
     (\<exists>pods. ListPodsOnNode Fresh k (Inr pods) \<in> A \<and> (\<forall>pod\<in>set pods. \<not> keepsNodeOn pod))"

lemma down_write_cases:
  assumes "actions (machineReconcile R name) w = as @ UpdateMachineStatus m' r # bs" and "state_of m' = ShuttingDown"
  obtains (guarded) "guarded_off (nodeName_of m') (set as)"
  | (repeated) m0 orig new where "PatchMachine orig new (Inr m0) \<in> set as" and "state_of m0 = ShuttingDown"
      and "m_name m' = m_name m0" and "nodeName_of m' = nodeName_of m0"
proof -
  let ?a = "UpdateMachineStatus m' r"
  have off: "is_power_off ?a" using assms(2) by simp
  from assms(1) obtain m cs ds w' where as: "as = cs @ ds" and run: "actions (dispatch R m) w' = ds @ ?a # bs"
    by (rule reconcile_split) simp
  have "state_of m \<in> {Off, Draining}"
    by (rule dispatch_state [where X = is_power_off, OF run off dispatch_powers_off no_power_off])
  then consider (off) "state_of m = Off" | (draining) "state_of m = Draining" by blast
  then show thesis
  proof cases
    case off
    then have "wp (dispatch R m) (\<lambda>as r. justified is_power_off repeats_down m as)"
      by (simp add: dispatch_def reconcileOff_repeats)
    from down_repeats.in_dispatch [OF this run, of cs] off assms(2) show ?thesis
      by (auto simp: repeats_down_def returned_def as intro: repeated)
  next
    case draining
    then have "wp (dispatch R m) (\<lambda>as r. justified is_power_off power_off_evidence m as)"
      by (simp add: dispatch_def power_off_reconcileDraining)
    from power_offs.in_dispatch [OF this run, of cs] assms(2)
    obtain m0 where "power_off_evidence m0 (set as) ?a" by (auto simp: as)
    then have "guarded_off (nodeName_of m') (set as)" by (auto simp: guarded_off_def)
    then show ?thesis by (rule guarded)
  qed
qed

section \<open>From the host back to the decision\<close>

lemma decision_run:
  assumes "reconcile_run S (as @ a # bs)" and "decides a"
  obtains (controller) name w m r where "actions (machineReconcile (sys_machine S) name) w = as @ a # bs"
      and "a = UpdateMachineStatus m r" and "state_of m = ShuttingDown"
  | (agent) A name m r where "A \<in> set (sys_agents S)" and "a = PowerOffHost r" and "GetMachine name (Inr m) \<in> set as"
      and "nodeName_of m = sr_NodeName A" and "state_of m = ShuttingDown"
proof -
  have quiet: False if "emits (\<lambda>a. \<not> decides a) p" and "actions p w = as @ a # bs" for p :: "('b, action, go_error, 'c) prog" and w
    using emitsD [OF that(1), of w] that(2) assms(2) by simp
  from assms(1) show thesis
  proof (cases rule: reconcile_run.cases)
    case (machine_run name w)
    then have run: "actions (machineReconcile (sys_machine S) name) w = as @ a # bs" by simp
    from run assms(2) obtain m r where "a = UpdateMachineStatus m r" "state_of m = ShuttingDown" by (rule machine_decides)
    with run show ?thesis by (rule controller)
  next
    case (agent_run A name am w)
    then have run: "actions (shutdownReconcile A name) (am, w) = as @ a # bs" by simp
    from run assms(2) obtain m r where "a = PowerOffHost r" "GetMachine name (Inr m) \<in> set as"
      "nodeName_of m = sr_NodeName A" "state_of m = ShuttingDown" by (rule agent_decides)
    with agent_run(2) show ?thesis by (rule agent)
  next
    case (pool_run name w)
    then show ?thesis using quiet [OF pool_decides_not] by metis
  next
    case (scale_up_run ns name w)
    then show ?thesis using quiet [OF scaleUp_decides_not] by metis
  next
    case (scale_down_run name mem w)
    then show ?thesis using quiet [OF scaleDown_decides_not] by metis
  qed
qed

lemma down_write_guarded:
  assumes "history S log" and "api_honest log"
    and "log = pre @ UpdateMachineStatus m' r # post" and "state_of m' = ShuttingDown"
  shows "\<exists>name w as bs m1 r1. actions (machineReconcile (sys_machine S) name) w = as @ UpdateMachineStatus m1 r1 # bs \<and>
    state_of m1 = ShuttingDown \<and> set as \<subseteq> set pre \<and> guarded_off (nodeName_of m') (set as)"
  using assms(3,4)
proof (induction "length pre" arbitrary: pre m' r post rule: less_induct)
  case less
  obtain as bs where run: "reconcile_run S (as @ UpdateMachineStatus m' r # bs)" and before: "set as \<subseteq> set pre"
    using assms(1) less.prems(1) by (rule history_run)
  have "decides (UpdateMachineStatus m' r)" using less.prems(2) by simp
  with run obtain name w where acts: "actions (machineReconcile (sys_machine S) name) w = as @ UpdateMachineStatus m' r # bs"
    by (rule decision_run) auto
  from acts less.prems(2) show ?case
  proof (cases rule: down_write_cases)
    case guarded
    with acts before less.prems(2) show ?thesis by blast
  next
    case (repeated m0 orig new)
    then obtain p1 p2 where p: "pre = p1 @ PatchMachine orig new (Inr m0) # p2" using before by (meson in_mono split_list)
    with assms(2) less.prems(1)
    have "api_honest (p1 @ PatchMachine orig new (Inr m0) # p2 @ UpdateMachineStatus m' r # post)" by simp
    then obtain m1 r1 q1 q2 where q: "p1 = q1 @ UpdateMachineStatus m1 r1 # q2" and m1: "state_of m1 = ShuttingDown"
        "nodeName_of m1 = nodeName_of m0"
      using repeated(2) by (rule honest_write [OF _ hands_out.simps(2)])
    have "length q1 < length pre" and "set q1 \<subseteq> set pre" by (auto simp: p q)
    with less.hyps [of q1 m1 r1] less.prems(1) p q m1 repeated(4) show ?thesis by (simp) (meson subset_trans)
  qed
qed

text \<open>C4. No host goes down without the controller's guards. In every interleaving of the reconciles of the whole system,
  whole or cut off by a crash, on a cluster that hands out a Machine as ShuttingDown only if that was written for it
  before: before an agent powers its host off, a reconcile of the Machine controller had decided it, and before that
  decision the same reconcile had seen the host's Node without the always-on label, had seen it already cordoned, and
  had read from the API server a list of its pods in which none keeps the Node on.\<close>

theorem host_off_was_guarded:
  assumes "history S log" and "api_honest log" and "log = pre @ PowerOffHost r # post"
  shows "\<exists>A\<in>set (sys_agents S). \<exists>name w seen m r' rest.
    actions (machineReconcile (sys_machine S) name) w = seen @ UpdateMachineStatus m r' # rest \<and>
    state_of m = ShuttingDown \<and> set seen \<subseteq> set pre \<and>
    node_answer (\<lambda>n. \<not> alwaysOnLabelled n) (sr_NodeName A) (set seen) \<and>
    node_answer node_unschedulable (sr_NodeName A) (set seen) \<and>
    (\<exists>pods. ListPodsOnNode Fresh (sr_NodeName A) (Inr pods) \<in> set seen \<and> (\<forall>pod\<in>set pods. \<not> keepsNodeOn pod))"
proof -
  obtain as bs where run: "reconcile_run S (as @ PowerOffHost r # bs)" and before: "set as \<subseteq> set pre"
    using assms(1,3) by (rule history_run)
  have "decides (PowerOffHost r)" by simp
  with run obtain A name m where A: "A \<in> set (sys_agents S)" and got: "GetMachine name (Inr m) \<in> set as"
      and m: "nodeName_of m = sr_NodeName A" "state_of m = ShuttingDown"
    by (rule decision_run) auto
  obtain p1 p2 where p: "pre = p1 @ GetMachine name (Inr m) # p2" using got before by (meson in_mono split_list)
  with assms(2,3) have "api_honest (p1 @ GetMachine name (Inr m) # p2 @ PowerOffHost r # post)" by simp
  then obtain m' r' q1 q2 where q: "p1 = q1 @ UpdateMachineStatus m' r' # q2" "state_of m' = ShuttingDown" "nodeName_of m' = nodeName_of m"
    using m(2) by (rule honest_write [OF _ hands_out.simps(1)])
  then have "set q1 \<subseteq> set pre" by (auto simp: p)
  moreover obtain name' w as' bs' m1 r1 where
      "actions (machineReconcile (sys_machine S) name') w = as' @ UpdateMachineStatus m1 r1 # bs'"
      "state_of m1 = ShuttingDown" "set as' \<subseteq> set q1" "guarded_off (sr_NodeName A) (set as')"
    using down_write_guarded [OF assms(1,2), of q1 m' r'] assms(3) p q m(1) by auto
  ultimately show ?thesis using A unfolding guarded_off_def by (meson subset_trans)
qed

definition drain_log :: "action list" where
  "drain_log = actions (machineReconcile sample_reconciler ''m'') (sample_world Draining CondTrue True)"

definition agent_log :: "action list" where
  "agent_log = actions (shutdownReconcile (sample_agent (Inr ())) ''m'')
     (fresh_agent, final (machineReconcile sample_reconciler ''m'') (sample_world Draining CondTrue True))"

definition sample_system :: "world system" where
  "sample_system = \<lparr>sys_machine = sample_reconciler, sys_env = store_env, sys_agents = [sample_agent (Inr ())]\<rparr>"

lemma sample_history: "history sample_system (drain_log @ agent_log)"
proof (rule history.more [where lost = "[]"])
  show "history sample_system drain_log"
    by (rule history.more [OF history.quiet, of _ drain_log "[]"])
      (use machine_run [of sample_system "''m''"] in \<open>simp_all add: drain_log_def sample_system_def\<close>)
  show "reconcile_run sample_system (agent_log @ [])"
    unfolding agent_log_def append_Nil2 by (rule agent_run) (simp add: sample_system_def)
  have "xs @ ys \<in> shuffles xs ys" for xs ys :: "action list"
    by (induction xs) (simp_all add: Cons_in_shuffles_leftI)
  then show "drain_log @ agent_log \<in> shuffles drain_log agent_log" .
qed

theorem host_off_was_guarded_witness:
  "\<exists>pre post pods. drain_log @ agent_log = pre @ PowerOffHost (Inr ()) # post \<and>
     ListPodsOnNode Fresh ''n'' (Inr pods) \<in> set pre \<and> (\<forall>pod\<in>set pods. \<not> keepsNodeOn pod)"
proof -
  have honest: "api_honest (drain_log @ agent_log)" by code_simp
  have "PowerOffHost (Inr ()) \<in> set (drain_log @ agent_log)" by code_simp
  then obtain pre post where cut: "drain_log @ agent_log = pre @ PowerOffHost (Inr ()) # post" by (meson split_list)
  from host_off_was_guarded [OF sample_history honest cut] cut show ?thesis
    by (fastforce simp: sample_system_def sample_agent_def)
qed

end
