(* ===== verification/Machine_Termination.thy ===== *)
theory Machine_Termination
  imports Machine_Lifecycle
begin

text \<open>
  The waits of a Machine end. A Machine in Booting, Draining or ShuttingDown is reconciled again and again, each time after
  the wait the last reconcile asked for; the theories before this one are about a single reconcile. Here a sequence of
  them is bounded: more reconciles than poll intervals fit into the budget, and one of them has left the state. The wait
  can also be lost, when the budget lapses while a reconcile runs; this is shown to happen.
\<close>

section \<open>Turns\<close>









section \<open>Where a wait comes from\<close>








section \<open>One turn\<close>



section \<open>A sequence of turns\<close>



section \<open>A wait that is lost\<close>

fun writes_machine :: "action \<Rightarrow> bool" where
  "writes_machine (UpdateMachineStatus m r) = True"
| "writes_machine (PatchMachineStatus m m' r) = True"
| "writes_machine (PatchMachine m m' r) = True"
| "writes_machine _ = False"

lemma passive_writes_nothing: "is_passive a \<Longrightarrow> \<not> writes_machine a"
  by (cases a) (simp_all add: is_passive_def)

lemma passive_no_power: "is_passive a \<Longrightarrow> \<not> is_power_on a"
  by (cases a) (simp_all add: is_passive_def)

text \<open>A reconcile of a Booting Machine powers on once, after reads and before it reads the clock for the wait.\<close>

definition resent :: "'w machine_reconciler \<Rightarrow> machine \<Rightarrow> time \<Rightarrow> action list \<Rightarrow> go_error + requeue \<Rightarrow> bool" where
  "resent R m t as res \<longleftrightarrow> (\<exists>xs p r zs n. as = xs @ PowerOnCall p m r # zs @ [ReadClock n] \<and>
     list_all is_read xs \<and> list_all is_report zs \<and>
     res = Inr (RequeueAfter (clampRemaining bootPollInterval (dur_sub (mr_BootTimeout R) (time_sub n t)))))"

lemma resent_after: "list_all is_read ys \<Longrightarrow> resent R m t as res \<Longrightarrow> resent R m t (ys @ as) res"
  unfolding resent_def by (metis append.assoc list_all_append)

lemma split_at_unique:
  assumes "xs @ x # ys = us @ y # vs" and "list_all P xs" "list_all P ys" and "\<not> P x" "\<not> P y"
  shows "xs = us \<and> x = y \<and> ys = vs"
  using assms by (auto simp: append_eq_append_conv2 Cons_eq_append_conv append_eq_Cons_conv)

lemma resentI:
  "resent R m t [ReadClock k, PowerOnCall p m r, CountPowerOn p' r', ReadClock n]
     (Inr (RequeueAfter (clampRemaining bootPollInterval (dur_sub (mr_BootTimeout R) (time_sub n t)))))"
  unfolding resent_def
  by (rule exI [of _ "[ReadClock k]"], rule exI [of _ p], rule exI [of _ r], rule exI [of _ "[CountPowerOn p' r']"]) simp

lemma wp_resend:
  assumes "st_bootStartTime (m_status m) = Some t"
  shows "wp (bind (resendPowerOn R m) (\<lambda>_. bind (requeueForBoot R m) (\<lambda>d. ret (RequeueAfter d))))
    (\<lambda>as r. list_all (\<lambda>a. \<not> is_power_on a) as \<or> resent R m t as r)"
  unfolding resendPowerOn_def requeueForBoot_def assms option.case since_def now_def power_on_def RecordPowerOn_def
  by (auto intro!: wp_rules resentI)

lemma wp_reconcileBooting:
  assumes "\<not> has_key (m_annotations m) AnnotationDrainNow" and "st_bootStartTime (m_status m) = Some t"
  shows "wp (reconcileBooting R m) (\<lambda>as r. list_all (\<lambda>a. \<not> is_power_on a) as \<or> resent R m t as r)"
proof -
  let ?Q = "\<lambda>as r. list_all (\<lambda>a. \<not> is_power_on a) as \<or> resent R m t as r"
  have later: "wp p (\<lambda>as r. ?Q (ys @ as) r)" if "wp p ?Q" and "list_all is_read ys" for p ys
    by (rule wp_mono [OF that(1)]) (use that(2) in \<open>auto simp: list_all_read_no_power_on intro: resent_after\<close>)
  have quiet: "wp p ?Q" if "emits (within (only_power (\<lambda>_. False))) p" for p
    by (rule emits_wp [OF emits_mono [OF that no_power_on]]) (auto simp: list_all_iff)
  have promote: "emits (within (only_power (\<lambda>_. False))) (promoteToReady R m)"
    and fail: "emits (within (only_power (\<lambda>_. False))) (failBoot R m reason msg)" for reason msg
    by (auto intro!: emits_rules)
  have timer: "wp (bind (bootTimedOut R m) (\<lambda>timedOut. if timedOut then failBoot R m reason msg
      else bind (resendPowerOn R m) (\<lambda>_. bind (requeueForBoot R m) (\<lambda>d. ret (RequeueAfter d))))) ?Q" for reason msg
  proof -
    have read: "bind (bootTimedOut R m) f = bind (now (mr_env R)) (\<lambda>n. f (mr_BootTimeout R \<le> time_sub n t))" for f :: "bool \<Rightarrow> ('a, requeue) go"
      by (simp add: bootTimedOut_def since_def assms(2) bind_assoc bind_ret)
    show ?thesis
      unfolding read now_def
      by (rule wp_bind, rule wp_ask)
        (use later [OF quiet [OF fail], of "[ReadClock _]"] later [OF wp_resend [OF assms(2)], of "[ReadClock _]"] in simp)
  qed
  have remove: "removeDrainAnnotation (mr_env R) m = ret m" using assms(1) by (simp add: removeDrainAnnotation_def)
  show ?thesis
    unfolding reconcileBooting_def Let_def remove bind_ret
    by (rule wp_bind, rule wp_map_error, rule wp_nodeIsReady)
      (use later [OF quiet [OF promote], of "[]"] later [OF quiet [OF promote], of "[GetNode _ _]"]
        later [OF timer, of "[]"] later [OF timer, of "[GetNode _ _]"] in simp_all)
qed

section \<open>Samples\<close>



text \<open>A clock that moves by four seconds whenever it is read, and a Booting Machine five seconds before its deadline.\<close>

definition ticking_reconciler :: "world machine_reconciler" where
  "ticking_reconciler = sample_reconciler\<lparr>mr_env :=
     store_env\<lparr>env_now := (\<lambda>w. (w_now w, w\<lparr>w_now := w_now w + 4 * second\<rparr>))\<rparr>\<rparr>"

definition deadline_world :: world where
  "deadline_world = (sample_world Booting CondFalse False)\<lparr>
     w_now := 100 + 10 * minute - 5 * second,
     w_machines := [update_status (\<lambda>s. s\<lparr>st_bootStartTime := Some 100\<rparr>) (sample_machine ''m'' ''n'' Booting)]\<rparr>"

section \<open>Properties\<close>





text \<open>C24. A wait can be lost: take any reconcile of a Booting Machine without the drain-now annotation that resends the
  power-on, so the boot budget was not used up when it looked. If a clock that it reads after the power-on is at the boot
  deadline or past it, then the reconcile returns without an error, asks to run again after a wait of zero, and has written
  neither a state nor anything else of the Machine.\<close>

theorem boot_wait_lost:
  assumes "env_get_machine (mr_env R) name w = (Inr m, w1)" and "state_of m = Booting"
    and "\<not> has_key (m_annotations m) AnnotationDrainNow" and "st_bootStartTime (m_status m) = Some t"
    and "0 \<le> mr_BootTimeout R" and "mr_BootTimeout R < 2 ^ 63"
    and "actions (machineReconcile R name) w = pre @ PowerOnCall p m' r # post"
    and "ReadClock n \<in> set post" and "t + mr_BootTimeout R \<le> n"
  shows "result (machineReconcile R name) w = Inr (RequeueAfter 0) \<and>
    (\<forall>a\<in>set (actions (machineReconcile R name) w). \<not> writes_machine a)"
  using assms(1)
proof (cases rule: machineReconcile_fetched)
  case (dispatched bs w')
  let ?as = "actions (reconcileBooting R m) w'"
  have split: "bs @ ?as = pre @ PowerOnCall p m' r # post"
    and res: "result (machineReconcile R name) w = result (reconcileBooting R m) w'"
    using dispatched(1,2) assms(2,7) by (simp_all add: dispatch_def)
  have bs: "list_all (\<lambda>a. \<not> is_power_on a) bs" using dispatched(3) passive_no_power by (auto simp: list_all_iff)
  then have "\<not> list_all (\<lambda>a. \<not> is_power_on a) ?as"
    using arg_cong [OF split, of "list_all (\<lambda>a. \<not> is_power_on a)"] by auto
  with wpD [OF wp_reconcileBooting [OF assms(3,4)], of R w']
  obtain xs q r' zs k where as: "?as = xs @ PowerOnCall q m r' # zs @ [ReadClock k]" and "list_all is_read xs" "list_all is_report zs"
    and wait: "result (reconcileBooting R m) w' =
      Inr (RequeueAfter (clampRemaining bootPollInterval (dur_sub (mr_BootTimeout R) (time_sub k t))))"
    unfolding resent_def by blast
  then have quiet: "list_all (\<lambda>a. \<not> is_power_on a) (bs @ xs)" "list_all (\<lambda>a. \<not> is_power_on a) (zs @ [ReadClock k])"
    using bs list_all_read_no_power_on [OF \<open>list_all is_read xs\<close>]
    by (auto simp: list_all_iff dest: passive_no_power [OF is_passive_simps(2)])
  have "(bs @ xs) @ PowerOnCall q m r' # zs @ [ReadClock k] = pre @ PowerOnCall p m' r # post"
    using split unfolding as by simp
  from split_at_unique [OF this quiet] have "post = zs @ [ReadClock k]" by simp
  with assms(8) \<open>list_all is_report zs\<close> have "n = k" by (auto simp: list_all_iff)
  moreover have "dur_sub (mr_BootTimeout R) (time_sub n t) \<le> 0"
    using assms(5,6,9) unfolding dur_sub_def by (subst fits_wrap) (auto simp: fits_width_def time_sub_def)
  ultimately have "result (machineReconcile R name) w = Inr (RequeueAfter 0)"
    using res wait by (simp add: clampRemaining_def bootPollInterval_def second_def)
  moreover have "\<not> writes_machine a" if "a \<in> set (bs @ ?as)" for a
    using that dispatched(3) \<open>list_all is_read xs\<close> \<open>list_all is_report zs\<close> unfolding as
    by (auto simp: list_all_iff dest: passive_writes_nothing [OF is_passive_simps(1)] passive_writes_nothing [OF is_passive_simps(2)]
        passive_writes_nothing)
  ultimately show ?thesis unfolding dispatched(1) using assms(2) by (simp add: dispatch_def)
qed (use assms(7) in \<open>auto dest: passive_no_power\<close>)

text \<open>It happens: five seconds before the deadline, with a clock that moves by four seconds whenever it is read.\<close>

theorem boot_wait_lost_witness:
  "result (machineReconcile ticking_reconciler ''m'') deadline_world = Inr (RequeueAfter 0) \<and>
   filter writes_machine (actions (machineReconcile ticking_reconciler ''m'') deadline_world) = []"
proof -
  let ?m = "update_status (\<lambda>s. s\<lparr>st_bootStartTime := Some 100\<rparr>) (sample_machine ''m'' ''n'' Booting)"
  let ?as = "actions (machineReconcile ticking_reconciler ''m'') deadline_world"
  have fetch: "env_get_machine (mr_env ticking_reconciler) ''m'' deadline_world = (Inr ?m, deadline_world)" by code_simp
  have st: "state_of ?m = Booting" "\<not> has_key (m_annotations ?m) AnnotationDrainNow" "st_bootStartTime (m_status ?m) = Some 100"
    "0 \<le> mr_BootTimeout ticking_reconciler" "mr_BootTimeout ticking_reconciler < 2 ^ 63" by code_simp+
  have "case dropWhile (\<lambda>a. \<not> is_power_on a) ?as of
      PowerOnCall p m' r # post \<Rightarrow> ReadClock (100 + 10 * minute + 3 * second) \<in> set post | _ \<Rightarrow> False"
    by code_simp
  then obtain p m' r post where "dropWhile (\<lambda>a. \<not> is_power_on a) ?as = PowerOnCall p m' r # post"
    and late: "ReadClock (100 + 10 * minute + 3 * second) \<in> set post"
    by (auto split: list.splits action.splits)
  then have split: "?as = takeWhile (\<lambda>a. \<not> is_power_on a) ?as @ PowerOnCall p m' r # post" by (metis takeWhile_dropWhile_id)
  have "100 + mr_BootTimeout ticking_reconciler \<le> 100 + 10 * minute + 3 * second" by code_simp
  from boot_wait_lost [OF fetch st split late this] show ?thesis by (simp add: filter_empty_conv)
qed

end
