(* ===== verification/Go_Memory.thy ===== *)
theory Go_Memory
  imports Api_Types "HOL-Library.Monad_Syntax"
begin

text \<open>
  The generated deep copies, \<^verbatim>\<open>api/v1alpha1/zz_generated.deepcopy.go\<close>, over an explicit memory. Everywhere
  else in the development an API object is a value, and \<^verbatim>\<open>orig := m.DeepCopy()\<close> followed by writes to \<open>m\<close>
  leaves \<open>orig\<close> what it was. Here an object is what it is in Go, a struct with pointers, maps and slices that
  live in memory and may be shared, and the theorems show that the copies earn that treatment: a copy has the value of
  its original, and no write to what existed before the copy can be seen through it, nor the other way round.

  The memory is a list of cells, an address is a position in it, and allocation appends. A null pointer, a nil map and
  a nil slice are \<^term>\<open>None\<close>. A map is a cell that holds its entries; a slice is a cell that holds the elements the
  slice spans. A function that reads an address which holds no cell of the type its pointer claims has no result.
  \<open>DeepCopyInto\<close> takes the struct \<^verbatim>\<open>*in\<close> and gives the struct \<^verbatim>\<open>*out\<close>; the two never overlap,
  because every caller has just allocated \<^verbatim>\<open>out\<close>.

  The structs of the Kubernetes libraries are opaque (\<open>'x\<close>), and their copy functions are parameters.
\<close>

section \<open>Structs in memory\<close>

type_synonym ptr = "nat option"

record cooldown_m =
  cm_scaleUp :: ptr
  cm_scaleDown :: ptr

record disruption_m =
  dm_consolidationPolicy :: string
  dm_consolidateAfter :: ptr
  dm_maxConcurrent :: ptr

record drain_m =
  rm_timeoutSeconds :: ptr
  rm_force :: bool

record power_m =
  pm_provider :: string
  pm_wol :: ptr

record machine_spec_m =
  sm_nodeName :: string
  sm_capacity :: ptr
  sm_labels :: ptr
  sm_power :: power_m
  sm_shutdown :: ptr

record machine_status_m =
  tm_state :: machine_state
  tm_bootStartTime :: ptr
  tm_drainStartTime :: ptr
  tm_emptySince :: ptr
  tm_shutdownStartTime :: ptr
  tm_notReadySince :: ptr
  tm_conditions :: ptr

text \<open>\<^verbatim>\<open>metav1.TypeMeta\<close> is a kind and an API version.\<close>

type_synonym type_meta = "string \<times> string"

record 'x machine_m =
  mm_typeMeta :: type_meta
  mm_objectMeta :: 'x
  mm_spec :: machine_spec_m
  mm_status :: machine_status_m

record 'x machine_list_m =
  ml_typeMeta :: type_meta
  ml_listMeta :: 'x
  ml_items :: ptr

record template_m =
  lm_labels :: ptr
  lm_taints :: ptr

record 'x pool_spec_m =
  om_minNodes :: int
  om_maxNodes :: ptr
  om_machineSelector :: 'x
  om_template :: template_m
  om_disruption :: disruption_m
  om_cooldown :: cooldown_m
  om_drain :: drain_m

record pool_status_m =
  um_totalMachines :: int
  um_readyMachines :: int
  um_lastScaleUpTime :: ptr
  um_lastScaleDownTime :: ptr
  um_conditions :: ptr

record 'x pool_m =
  nm_typeMeta :: type_meta
  nm_objectMeta :: 'x
  nm_spec :: "'x pool_spec_m"
  nm_status :: pool_status_m

record 'x pool_list_m =
  nl_typeMeta :: type_meta
  nl_listMeta :: 'x
  nl_items :: ptr

text \<open>What a cell can hold: \<open>CZero\<close> is an object fresh from \<^verbatim>\<open>new\<close> or \<^verbatim>\<open>make\<close>, \<open>CLib\<close> an object of a
  library type, \<open>CLibs\<close> the array of a slice of them.\<close>

datatype 'x cell =
    CZero
  | CDuration duration
  | CInt32 int
  | CStrings strmap
  | CResources "(string \<times> 'x) list"
  | CLib 'x
  | CLibs "'x list"
  | CMachines "'x machine_m list"
  | CNodePools "'x pool_m list"
  | CCooldownSpec cooldown_m
  | CDisruptionSpec disruption_m
  | CDrainSpec drain_m
  | CMachine "'x machine_m"
  | CMachineList "'x machine_list_m"
  | CMachineSpec machine_spec_m
  | CMachineStatus machine_status_m
  | CNodePool "'x pool_m"
  | CNodePoolList "'x pool_list_m"
  | CNodePoolSpec "'x pool_spec_m"
  | CNodePoolStatus pool_status_m
  | CNodePoolTemplate template_m
  | CPowerSpec power_m
  | CShutdownSpec shutdown_spec
  | CWoLConfig wol_config

type_synonym 'x mem = "'x cell list"

text \<open>The way into each kind of cell that is read here.\<close>

definition as_duration :: "'x cell \<Rightarrow> duration option" where
  "as_duration c = (case c of CDuration d \<Rightarrow> Some d | _ \<Rightarrow> None)"

definition as_int32 :: "'x cell \<Rightarrow> int option" where
  "as_int32 c = (case c of CInt32 n \<Rightarrow> Some n | _ \<Rightarrow> None)"

definition as_strings :: "'x cell \<Rightarrow> strmap option" where
  "as_strings c = (case c of CStrings m \<Rightarrow> Some m | _ \<Rightarrow> None)"

definition as_resources :: "'x cell \<Rightarrow> (string \<times> 'x) list option" where
  "as_resources c = (case c of CResources m \<Rightarrow> Some m | _ \<Rightarrow> None)"

definition as_libs :: "'x cell \<Rightarrow> 'x list option" where
  "as_libs c = (case c of CLibs xs \<Rightarrow> Some xs | _ \<Rightarrow> None)"

definition as_machines :: "'x cell \<Rightarrow> 'x machine_m list option" where
  "as_machines c = (case c of CMachines ms \<Rightarrow> Some ms | _ \<Rightarrow> None)"

definition as_nodepools :: "'x cell \<Rightarrow> 'x pool_m list option" where
  "as_nodepools c = (case c of CNodePools ps \<Rightarrow> Some ps | _ \<Rightarrow> None)"

definition as_cooldown :: "'x cell \<Rightarrow> cooldown_m option" where
  "as_cooldown c = (case c of CCooldownSpec v \<Rightarrow> Some v | _ \<Rightarrow> None)"

definition as_disruption :: "'x cell \<Rightarrow> disruption_m option" where
  "as_disruption c = (case c of CDisruptionSpec v \<Rightarrow> Some v | _ \<Rightarrow> None)"

definition as_drain :: "'x cell \<Rightarrow> drain_m option" where
  "as_drain c = (case c of CDrainSpec v \<Rightarrow> Some v | _ \<Rightarrow> None)"

definition as_machine :: "'x cell \<Rightarrow> 'x machine_m option" where
  "as_machine c = (case c of CMachine v \<Rightarrow> Some v | _ \<Rightarrow> None)"

definition as_machine_list :: "'x cell \<Rightarrow> 'x machine_list_m option" where
  "as_machine_list c = (case c of CMachineList v \<Rightarrow> Some v | _ \<Rightarrow> None)"

definition as_machine_spec :: "'x cell \<Rightarrow> machine_spec_m option" where
  "as_machine_spec c = (case c of CMachineSpec v \<Rightarrow> Some v | _ \<Rightarrow> None)"

definition as_machine_status :: "'x cell \<Rightarrow> machine_status_m option" where
  "as_machine_status c = (case c of CMachineStatus v \<Rightarrow> Some v | _ \<Rightarrow> None)"

definition as_pool :: "'x cell \<Rightarrow> 'x pool_m option" where
  "as_pool c = (case c of CNodePool v \<Rightarrow> Some v | _ \<Rightarrow> None)"

definition as_pool_list :: "'x cell \<Rightarrow> 'x pool_list_m option" where
  "as_pool_list c = (case c of CNodePoolList v \<Rightarrow> Some v | _ \<Rightarrow> None)"

definition as_pool_spec :: "'x cell \<Rightarrow> 'x pool_spec_m option" where
  "as_pool_spec c = (case c of CNodePoolSpec v \<Rightarrow> Some v | _ \<Rightarrow> None)"

definition as_pool_status :: "'x cell \<Rightarrow> pool_status_m option" where
  "as_pool_status c = (case c of CNodePoolStatus v \<Rightarrow> Some v | _ \<Rightarrow> None)"

definition as_template :: "'x cell \<Rightarrow> template_m option" where
  "as_template c = (case c of CNodePoolTemplate v \<Rightarrow> Some v | _ \<Rightarrow> None)"

definition as_power :: "'x cell \<Rightarrow> power_m option" where
  "as_power c = (case c of CPowerSpec v \<Rightarrow> Some v | _ \<Rightarrow> None)"

definition as_shutdown :: "'x cell \<Rightarrow> shutdown_spec option" where
  "as_shutdown c = (case c of CShutdownSpec v \<Rightarrow> Some v | _ \<Rightarrow> None)"

definition as_wol :: "'x cell \<Rightarrow> wol_config option" where
  "as_wol c = (case c of CWoLConfig v \<Rightarrow> Some v | _ \<Rightarrow> None)"

named_theorems cell_defs \<open>the ways into the cells\<close>

declare as_duration_def [cell_defs] as_int32_def [cell_defs] as_strings_def [cell_defs] as_resources_def [cell_defs]
  as_libs_def [cell_defs] as_machines_def [cell_defs] as_nodepools_def [cell_defs] as_cooldown_def [cell_defs]
  as_disruption_def [cell_defs] as_drain_def [cell_defs] as_machine_def [cell_defs] as_machine_list_def [cell_defs]
  as_machine_spec_def [cell_defs] as_machine_status_def [cell_defs] as_pool_def [cell_defs]
  as_pool_list_def [cell_defs] as_pool_spec_def [cell_defs] as_pool_status_def [cell_defs]
  as_template_def [cell_defs] as_power_def [cell_defs] as_shutdown_def [cell_defs] as_wol_def [cell_defs]

section \<open>The steps of a copy\<close>

type_synonym ('v, 'x) copy_fn = "'v \<Rightarrow> 'x mem \<Rightarrow> ('v \<times> 'x mem) option"

definition load :: "('x cell \<Rightarrow> 'v option) \<Rightarrow> 'x mem \<Rightarrow> nat \<Rightarrow> 'v option" where
  "load rd h a = (if a < length h then rd (h ! a) else None)"

text \<open>The assignment \<^verbatim>\<open>*out = *in\<close> of a struct without pointers.\<close>

definition assign :: "('v, 'x) copy_fn" where
  "assign v h = Some (v, h)"

text \<open>\<^verbatim>\<open>if in != nil { *out = new(T); <copy **in into **out> }\<close>: a new object, then its contents.\<close>

definition copy_ptr ::
    "('x cell \<Rightarrow> 'v option) \<Rightarrow> ('v \<Rightarrow> 'x cell) \<Rightarrow> ('v, 'x) copy_fn \<Rightarrow> (ptr, 'x) copy_fn" where
  "copy_ptr rd wr into p h = (case p of
     None \<Rightarrow> Some (None, h)
   | Some a \<Rightarrow> do {
       v \<leftarrow> load rd h a;
       (v', h') \<leftarrow> into v (h @ [CZero]);
       Some (Some (length h), h'[length h := wr v']) })"

text \<open>\<^verbatim>\<open>for i := range *in { <copy (*in)[i] into (*out)[i]> }\<close>\<close>

fun copy_list :: "('v, 'x) copy_fn \<Rightarrow> ('v list, 'x) copy_fn" where
  "copy_list into [] h = Some ([], h)"
| "copy_list into (v # vs) h = do {
     (v', h') \<leftarrow> into v h;
     (vs', h'') \<leftarrow> copy_list into vs h';
     Some (v' # vs', h'') }"

text \<open>\<^verbatim>\<open>for key, val := range *in { (*out)[key] = <copy of val> }\<close>\<close>

fun copy_entries ::
    "('v, 'x) copy_fn \<Rightarrow> 'v gomap \<Rightarrow> 'v gomap \<Rightarrow> 'x mem \<Rightarrow> ('v gomap \<times> 'x mem) option" where
  "copy_entries into out [] h = Some (out, h)"
| "copy_entries into out ((k, v) # m) h = do {
     (v', h') \<leftarrow> into v h;
     copy_entries into (AList.update k v' out) m h' }"

section \<open>The copy functions of the libraries\<close>

text \<open>The copy functions of \<^verbatim>\<open>metav1\<close>, \<^verbatim>\<open>corev1\<close> and \<^verbatim>\<open>resource\<close> that the generated code calls,
  and for each library type what its struct means in a memory.\<close>

record object_meta =
  om_name :: string
  om_labels :: strmap
  om_annotations :: strmap
  om_generation :: int
  om_resourceVersion :: string

record 'x library =
  Time_DeepCopy :: "(ptr, 'x) copy_fn"
  Quantity_DeepCopy :: "('x, 'x) copy_fn"
  Condition_DeepCopyInto :: "('x, 'x) copy_fn"
  Taint_DeepCopyInto :: "('x, 'x) copy_fn"
  LabelSelector_DeepCopyInto :: "('x, 'x) copy_fn"
  ObjectMeta_DeepCopyInto :: "('x, 'x) copy_fn"
  ListMeta_DeepCopyInto :: "('x, 'x) copy_fn"
  time_of :: "'x mem \<Rightarrow> ptr \<Rightarrow> time option option"
  quantity_of :: "'x mem \<Rightarrow> 'x \<Rightarrow> quantity option"
  condition_of :: "'x mem \<Rightarrow> 'x \<Rightarrow> condition option"
  taint_of :: "'x mem \<Rightarrow> 'x \<Rightarrow> taint option"
  selector_of :: "'x mem \<Rightarrow> 'x \<Rightarrow> label_selector option"
  objectMeta_of :: "'x mem \<Rightarrow> 'x \<Rightarrow> object_meta option"
  listMeta_of :: "'x mem \<Rightarrow> 'x \<Rightarrow> string option"

section \<open>The contract of a copy\<close>

text \<open>\<open>agree n h h'\<close>: the memory \<open>h'\<close> still has what \<open>h\<close> has from address \<open>n\<close> on. With \<open>n = 0\<close> nothing was
  overwritten; with \<open>n\<close> the size of an earlier memory, anything may have happened to what that memory had.\<close>

definition agree :: "nat \<Rightarrow> 'x mem \<Rightarrow> 'x mem \<Rightarrow> bool" where
  "agree n h h' \<longleftrightarrow> length h \<le> length h' \<and> (\<forall>i. n \<le> i \<and> i < length h \<longrightarrow> h' ! i = h ! i)"

lemma agree_refl [simp, intro]: "agree n h h"
  by (simp add: agree_def)

lemma agree_trans: "agree n h h' \<Longrightarrow> agree n h' h'' \<Longrightarrow> agree n h h''"
  by (auto simp: agree_def)

lemma agree_mono: "agree n h h' \<Longrightarrow> n \<le> m \<Longrightarrow> agree m h h'"
  by (simp add: agree_def)

lemma agree_all: "agree 0 h h' \<Longrightarrow> agree n h h'"
  by (simp add: agree_def)

lemma agree_length: "agree n h h' \<Longrightarrow> length h \<le> length h'"
  by (simp add: agree_def)

lemma agree_alloc: "agree n h (h @ cs)"
  by (simp add: agree_def nth_append)

lemma agree_write: "a < n \<Longrightarrow> agree n h (h[a := c])"
  by (simp add: agree_def)

lemma agree_write_new: "agree 0 h h' \<Longrightarrow> length h \<le> a \<Longrightarrow> agree 0 h (h'[a := c])"
  by (simp add: agree_def)

lemma agree_load: "agree 0 h h' \<Longrightarrow> load rd h a = Some v \<Longrightarrow> load rd h' a = Some v"
  by (auto simp: agree_def load_def split: if_splits)

text \<open>The contract of a copy function, against what a struct means in a memory: what is not overwritten keeps its
  meaning; a struct that means something is copied, nothing is overwritten, and the copy means the same as long as the
  cells allocated by it stay, whatever becomes of the others.\<close>

locale copier =
  fixes copy :: "('v, 'x) copy_fn" and val :: "'x mem \<Rightarrow> 'v \<Rightarrow> 'a option"
  assumes keeps: "val h v = Some x \<Longrightarrow> agree 0 h h' \<Longrightarrow> val h' v = Some x"
    and copies: "val h v = Some x \<Longrightarrow> \<exists>v' h'. copy v h = Some (v', h') \<and> agree 0 h h' \<and>
      (\<forall>h2. agree (length h) h' h2 \<longrightarrow> val h2 v' = Some x)"
begin

lemma copied:
  assumes "val h v = Some x"
  obtains v' h' where "copy v h = Some (v', h')" and "agree 0 h h'"
    and "\<And>h2. agree (length h) h' h2 \<Longrightarrow> val h2 v' = Some x"
  using copies [OF assms] by blast

text \<open>Writes to the old cells are not seen by the copy, writes to the new ones not by the original.\<close>

lemma independent:
  assumes "val h v = Some x" and "copy v h = Some (v', h')"
  shows "val h' v' = Some x"
    and "agree (length h) h' h2 \<Longrightarrow> val h2 v' = Some x"
    and "agree 0 h h2 \<Longrightarrow> val h2 v = Some x"
  using copies [OF assms(1)] assms(2) keeps [OF assms(1)] by auto

end

section \<open>Copies made of copies\<close>

lemma assign_copier: "copier assign (\<lambda>h. f)"
  by unfold_locales (auto simp: assign_def)

text \<open>What a pointer, a list and the entries of a map mean, given what their contents mean. The entries of a Go map
  have distinct keys.\<close>

definition val_ptr :: "('x cell \<Rightarrow> 'v option) \<Rightarrow> ('x mem \<Rightarrow> 'v \<Rightarrow> 'a option) \<Rightarrow> 'x mem \<Rightarrow> ptr \<Rightarrow> 'a option option"
  where "val_ptr rd val h p = (case p of
     None \<Rightarrow> Some None
   | Some a \<Rightarrow> do { v \<leftarrow> load rd h a; x \<leftarrow> val h v; Some (Some x) })"

fun val_list :: "('x mem \<Rightarrow> 'v \<Rightarrow> 'a option) \<Rightarrow> 'x mem \<Rightarrow> 'v list \<Rightarrow> 'a list option" where
  "val_list val h [] = Some []"
| "val_list val h (v # vs) = do { x \<leftarrow> val h v; xs \<leftarrow> val_list val h vs; Some (x # xs) }"

definition val_entry :: "('x mem \<Rightarrow> 'v \<Rightarrow> 'a option) \<Rightarrow> 'x mem \<Rightarrow> string \<times> 'v \<Rightarrow> (string \<times> 'a) option" where
  "val_entry val h e = do { x \<leftarrow> val h (snd e); Some (fst e, x) }"

definition val_map :: "('x mem \<Rightarrow> 'v \<Rightarrow> 'a option) \<Rightarrow> 'x mem \<Rightarrow> 'v gomap \<Rightarrow> 'a gomap option" where
  "val_map val h m = (if distinct_keys m then val_list (val_entry val) h m else None)"

lemma ptr_copier:
  assumes into: "copier into val" and box: "\<And>v. rd (wr v) = Some v"
  shows "copier (copy_ptr rd wr into) (val_ptr rd val)"
proof
  fix h p x h'
  assume "val_ptr rd val h p = Some x" and "agree 0 h h'"
  then show "val_ptr rd val h' p = Some x"
    by (auto simp: val_ptr_def bind_eq_Some_conv split: option.splits
      dest: agree_load copier.keeps [OF into])
next
  fix h p x
  assume val: "val_ptr rd val h p = Some x"
  show "\<exists>p' h'. copy_ptr rd wr into p h = Some (p', h') \<and> agree 0 h h' \<and>
    (\<forall>h2. agree (length h) h' h2 \<longrightarrow> val_ptr rd val h2 p' = Some x)"
  proof (cases p)
    case None
    with val show ?thesis by (simp add: copy_ptr_def val_ptr_def)
  next
    case (Some a)
    with val obtain v y where v: "load rd h a = Some v" "val h v = Some y" and x: "x = Some y"
      by (auto simp: val_ptr_def bind_eq_Some_conv)
    have "val (h @ [CZero]) v = Some y"
      by (rule copier.keeps [OF into v(2) agree_alloc])
    from copier.copied [OF into this] obtain v' h' where
      run: "into v (h @ [CZero]) = Some (v', h')" and ext: "agree 0 (h @ [CZero]) h'"
      and new: "\<And>h2. agree (length (h @ [CZero])) h' h2 \<Longrightarrow> val h2 v' = Some y"
      by blast
    let ?w = "h'[length h := wr v']"
    have old: "agree 0 h ?w"
      by (rule agree_write_new [OF agree_trans [OF agree_alloc ext]]) simp
    have "val_ptr rd val h2 (Some (length h)) = Some x" if "agree (length h) ?w h2" for h2
    proof -
      have "length h < length h'" using agree_length [OF ext] by simp
      with that have "load rd h2 (length h) = Some v'"
        by (auto simp: load_def agree_def box)
      moreover have "agree (length (h @ [CZero])) h' h2"
        using that by (auto simp: agree_def nth_list_update)
      ultimately show ?thesis by (simp add: val_ptr_def new x)
    qed
    with Some v(1) run old show ?thesis by (simp add: copy_ptr_def)
  qed
qed

text \<open>Two copies one after the other copy the pair.\<close>

definition copy_pair :: "('v, 'x) copy_fn \<Rightarrow> ('w, 'x) copy_fn \<Rightarrow> ('v \<times> 'w, 'x) copy_fn" where
  "copy_pair c d vw h = do { (v, h) \<leftarrow> c (fst vw) h; (w, h) \<leftarrow> d (snd vw) h; Some ((v, w), h) }"

definition val_pair ::
    "('x mem \<Rightarrow> 'v \<Rightarrow> 'a option) \<Rightarrow> ('x mem \<Rightarrow> 'w \<Rightarrow> 'b option) \<Rightarrow> 'x mem \<Rightarrow> 'v \<times> 'w \<Rightarrow> ('a \<times> 'b) option" where
  "val_pair val wal h vw = do { x \<leftarrow> val h (fst vw); y \<leftarrow> wal h (snd vw); Some (x, y) }"

lemma pair_copier:
  assumes c: "copier c val" and d: "copier d wal"
  shows "copier (copy_pair c d) (val_pair val wal)"
proof
  fix h vw x h'
  assume "val_pair val wal h vw = Some x" and "agree 0 h h'"
  then show "val_pair val wal h' vw = Some x"
    by (auto simp: val_pair_def bind_eq_Some_conv dest: copier.keeps [OF c] copier.keeps [OF d])
next
  fix h vw x
  assume "val_pair val wal h vw = Some x"
  then obtain a b where a: "val h (fst vw) = Some a" and b: "wal h (snd vw) = Some b" and x: "x = (a, b)"
    by (auto simp: val_pair_def bind_eq_Some_conv)
  from copier.copied [OF c a] obtain v h1 where c1: "c (fst vw) h = Some (v, h1)" and e1: "agree 0 h h1"
    and n1: "\<And>h2. agree (length h) h1 h2 \<Longrightarrow> val h2 v = Some a"
    by blast
  from copier.copied [OF d copier.keeps [OF d b e1]] obtain w h2 where d2: "d (snd vw) h1 = Some (w, h2)"
    and e2: "agree 0 h1 h2" and n2: "\<And>h3. agree (length h1) h2 h3 \<Longrightarrow> wal h3 w = Some b"
    by blast
  have "val_pair val wal h3 (v, w) = Some x" if "agree (length h) h2 h3" for h3
    using n1 [OF agree_trans [OF agree_all [OF e2] that]] n2 [OF agree_mono [OF that agree_length [OF e1]]]
    by (simp add: val_pair_def x)
  with c1 d2 agree_trans [OF e1 e2] show "\<exists>vw' h'. copy_pair c d vw h = Some (vw', h') \<and> agree 0 h h' \<and>
      (\<forall>h3. agree (length h) h' h3 \<longrightarrow> val_pair val wal h3 vw' = Some x)"
    by (auto simp: copy_pair_def)
qed

text \<open>A struct is copied by copying the part \<open>get\<close> of it that is made of pointers; the rest, \<open>rest\<close>, is assigned.\<close>

lemma struct_copier:
  assumes c: "copier c val"
    and copy: "\<And>s h. copy s h = do { (t, h) \<leftarrow> c (get s) h; Some (put t s, h) }"
    and meaning: "\<And>h s. sval h s = do { x \<leftarrow> val h (get s); Some (build (rest s) x) }"
    and "\<And>t s. get (put t s) = t" and "\<And>t s. rest (put t s) = rest s"
  shows "copier copy sval"
proof
  fix h s x h'
  assume "sval h s = Some x" and "agree 0 h h'"
  then show "sval h' s = Some x"
    by (auto simp: meaning bind_eq_Some_conv dest: copier.keeps [OF c])
next
  fix h s x
  assume "sval h s = Some x"
  then obtain y where y: "val h (get s) = Some y" and x: "x = build (rest s) y"
    by (auto simp: meaning bind_eq_Some_conv)
  from copier.copied [OF c y] obtain t h1 where "c (get s) h = Some (t, h1)" and "agree 0 h h1"
    and "\<And>h2. agree (length h) h1 h2 \<Longrightarrow> val h2 t = Some y"
    by blast
  with x assms(4,5) show "\<exists>s' h'. copy s h = Some (s', h') \<and> agree 0 h h' \<and>
      (\<forall>h2. agree (length h) h' h2 \<longrightarrow> sval h2 s' = Some x)"
    by (auto simp: copy meaning)
qed

lemma list_copier:
  assumes c: "copier into val"
  shows "copier (copy_list into) (val_list val)"
proof
  fix h vs x h'
  assume "val_list val h vs = Some x" and "agree 0 h h'"
  then show "val_list val h' vs = Some x"
    by (induction vs arbitrary: x) (auto simp: bind_eq_Some_conv dest: copier.keeps [OF c])
next
  fix h vs x
  assume "val_list val h vs = Some x"
  then show "\<exists>vs' h'. copy_list into vs h = Some (vs', h') \<and> agree 0 h h' \<and>
      (\<forall>h2. agree (length h) h' h2 \<longrightarrow> val_list val h2 vs' = Some x)"
  proof (induction vs arbitrary: h x)
    case Nil
    then show ?case by simp
  next
    case (Cons v vs)
    then obtain a b where a: "val h v = Some a" and b: "val_list val h vs = Some b" and x: "x = a # b"
      by (auto simp: bind_eq_Some_conv)
    from copier.copied [OF c a] obtain v' h1 where c1: "into v h = Some (v', h1)" and e1: "agree 0 h h1"
      and n1: "\<And>h2. agree (length h) h1 h2 \<Longrightarrow> val h2 v' = Some a"
      by blast
    have "val_list val h1 vs = Some b"
      using b e1 by (induction vs arbitrary: b) (auto simp: bind_eq_Some_conv dest: copier.keeps [OF c])
    from Cons.IH [OF this] obtain vs' h2 where d2: "copy_list into vs h1 = Some (vs', h2)" and e2: "agree 0 h1 h2"
      and n2: "\<And>h3. agree (length h1) h2 h3 \<Longrightarrow> val_list val h3 vs' = Some b"
      by blast
    have "val_list val h3 (v' # vs') = Some x" if "agree (length h) h2 h3" for h3
      using n1 [OF agree_trans [OF agree_all [OF e2] that]] n2 [OF agree_mono [OF that agree_length [OF e1]]]
      by (simp add: x)
    with c1 d2 agree_trans [OF e1 e2] show ?case by auto
  qed
qed

text \<open>The loop over a map assigns to keys that are new, so that it copies the list of entries.\<close>

definition copy_entry :: "('v, 'x) copy_fn \<Rightarrow> (string \<times> 'v, 'x) copy_fn" where
  "copy_entry into e h = do { (v, h) \<leftarrow> into (snd e) h; Some ((fst e, v), h) }"

lemma entry_copier: "copier into val \<Longrightarrow> copier (copy_entry into) (val_entry val)"
  by (rule struct_copier [where get = snd and put = "\<lambda>v e. (fst e, v)" and rest = fst and build = Pair])
    (simp_all add: copy_entry_def val_entry_def)

lemma copy_entry_pair: "copy_entry into (k, v) h = do { (v, h) \<leftarrow> into v h; Some ((k, v), h) }"
  by (simp add: copy_entry_def)

lemma update_new: "k \<notin> fst ` set m \<Longrightarrow> AList.update k v m = m @ [(k, v)]"
  by (induction m) auto

lemma copy_entries_list:
  assumes "distinct_keys m" and "fst ` set m \<inter> fst ` set out = {}"
  shows "copy_entries into out m h = do { (m', h') \<leftarrow> copy_list (copy_entry into) m h; Some (out @ m', h') }"
  using assms
proof (induction into out m h rule: copy_entries.induct)
  case (2 into out k v m h)
  then have fresh: "AList.update k v' out = out @ [(k, v')]" for v'
    by (intro update_new) auto
  show ?case
  proof (cases "into v h")
    case (Some r)
    with 2 fresh show ?thesis
      by (cases r; cases "copy_list (copy_entry into) m (snd r)") (auto simp: copy_entry_pair distinct_keys_def)
  qed (simp add: copy_entry_pair)
qed simp

lemma val_entries_keys: "val_list (val_entry val) h m = Some x \<Longrightarrow> map fst x = map fst m"
  by (induction m arbitrary: x) (auto simp: val_entry_def bind_eq_Some_conv)

lemma map_copier:
  assumes "copier into val"
  shows "copier (copy_entries into []) (val_map val)"
proof
  note entries = list_copier [OF entry_copier [OF assms]]
  fix h m x
  { fix h'
    assume "val_map val h m = Some x" and "agree 0 h h'"
    then show "val_map val h' m = Some x"
      by (auto simp: val_map_def split: if_splits dest: copier.keeps [OF entries]) }
  assume "val_map val h m = Some x"
  then have d: "distinct_keys m" and x: "val_list (val_entry val) h m = Some x"
    by (auto simp: val_map_def split: if_splits)
  from copier.copied [OF entries x] obtain m' h1 where c1: "copy_list (copy_entry into) m h = Some (m', h1)"
    and e1: "agree 0 h h1" and n1: "\<And>h2. agree (length h) h1 h2 \<Longrightarrow> val_list (val_entry val) h2 m' = Some x"
    by blast
  have "distinct_keys m'"
    using d val_entries_keys [OF n1 [OF agree_refl]] val_entries_keys [OF x] by (simp add: distinct_keys_def)
  with d c1 e1 n1 show "\<exists>m' h'. copy_entries into [] m h = Some (m', h') \<and> agree 0 h h' \<and>
      (\<forall>h2. agree (length h) h' h2 \<longrightarrow> val_map val h2 m' = Some x)"
    by (simp add: copy_entries_list val_map_def)
qed

end
