(* ===== verification/Deep_Copy.thy ===== *)
theory Deep_Copy
  imports Go_Memory
begin

text \<open>
  \<^verbatim>\<open>api/v1alpha1/zz_generated.deepcopy.go\<close>: a \<open>DeepCopyInto\<close> and a \<open>DeepCopy\<close> for each struct of the API, a
  \<open>DeepCopyObject\<close> for the four that are API objects; then what each struct means, which is a value of \<open>Api_Types\<close>,
  and that every copy keeps the contract \<open>copier\<close>.
\<close>

section \<open>Fields\<close>

definition copy_duration :: "(ptr, 'x) copy_fn" where
  "copy_duration = copy_ptr as_duration CDuration assign"

definition copy_int32 :: "(ptr, 'x) copy_fn" where
  "copy_int32 = copy_ptr as_int32 CInt32 assign"

definition copy_strings :: "(ptr, 'x) copy_fn" where
  "copy_strings = copy_ptr as_strings CStrings (copy_entries assign [])"

definition copy_time :: "'x library \<Rightarrow> (ptr, 'x) copy_fn" where
  "copy_time L p h = (if p = None then Some (None, h) else Time_DeepCopy L p h)"

definition copy_conditions :: "'x library \<Rightarrow> (ptr, 'x) copy_fn" where
  "copy_conditions L = copy_ptr as_libs CLibs (copy_list (Condition_DeepCopyInto L))"

section \<open>The generated functions\<close>

definition CooldownSpec_DeepCopyInto :: "(cooldown_m, 'x) copy_fn" where
  "CooldownSpec_DeepCopyInto src h = do {
     let out = src;
     (p, h) \<leftarrow> copy_duration (cm_scaleUp src) h;
     let out = out\<lparr>cm_scaleUp := p\<rparr>;
     (p, h) \<leftarrow> copy_duration (cm_scaleDown src) h;
     let out = out\<lparr>cm_scaleDown := p\<rparr>;
     Some (out, h) }"

definition CooldownSpec_DeepCopy :: "(ptr, 'x) copy_fn" where
  "CooldownSpec_DeepCopy = copy_ptr as_cooldown CCooldownSpec CooldownSpec_DeepCopyInto"

definition DisruptionSpec_DeepCopyInto :: "(disruption_m, 'x) copy_fn" where
  "DisruptionSpec_DeepCopyInto src h = do {
     let out = src;
     (p, h) \<leftarrow> copy_duration (dm_consolidateAfter src) h;
     let out = out\<lparr>dm_consolidateAfter := p\<rparr>;
     (p, h) \<leftarrow> copy_int32 (dm_maxConcurrent src) h;
     let out = out\<lparr>dm_maxConcurrent := p\<rparr>;
     Some (out, h) }"

definition DisruptionSpec_DeepCopy :: "(ptr, 'x) copy_fn" where
  "DisruptionSpec_DeepCopy = copy_ptr as_disruption CDisruptionSpec DisruptionSpec_DeepCopyInto"

definition DrainSpec_DeepCopyInto :: "(drain_m, 'x) copy_fn" where
  "DrainSpec_DeepCopyInto src h = do {
     let out = src;
     (p, h) \<leftarrow> copy_int32 (rm_timeoutSeconds src) h;
     let out = out\<lparr>rm_timeoutSeconds := p\<rparr>;
     Some (out, h) }"

definition DrainSpec_DeepCopy :: "(ptr, 'x) copy_fn" where
  "DrainSpec_DeepCopy = copy_ptr as_drain CDrainSpec DrainSpec_DeepCopyInto"

definition WoLConfig_DeepCopyInto :: "(wol_config, 'x) copy_fn" where
  "WoLConfig_DeepCopyInto src h = Some (src, h)"

definition WoLConfig_DeepCopy :: "(ptr, 'x) copy_fn" where
  "WoLConfig_DeepCopy = copy_ptr as_wol CWoLConfig WoLConfig_DeepCopyInto"

definition ShutdownSpec_DeepCopyInto :: "(shutdown_spec, 'x) copy_fn" where
  "ShutdownSpec_DeepCopyInto src h = Some (src, h)"

definition ShutdownSpec_DeepCopy :: "(ptr, 'x) copy_fn" where
  "ShutdownSpec_DeepCopy = copy_ptr as_shutdown CShutdownSpec ShutdownSpec_DeepCopyInto"

definition PowerSpec_DeepCopyInto :: "(power_m, 'x) copy_fn" where
  "PowerSpec_DeepCopyInto src h = do {
     let out = src;
     (p, h) \<leftarrow> copy_ptr as_wol CWoLConfig assign (pm_wol src) h;
     let out = out\<lparr>pm_wol := p\<rparr>;
     Some (out, h) }"

definition PowerSpec_DeepCopy :: "(ptr, 'x) copy_fn" where
  "PowerSpec_DeepCopy = copy_ptr as_power CPowerSpec PowerSpec_DeepCopyInto"

definition MachineSpec_DeepCopyInto :: "'x library \<Rightarrow> (machine_spec_m, 'x) copy_fn" where
  "MachineSpec_DeepCopyInto L src h = do {
     let out = src;
     (p, h) \<leftarrow> copy_ptr as_resources CResources (copy_entries (Quantity_DeepCopy L) []) (sm_capacity src) h;
     let out = out\<lparr>sm_capacity := p\<rparr>;
     (p, h) \<leftarrow> copy_strings (sm_labels src) h;
     let out = out\<lparr>sm_labels := p\<rparr>;
     (v, h) \<leftarrow> PowerSpec_DeepCopyInto (sm_power src) h;
     let out = out\<lparr>sm_power := v\<rparr>;
     (p, h) \<leftarrow> copy_ptr as_shutdown CShutdownSpec assign (sm_shutdown src) h;
     let out = out\<lparr>sm_shutdown := p\<rparr>;
     Some (out, h) }"

definition MachineSpec_DeepCopy :: "'x library \<Rightarrow> (ptr, 'x) copy_fn" where
  "MachineSpec_DeepCopy L = copy_ptr as_machine_spec CMachineSpec (MachineSpec_DeepCopyInto L)"

definition MachineStatus_DeepCopyInto :: "'x library \<Rightarrow> (machine_status_m, 'x) copy_fn" where
  "MachineStatus_DeepCopyInto L src h = do {
     let out = src;
     (p, h) \<leftarrow> copy_time L (tm_bootStartTime src) h;
     let out = out\<lparr>tm_bootStartTime := p\<rparr>;
     (p, h) \<leftarrow> copy_time L (tm_drainStartTime src) h;
     let out = out\<lparr>tm_drainStartTime := p\<rparr>;
     (p, h) \<leftarrow> copy_time L (tm_emptySince src) h;
     let out = out\<lparr>tm_emptySince := p\<rparr>;
     (p, h) \<leftarrow> copy_time L (tm_shutdownStartTime src) h;
     let out = out\<lparr>tm_shutdownStartTime := p\<rparr>;
     (p, h) \<leftarrow> copy_time L (tm_notReadySince src) h;
     let out = out\<lparr>tm_notReadySince := p\<rparr>;
     (p, h) \<leftarrow> copy_conditions L (tm_conditions src) h;
     let out = out\<lparr>tm_conditions := p\<rparr>;
     Some (out, h) }"

definition MachineStatus_DeepCopy :: "'x library \<Rightarrow> (ptr, 'x) copy_fn" where
  "MachineStatus_DeepCopy L = copy_ptr as_machine_status CMachineStatus (MachineStatus_DeepCopyInto L)"

definition Machine_DeepCopyInto :: "'x library \<Rightarrow> ('x machine_m, 'x) copy_fn" where
  "Machine_DeepCopyInto L src h = do {
     let out = src;
     let out = out\<lparr>mm_typeMeta := mm_typeMeta src\<rparr>;
     (v, h) \<leftarrow> ObjectMeta_DeepCopyInto L (mm_objectMeta src) h;
     let out = out\<lparr>mm_objectMeta := v\<rparr>;
     (v, h) \<leftarrow> MachineSpec_DeepCopyInto L (mm_spec src) h;
     let out = out\<lparr>mm_spec := v\<rparr>;
     (v, h) \<leftarrow> MachineStatus_DeepCopyInto L (mm_status src) h;
     let out = out\<lparr>mm_status := v\<rparr>;
     Some (out, h) }"

definition Machine_DeepCopy :: "'x library \<Rightarrow> (ptr, 'x) copy_fn" where
  "Machine_DeepCopy L = copy_ptr as_machine CMachine (Machine_DeepCopyInto L)"

definition MachineList_DeepCopyInto :: "'x library \<Rightarrow> ('x machine_list_m, 'x) copy_fn" where
  "MachineList_DeepCopyInto L src h = do {
     let out = src;
     let out = out\<lparr>ml_typeMeta := ml_typeMeta src\<rparr>;
     (v, h) \<leftarrow> ListMeta_DeepCopyInto L (ml_listMeta src) h;
     let out = out\<lparr>ml_listMeta := v\<rparr>;
     (p, h) \<leftarrow> copy_ptr as_machines CMachines (copy_list (Machine_DeepCopyInto L)) (ml_items src) h;
     let out = out\<lparr>ml_items := p\<rparr>;
     Some (out, h) }"

definition MachineList_DeepCopy :: "'x library \<Rightarrow> (ptr, 'x) copy_fn" where
  "MachineList_DeepCopy L = copy_ptr as_machine_list CMachineList (MachineList_DeepCopyInto L)"

definition NodePoolTemplate_DeepCopyInto :: "'x library \<Rightarrow> (template_m, 'x) copy_fn" where
  "NodePoolTemplate_DeepCopyInto L src h = do {
     let out = src;
     (p, h) \<leftarrow> copy_strings (lm_labels src) h;
     let out = out\<lparr>lm_labels := p\<rparr>;
     (p, h) \<leftarrow> copy_ptr as_libs CLibs (copy_list (Taint_DeepCopyInto L)) (lm_taints src) h;
     let out = out\<lparr>lm_taints := p\<rparr>;
     Some (out, h) }"

definition NodePoolTemplate_DeepCopy :: "'x library \<Rightarrow> (ptr, 'x) copy_fn" where
  "NodePoolTemplate_DeepCopy L = copy_ptr as_template CNodePoolTemplate (NodePoolTemplate_DeepCopyInto L)"

definition NodePoolSpec_DeepCopyInto :: "'x library \<Rightarrow> ('x pool_spec_m, 'x) copy_fn" where
  "NodePoolSpec_DeepCopyInto L src h = do {
     let out = src;
     (p, h) \<leftarrow> copy_int32 (om_maxNodes src) h;
     let out = out\<lparr>om_maxNodes := p\<rparr>;
     (v, h) \<leftarrow> LabelSelector_DeepCopyInto L (om_machineSelector src) h;
     let out = out\<lparr>om_machineSelector := v\<rparr>;
     (v, h) \<leftarrow> NodePoolTemplate_DeepCopyInto L (om_template src) h;
     let out = out\<lparr>om_template := v\<rparr>;
     (v, h) \<leftarrow> DisruptionSpec_DeepCopyInto (om_disruption src) h;
     let out = out\<lparr>om_disruption := v\<rparr>;
     (v, h) \<leftarrow> CooldownSpec_DeepCopyInto (om_cooldown src) h;
     let out = out\<lparr>om_cooldown := v\<rparr>;
     (v, h) \<leftarrow> DrainSpec_DeepCopyInto (om_drain src) h;
     let out = out\<lparr>om_drain := v\<rparr>;
     Some (out, h) }"

definition NodePoolSpec_DeepCopy :: "'x library \<Rightarrow> (ptr, 'x) copy_fn" where
  "NodePoolSpec_DeepCopy L = copy_ptr as_pool_spec CNodePoolSpec (NodePoolSpec_DeepCopyInto L)"

definition NodePoolStatus_DeepCopyInto :: "'x library \<Rightarrow> (pool_status_m, 'x) copy_fn" where
  "NodePoolStatus_DeepCopyInto L src h = do {
     let out = src;
     (p, h) \<leftarrow> copy_time L (um_lastScaleUpTime src) h;
     let out = out\<lparr>um_lastScaleUpTime := p\<rparr>;
     (p, h) \<leftarrow> copy_time L (um_lastScaleDownTime src) h;
     let out = out\<lparr>um_lastScaleDownTime := p\<rparr>;
     (p, h) \<leftarrow> copy_conditions L (um_conditions src) h;
     let out = out\<lparr>um_conditions := p\<rparr>;
     Some (out, h) }"

definition NodePoolStatus_DeepCopy :: "'x library \<Rightarrow> (ptr, 'x) copy_fn" where
  "NodePoolStatus_DeepCopy L = copy_ptr as_pool_status CNodePoolStatus (NodePoolStatus_DeepCopyInto L)"

definition NodePool_DeepCopyInto :: "'x library \<Rightarrow> ('x pool_m, 'x) copy_fn" where
  "NodePool_DeepCopyInto L src h = do {
     let out = src;
     let out = out\<lparr>nm_typeMeta := nm_typeMeta src\<rparr>;
     (v, h) \<leftarrow> ObjectMeta_DeepCopyInto L (nm_objectMeta src) h;
     let out = out\<lparr>nm_objectMeta := v\<rparr>;
     (v, h) \<leftarrow> NodePoolSpec_DeepCopyInto L (nm_spec src) h;
     let out = out\<lparr>nm_spec := v\<rparr>;
     (v, h) \<leftarrow> NodePoolStatus_DeepCopyInto L (nm_status src) h;
     let out = out\<lparr>nm_status := v\<rparr>;
     Some (out, h) }"

definition NodePool_DeepCopy :: "'x library \<Rightarrow> (ptr, 'x) copy_fn" where
  "NodePool_DeepCopy L = copy_ptr as_pool CNodePool (NodePool_DeepCopyInto L)"

definition NodePoolList_DeepCopyInto :: "'x library \<Rightarrow> ('x pool_list_m, 'x) copy_fn" where
  "NodePoolList_DeepCopyInto L src h = do {
     let out = src;
     let out = out\<lparr>nl_typeMeta := nl_typeMeta src\<rparr>;
     (v, h) \<leftarrow> ListMeta_DeepCopyInto L (nl_listMeta src) h;
     let out = out\<lparr>nl_listMeta := v\<rparr>;
     (p, h) \<leftarrow> copy_ptr as_nodepools CNodePools (copy_list (NodePool_DeepCopyInto L)) (nl_items src) h;
     let out = out\<lparr>nl_items := p\<rparr>;
     Some (out, h) }"

definition NodePoolList_DeepCopy :: "'x library \<Rightarrow> (ptr, 'x) copy_fn" where
  "NodePoolList_DeepCopy L = copy_ptr as_pool_list CNodePoolList (NodePoolList_DeepCopyInto L)"

text \<open>A \<^verbatim>\<open>runtime.Object\<close> is an interface: nil, \<^term>\<open>None\<close>, or a pointer with its type. A nil pointer with a type
  is not a nil interface, which is why the generated code tests for it.\<close>

datatype runtime_object =
  MachineObject ptr | MachineListObject ptr | NodePoolObject ptr | NodePoolListObject ptr

definition Machine_DeepCopyObject :: "'x library \<Rightarrow> ptr \<Rightarrow> 'x mem \<Rightarrow> (runtime_object option \<times> 'x mem) option" where
  "Machine_DeepCopyObject L p h = do {
     (c, h) \<leftarrow> Machine_DeepCopy L p h;
     Some (if c \<noteq> None then Some (MachineObject c) else None, h) }"

definition MachineList_DeepCopyObject :: "'x library \<Rightarrow> ptr \<Rightarrow> 'x mem \<Rightarrow> (runtime_object option \<times> 'x mem) option"
  where "MachineList_DeepCopyObject L p h = do {
     (c, h) \<leftarrow> MachineList_DeepCopy L p h;
     Some (if c \<noteq> None then Some (MachineListObject c) else None, h) }"

definition NodePool_DeepCopyObject :: "'x library \<Rightarrow> ptr \<Rightarrow> 'x mem \<Rightarrow> (runtime_object option \<times> 'x mem) option" where
  "NodePool_DeepCopyObject L p h = do {
     (c, h) \<leftarrow> NodePool_DeepCopy L p h;
     Some (if c \<noteq> None then Some (NodePoolObject c) else None, h) }"

definition NodePoolList_DeepCopyObject :: "'x library \<Rightarrow> ptr \<Rightarrow> 'x mem \<Rightarrow> (runtime_object option \<times> 'x mem) option"
  where "NodePoolList_DeepCopyObject L p h = do {
     (c, h) \<leftarrow> NodePoolList_DeepCopy L p h;
     Some (if c \<noteq> None then Some (NodePoolListObject c) else None, h) }"

section \<open>What the structs mean\<close>

text \<open>A nil map or slice means what an empty one means.\<close>

definition or_empty :: "'a list option \<Rightarrow> 'a list" where
  "or_empty xs = (case xs of None \<Rightarrow> [] | Some ys \<Rightarrow> ys)"

definition itself :: "'x mem \<Rightarrow> 'v \<Rightarrow> 'v option" where
  "itself h v = Some v"

abbreviation val_duration :: "'x mem \<Rightarrow> ptr \<Rightarrow> duration option option" where
  "val_duration \<equiv> val_ptr as_duration itself"

abbreviation val_int32 :: "'x mem \<Rightarrow> ptr \<Rightarrow> int option option" where
  "val_int32 \<equiv> val_ptr as_int32 itself"

abbreviation val_strings :: "'x mem \<Rightarrow> ptr \<Rightarrow> strmap option option" where
  "val_strings \<equiv> val_ptr as_strings (val_map itself)"

abbreviation val_conditions :: "'x library \<Rightarrow> 'x mem \<Rightarrow> ptr \<Rightarrow> condition list option option" where
  "val_conditions L \<equiv> val_ptr as_libs (val_list (condition_of L))"

definition val_cooldown :: "'x mem \<Rightarrow> cooldown_m \<Rightarrow> cooldown_spec option" where
  "val_cooldown h s = do {
     a \<leftarrow> val_duration h (cm_scaleUp s);
     b \<leftarrow> val_duration h (cm_scaleDown s);
     Some \<lparr>cool_scaleUp = a, cool_scaleDown = b\<rparr> }"

definition val_disruption :: "'x mem \<Rightarrow> disruption_m \<Rightarrow> disruption_spec option" where
  "val_disruption h s = do {
     a \<leftarrow> val_duration h (dm_consolidateAfter s);
     b \<leftarrow> val_int32 h (dm_maxConcurrent s);
     Some \<lparr>dis_consolidationPolicy = dm_consolidationPolicy s, dis_consolidateAfter = a, dis_maxConcurrent = b\<rparr> }"

definition val_drain :: "'x mem \<Rightarrow> drain_m \<Rightarrow> drain_spec option" where
  "val_drain h s = do {
     a \<leftarrow> val_int32 h (rm_timeoutSeconds s);
     Some \<lparr>drain_timeoutSeconds = a, drain_force = rm_force s\<rparr> }"

definition val_power :: "'x mem \<Rightarrow> power_m \<Rightarrow> power_spec option" where
  "val_power h s = do {
     a \<leftarrow> val_ptr as_wol itself h (pm_wol s);
     Some \<lparr>power_provider = pm_provider s, power_wol = a\<rparr> }"

definition val_machine_spec :: "'x library \<Rightarrow> 'x mem \<Rightarrow> machine_spec_m \<Rightarrow> machine_spec option" where
  "val_machine_spec L h s = do {
     a \<leftarrow> val_ptr as_resources (val_map (quantity_of L)) h (sm_capacity s);
     b \<leftarrow> val_strings h (sm_labels s);
     c \<leftarrow> val_power h (sm_power s);
     d \<leftarrow> val_ptr as_shutdown itself h (sm_shutdown s);
     Some \<lparr>spec_nodeName = sm_nodeName s, spec_capacity = or_empty a, spec_labels = or_empty b,
       spec_power = c, spec_shutdown = d\<rparr> }"

definition val_machine_status :: "'x library \<Rightarrow> 'x mem \<Rightarrow> machine_status_m \<Rightarrow> machine_status option" where
  "val_machine_status L h s = do {
     a \<leftarrow> time_of L h (tm_bootStartTime s);
     b \<leftarrow> time_of L h (tm_drainStartTime s);
     c \<leftarrow> time_of L h (tm_emptySince s);
     d \<leftarrow> time_of L h (tm_shutdownStartTime s);
     e \<leftarrow> time_of L h (tm_notReadySince s);
     f \<leftarrow> val_conditions L h (tm_conditions s);
     Some \<lparr>st_state = tm_state s, st_bootStartTime = a, st_drainStartTime = b, st_emptySince = c,
       st_shutdownStartTime = d, st_notReadySince = e, st_conditions = or_empty f\<rparr> }"

definition val_machine :: "'x library \<Rightarrow> 'x mem \<Rightarrow> 'x machine_m \<Rightarrow> (type_meta \<times> machine) option" where
  "val_machine L h s = do {
     a \<leftarrow> objectMeta_of L h (mm_objectMeta s);
     b \<leftarrow> val_machine_spec L h (mm_spec s);
     c \<leftarrow> val_machine_status L h (mm_status s);
     Some (mm_typeMeta s, \<lparr>m_name = om_name a, m_labels = om_labels a, m_annotations = om_annotations a,
       m_generation = om_generation a, m_resourceVersion = om_resourceVersion a, m_spec = b, m_status = c\<rparr>) }"

definition val_machine_list ::
    "'x library \<Rightarrow> 'x mem \<Rightarrow> 'x machine_list_m \<Rightarrow> (type_meta \<times> string \<times> (type_meta \<times> machine) list) option" where
  "val_machine_list L h s = do {
     a \<leftarrow> listMeta_of L h (ml_listMeta s);
     b \<leftarrow> val_ptr as_machines (val_list (val_machine L)) h (ml_items s);
     Some (ml_typeMeta s, a, or_empty b) }"

definition val_template :: "'x library \<Rightarrow> 'x mem \<Rightarrow> template_m \<Rightarrow> pool_template option" where
  "val_template L h s = do {
     a \<leftarrow> val_strings h (lm_labels s);
     b \<leftarrow> val_ptr as_libs (val_list (taint_of L)) h (lm_taints s);
     Some \<lparr>tmpl_labels = or_empty a, tmpl_taints = or_empty b\<rparr> }"

definition val_pool_spec :: "'x library \<Rightarrow> 'x mem \<Rightarrow> 'x pool_spec_m \<Rightarrow> pool_spec option" where
  "val_pool_spec L h s = do {
     a \<leftarrow> val_int32 h (om_maxNodes s);
     b \<leftarrow> selector_of L h (om_machineSelector s);
     c \<leftarrow> val_template L h (om_template s);
     d \<leftarrow> val_disruption h (om_disruption s);
     e \<leftarrow> val_cooldown h (om_cooldown s);
     f \<leftarrow> val_drain h (om_drain s);
     Some \<lparr>ps_minNodes = om_minNodes s, ps_maxNodes = a, ps_machineSelector = b, ps_template = c,
       ps_disruption = d, ps_cooldown = e, ps_drain = f\<rparr> }"

definition val_pool_status :: "'x library \<Rightarrow> 'x mem \<Rightarrow> pool_status_m \<Rightarrow> pool_status option" where
  "val_pool_status L h s = do {
     a \<leftarrow> time_of L h (um_lastScaleUpTime s);
     b \<leftarrow> time_of L h (um_lastScaleDownTime s);
     c \<leftarrow> val_conditions L h (um_conditions s);
     Some \<lparr>pst_totalMachines = um_totalMachines s, pst_readyMachines = um_readyMachines s,
       pst_lastScaleUpTime = a, pst_lastScaleDownTime = b, pst_conditions = or_empty c\<rparr> }"

definition val_pool :: "'x library \<Rightarrow> 'x mem \<Rightarrow> 'x pool_m \<Rightarrow> (type_meta \<times> nodepool) option" where
  "val_pool L h s = do {
     a \<leftarrow> objectMeta_of L h (nm_objectMeta s);
     b \<leftarrow> val_pool_spec L h (nm_spec s);
     c \<leftarrow> val_pool_status L h (nm_status s);
     Some (nm_typeMeta s, \<lparr>pool_name = om_name a, pool_generation = om_generation a,
       pool_resourceVersion = om_resourceVersion a, pool_spec = b, pool_status = c\<rparr>) }"

definition val_pool_list ::
    "'x library \<Rightarrow> 'x mem \<Rightarrow> 'x pool_list_m \<Rightarrow> (type_meta \<times> string \<times> (type_meta \<times> nodepool) list) option" where
  "val_pool_list L h s = do {
     a \<leftarrow> listMeta_of L h (nl_listMeta s);
     b \<leftarrow> val_ptr as_nodepools (val_list (val_pool L)) h (nl_items s);
     Some (nl_typeMeta s, a, or_empty b) }"

section \<open>Every generated copy keeps the contract\<close>

text \<open>What the generated code relies on: the copy functions of the libraries are deep copies, and a nil
  \<^verbatim>\<open>*metav1.Time\<close> stands for no time.\<close>

definition library_copies :: "'x library \<Rightarrow> bool" where
  "library_copies L \<longleftrightarrow>
     copier (Time_DeepCopy L) (time_of L) \<and> (\<forall>h. time_of L h None = Some None) \<and>
     copier (Quantity_DeepCopy L) (quantity_of L) \<and> copier (Condition_DeepCopyInto L) (condition_of L) \<and>
     copier (Taint_DeepCopyInto L) (taint_of L) \<and> copier (LabelSelector_DeepCopyInto L) (selector_of L) \<and>
     copier (ObjectMeta_DeepCopyInto L) (objectMeta_of L) \<and> copier (ListMeta_DeepCopyInto L) (listMeta_of L)"

named_theorems copiers \<open>the contract of the copies that call no library\<close>

lemma assign_itself [copiers]: "copier assign itself"
  using assign_copier [of Some] by (simp add: itself_def [abs_def])

lemma boxes [simp]:
  "as_duration (CDuration d) = Some d" "as_int32 (CInt32 n) = Some n" "as_strings (CStrings m) = Some m"
  "as_resources (CResources r) = Some r" "as_libs (CLibs xs) = Some xs" "as_machines (CMachines ms) = Some ms"
  "as_nodepools (CNodePools ps) = Some ps" "as_cooldown (CCooldownSpec cs) = Some cs"
  "as_disruption (CDisruptionSpec ds) = Some ds" "as_drain (CDrainSpec rs) = Some rs"
  "as_machine (CMachine mm) = Some mm" "as_machine_list (CMachineList ml) = Some ml"
  "as_machine_spec (CMachineSpec ss) = Some ss" "as_machine_status (CMachineStatus ts) = Some ts"
  "as_pool (CNodePool np) = Some np" "as_pool_list (CNodePoolList nl) = Some nl"
  "as_pool_spec (CNodePoolSpec os) = Some os" "as_pool_status (CNodePoolStatus us) = Some us"
  "as_template (CNodePoolTemplate ts') = Some ts'" "as_power (CPowerSpec ps') = Some ps'"
  "as_shutdown (CShutdownSpec sd) = Some sd" "as_wol (CWoLConfig wc) = Some wc"
  by (simp_all add: cell_defs)

lemma field_copiers [copiers]:
  "copier copy_duration val_duration" "copier copy_int32 val_int32" "copier copy_strings val_strings"
  "copier (copy_ptr as_wol CWoLConfig assign) (val_ptr as_wol itself)"
  "copier (copy_ptr as_shutdown CShutdownSpec assign) (val_ptr as_shutdown itself)"
  unfolding copy_duration_def copy_int32_def copy_strings_def
  by (auto intro!: ptr_copier map_copier copiers)

lemma library_copiers:
  assumes "library_copies L"
  shows "copier (copy_time L) (time_of L)" "copier (copy_conditions L) (val_conditions L)"
    "copier (copy_ptr as_resources CResources (copy_entries (Quantity_DeepCopy L) []))
      (val_ptr as_resources (val_map (quantity_of L)))"
    "copier (copy_ptr as_libs CLibs (copy_list (Taint_DeepCopyInto L))) (val_ptr as_libs (val_list (taint_of L)))"
    "copier (LabelSelector_DeepCopyInto L) (selector_of L)"
    "copier (ObjectMeta_DeepCopyInto L) (objectMeta_of L)" "copier (ListMeta_DeepCopyInto L) (listMeta_of L)"
proof -
  show "copier (copy_time L) (time_of L)"
  proof
    fix h p x
    { fix h'
      assume "time_of L h p = Some x" "agree 0 h h'"
      with assms show "time_of L h' p = Some x" by (auto simp: library_copies_def dest: copier.keeps) }
    assume "time_of L h p = Some x"
    with assms show "\<exists>p' h'. copy_time L p h = Some (p', h') \<and> agree 0 h h' \<and>
        (\<forall>h2. agree (length h) h' h2 \<longrightarrow> time_of L h2 p' = Some x)"
      by (cases p) (auto simp: library_copies_def copy_time_def dest: copier.copies)
  qed
qed (use assms in \<open>auto simp: library_copies_def copy_conditions_def intro!: ptr_copier map_copier list_copier\<close>)

lemmas copy_simps = copy_pair_def val_pair_def bind_assoc split_def Let_def

lemma cooldown_copier [copiers]:
  "copier CooldownSpec_DeepCopyInto val_cooldown"
  by (rule struct_copier [where get = "\<lambda>s. (cm_scaleUp s, cm_scaleDown s)"
        and put = "\<lambda>(a, b) s. s\<lparr>cm_scaleUp := a, cm_scaleDown := b\<rparr>"
        and rest = "\<lambda>s. ()"
        and build = "\<lambda>_ (a, b). \<lparr>cool_scaleUp = a, cool_scaleDown = b\<rparr>",
        OF pair_copier [OF field_copiers(1) field_copiers(1)]])
    (auto simp: CooldownSpec_DeepCopyInto_def val_cooldown_def copy_simps)

lemma disruption_copier [copiers]:
  "copier DisruptionSpec_DeepCopyInto val_disruption"
  by (rule struct_copier [where get = "\<lambda>s. (dm_consolidateAfter s, dm_maxConcurrent s)"
        and put = "\<lambda>(a, b) s. s\<lparr>dm_consolidateAfter := a, dm_maxConcurrent := b\<rparr>"
        and rest = "dm_consolidationPolicy"
        and build = "\<lambda>r (a, b). \<lparr>dis_consolidationPolicy = r, dis_consolidateAfter = a, dis_maxConcurrent = b\<rparr>",
        OF pair_copier [OF field_copiers(1) field_copiers(2)]])
    (auto simp: DisruptionSpec_DeepCopyInto_def val_disruption_def copy_simps)

lemma drain_copier [copiers]:
  "copier DrainSpec_DeepCopyInto val_drain"
  by (rule struct_copier [where get = "rm_timeoutSeconds"
        and put = "\<lambda>a s. s\<lparr>rm_timeoutSeconds := a\<rparr>"
        and rest = "rm_force"
        and build = "\<lambda>r a. \<lparr>drain_timeoutSeconds = a, drain_force = r\<rparr>",
        OF field_copiers(2)])
    (auto simp: DrainSpec_DeepCopyInto_def val_drain_def copy_simps)

lemma plain_copiers [copiers]: "copier WoLConfig_DeepCopyInto itself" "copier ShutdownSpec_DeepCopyInto itself"
  using assign_itself by (simp_all add: WoLConfig_DeepCopyInto_def [abs_def] ShutdownSpec_DeepCopyInto_def [abs_def]
    assign_def [abs_def])

lemma power_copier [copiers]:
  "copier PowerSpec_DeepCopyInto val_power"
  by (rule struct_copier [where get = "pm_wol"
        and put = "\<lambda>a s. s\<lparr>pm_wol := a\<rparr>"
        and rest = "pm_provider"
        and build = "\<lambda>r a. \<lparr>power_provider = r, power_wol = a\<rparr>",
        OF field_copiers(4)])
    (auto simp: PowerSpec_DeepCopyInto_def val_power_def copy_simps)

lemma machine_spec_copier:
  assumes "library_copies L"
  shows "copier (MachineSpec_DeepCopyInto L) (val_machine_spec L)"
  by (rule struct_copier [where get = "\<lambda>s. (sm_capacity s, sm_labels s, sm_power s, sm_shutdown s)"
        and put = "\<lambda>(a, b, c, d) s. s\<lparr>sm_capacity := a, sm_labels := b, sm_power := c, sm_shutdown := d\<rparr>"
        and rest = "sm_nodeName"
        and build = "\<lambda>r (a, b, c, d). \<lparr>spec_nodeName = r, spec_capacity = or_empty a, spec_labels = or_empty b, spec_power = c, spec_shutdown = d\<rparr>",
        OF pair_copier [OF library_copiers(3) [OF assms] pair_copier [OF field_copiers(3) pair_copier [OF power_copier field_copiers(5)]]]])
    (auto simp: MachineSpec_DeepCopyInto_def val_machine_spec_def copy_simps)

lemma machine_status_copier:
  assumes "library_copies L"
  shows "copier (MachineStatus_DeepCopyInto L) (val_machine_status L)"
  by (rule struct_copier [where get = "\<lambda>s. (tm_bootStartTime s, tm_drainStartTime s, tm_emptySince s, tm_shutdownStartTime s, tm_notReadySince s, tm_conditions s)"
        and put = "\<lambda>(a, b, c, d, e, f) s. s\<lparr>tm_bootStartTime := a, tm_drainStartTime := b, tm_emptySince := c, tm_shutdownStartTime := d, tm_notReadySince := e, tm_conditions := f\<rparr>"
        and rest = "tm_state"
        and build = "\<lambda>r (a, b, c, d, e, f). \<lparr>st_state = r, st_bootStartTime = a, st_drainStartTime = b, st_emptySince = c, st_shutdownStartTime = d, st_notReadySince = e, st_conditions = or_empty f\<rparr>",
        OF pair_copier [OF library_copiers(1) [OF assms] pair_copier [OF library_copiers(1) [OF assms] pair_copier [OF library_copiers(1) [OF assms] pair_copier [OF library_copiers(1) [OF assms] pair_copier [OF library_copiers(1) [OF assms] library_copiers(2) [OF assms]]]]]]])
    (auto simp: MachineStatus_DeepCopyInto_def val_machine_status_def copy_simps)

lemma machine_copier:
  assumes "library_copies L"
  shows "copier (Machine_DeepCopyInto L) (val_machine L)"
  by (rule struct_copier [where get = "\<lambda>s. (mm_objectMeta s, mm_spec s, mm_status s)"
        and put = "\<lambda>(a, b, c) s. s\<lparr>mm_objectMeta := a, mm_spec := b, mm_status := c\<rparr>"
        and rest = "mm_typeMeta"
        and build = "\<lambda>r (a, b, c). (r, \<lparr>m_name = om_name a, m_labels = om_labels a, m_annotations = om_annotations a, m_generation = om_generation a, m_resourceVersion = om_resourceVersion a, m_spec = b, m_status = c\<rparr>)",
        OF pair_copier [OF library_copiers(6) [OF assms] pair_copier [OF machine_spec_copier [OF assms] machine_status_copier [OF assms]]]])
    (auto simp: Machine_DeepCopyInto_def val_machine_def copy_simps)

lemma machine_list_copier:
  assumes "library_copies L"
  shows "copier (MachineList_DeepCopyInto L) (val_machine_list L)"
  by (rule struct_copier [where get = "\<lambda>s. (ml_listMeta s, ml_items s)"
        and put = "\<lambda>(a, b) s. s\<lparr>ml_listMeta := a, ml_items := b\<rparr>"
        and rest = "ml_typeMeta"
        and build = "\<lambda>r (a, b). (r, a, or_empty b)",
        OF pair_copier [OF library_copiers(7) [OF assms] ptr_copier [OF list_copier [OF machine_copier [OF assms]] boxes(6)]]])
    (auto simp: MachineList_DeepCopyInto_def val_machine_list_def copy_simps)

lemma template_copier:
  assumes "library_copies L"
  shows "copier (NodePoolTemplate_DeepCopyInto L) (val_template L)"
  by (rule struct_copier [where get = "\<lambda>s. (lm_labels s, lm_taints s)"
        and put = "\<lambda>(a, b) s. s\<lparr>lm_labels := a, lm_taints := b\<rparr>"
        and rest = "\<lambda>s. ()"
        and build = "\<lambda>_ (a, b). \<lparr>tmpl_labels = or_empty a, tmpl_taints = or_empty b\<rparr>",
        OF pair_copier [OF field_copiers(3) library_copiers(4) [OF assms]]])
    (auto simp: NodePoolTemplate_DeepCopyInto_def val_template_def copy_simps)

lemma pool_spec_copier:
  assumes "library_copies L"
  shows "copier (NodePoolSpec_DeepCopyInto L) (val_pool_spec L)"
  by (rule struct_copier [where get = "\<lambda>s. (om_maxNodes s, om_machineSelector s, om_template s, om_disruption s, om_cooldown s, om_drain s)"
        and put = "\<lambda>(a, b, c, d, e, f) s. s\<lparr>om_maxNodes := a, om_machineSelector := b, om_template := c, om_disruption := d, om_cooldown := e, om_drain := f\<rparr>"
        and rest = "om_minNodes"
        and build = "\<lambda>r (a, b, c, d, e, f). \<lparr>ps_minNodes = r, ps_maxNodes = a, ps_machineSelector = b, ps_template = c, ps_disruption = d, ps_cooldown = e, ps_drain = f\<rparr>",
        OF pair_copier [OF field_copiers(2) pair_copier [OF library_copiers(5) [OF assms] pair_copier [OF template_copier [OF assms] pair_copier [OF disruption_copier pair_copier [OF cooldown_copier drain_copier]]]]]])
    (auto simp: NodePoolSpec_DeepCopyInto_def val_pool_spec_def copy_simps)

lemma pool_status_copier:
  assumes "library_copies L"
  shows "copier (NodePoolStatus_DeepCopyInto L) (val_pool_status L)"
  by (rule struct_copier [where get = "\<lambda>s. (um_lastScaleUpTime s, um_lastScaleDownTime s, um_conditions s)"
        and put = "\<lambda>(a, b, c) s. s\<lparr>um_lastScaleUpTime := a, um_lastScaleDownTime := b, um_conditions := c\<rparr>"
        and rest = "\<lambda>s. (um_totalMachines s, um_readyMachines s)"
        and build = "\<lambda>r (a, b, c). \<lparr>pst_totalMachines = fst r, pst_readyMachines = snd r, pst_lastScaleUpTime = a, pst_lastScaleDownTime = b, pst_conditions = or_empty c\<rparr>",
        OF pair_copier [OF library_copiers(1) [OF assms] pair_copier [OF library_copiers(1) [OF assms] library_copiers(2) [OF assms]]]])
    (auto simp: NodePoolStatus_DeepCopyInto_def val_pool_status_def copy_simps)

lemma pool_copier:
  assumes "library_copies L"
  shows "copier (NodePool_DeepCopyInto L) (val_pool L)"
  by (rule struct_copier [where get = "\<lambda>s. (nm_objectMeta s, nm_spec s, nm_status s)"
        and put = "\<lambda>(a, b, c) s. s\<lparr>nm_objectMeta := a, nm_spec := b, nm_status := c\<rparr>"
        and rest = "nm_typeMeta"
        and build = "\<lambda>r (a, b, c). (r, \<lparr>pool_name = om_name a, pool_generation = om_generation a, pool_resourceVersion = om_resourceVersion a, pool_spec = b, pool_status = c\<rparr>)",
        OF pair_copier [OF library_copiers(6) [OF assms] pair_copier [OF pool_spec_copier [OF assms] pool_status_copier [OF assms]]]])
    (auto simp: NodePool_DeepCopyInto_def val_pool_def copy_simps)

lemma pool_list_copier:
  assumes "library_copies L"
  shows "copier (NodePoolList_DeepCopyInto L) (val_pool_list L)"
  by (rule struct_copier [where get = "\<lambda>s. (nl_listMeta s, nl_items s)"
        and put = "\<lambda>(a, b) s. s\<lparr>nl_listMeta := a, nl_items := b\<rparr>"
        and rest = "nl_typeMeta"
        and build = "\<lambda>r (a, b). (r, a, or_empty b)",
        OF pair_copier [OF library_copiers(7) [OF assms] ptr_copier [OF list_copier [OF pool_copier [OF assms]] boxes(7)]]])
    (auto simp: NodePoolList_DeepCopyInto_def val_pool_list_def copy_simps)

text \<open>The structs without library types keep the contract outright.\<close>

interpretation cooldown: copier CooldownSpec_DeepCopyInto val_cooldown by (rule cooldown_copier)

interpretation disruption: copier DisruptionSpec_DeepCopyInto val_disruption by (rule disruption_copier)

interpretation drain: copier DrainSpec_DeepCopyInto val_drain by (rule drain_copier)

interpretation power: copier PowerSpec_DeepCopyInto val_power by (rule power_copier)

interpretation wol: copier WoLConfig_DeepCopyInto itself by (rule plain_copiers)

interpretation shutdown: copier ShutdownSpec_DeepCopyInto itself by (rule plain_copiers)

text \<open>\<open>DeepCopy\<close> allocates the struct itself and copies into it.\<close>

abbreviation machine_at :: "'x library \<Rightarrow> 'x mem \<Rightarrow> ptr \<Rightarrow> (type_meta \<times> machine) option option" where
  "machine_at L \<equiv> val_ptr as_machine (val_machine L)"

abbreviation machine_list_at ::
    "'x library \<Rightarrow> 'x mem \<Rightarrow> ptr \<Rightarrow> (type_meta \<times> string \<times> (type_meta \<times> machine) list) option option" where
  "machine_list_at L \<equiv> val_ptr as_machine_list (val_machine_list L)"

abbreviation nodepool_at :: "'x library \<Rightarrow> 'x mem \<Rightarrow> ptr \<Rightarrow> (type_meta \<times> nodepool) option option" where
  "nodepool_at L \<equiv> val_ptr as_pool (val_pool L)"

abbreviation nodepool_list_at ::
    "'x library \<Rightarrow> 'x mem \<Rightarrow> ptr \<Rightarrow> (type_meta \<times> string \<times> (type_meta \<times> nodepool) list) option option" where
  "nodepool_list_at L \<equiv> val_ptr as_pool_list (val_pool_list L)"

lemma spec_copies [copiers]:
  "copier CooldownSpec_DeepCopy (val_ptr as_cooldown val_cooldown)"
  "copier DisruptionSpec_DeepCopy (val_ptr as_disruption val_disruption)"
  "copier DrainSpec_DeepCopy (val_ptr as_drain val_drain)"
  "copier PowerSpec_DeepCopy (val_ptr as_power val_power)"
  "copier WoLConfig_DeepCopy (val_ptr as_wol itself)"
  "copier ShutdownSpec_DeepCopy (val_ptr as_shutdown itself)"
  unfolding CooldownSpec_DeepCopy_def DisruptionSpec_DeepCopy_def DrainSpec_DeepCopy_def PowerSpec_DeepCopy_def
    WoLConfig_DeepCopy_def ShutdownSpec_DeepCopy_def
  by (intro ptr_copier copiers boxes)+

lemma object_copies:
  assumes "library_copies L"
  shows "copier (Machine_DeepCopy L) (machine_at L)" "copier (MachineList_DeepCopy L) (machine_list_at L)"
    "copier (NodePool_DeepCopy L) (nodepool_at L)" "copier (NodePoolList_DeepCopy L) (nodepool_list_at L)"
    "copier (MachineSpec_DeepCopy L) (val_ptr as_machine_spec (val_machine_spec L))"
    "copier (MachineStatus_DeepCopy L) (val_ptr as_machine_status (val_machine_status L))"
    "copier (NodePoolSpec_DeepCopy L) (val_ptr as_pool_spec (val_pool_spec L))"
    "copier (NodePoolStatus_DeepCopy L) (val_ptr as_pool_status (val_pool_status L))"
    "copier (NodePoolTemplate_DeepCopy L) (val_ptr as_template (val_template L))"
  unfolding Machine_DeepCopy_def MachineList_DeepCopy_def NodePool_DeepCopy_def NodePoolList_DeepCopy_def
    MachineSpec_DeepCopy_def MachineStatus_DeepCopy_def NodePoolSpec_DeepCopy_def NodePoolStatus_DeepCopy_def
    NodePoolTemplate_DeepCopy_def
  by (intro ptr_copier boxes machine_copier machine_list_copier pool_copier pool_list_copier machine_spec_copier
      machine_status_copier pool_spec_copier pool_status_copier template_copier assms)+

section \<open>Objects behind an interface\<close>

datatype object_value =
    VMachine "type_meta \<times> machine"
  | VMachineList "type_meta \<times> string \<times> (type_meta \<times> machine) list"
  | VNodePool "type_meta \<times> nodepool"
  | VNodePoolList "type_meta \<times> string \<times> (type_meta \<times> nodepool) list"

text \<open>What an object means, if its pointer leads to a cell of its type and so do all the pointers behind it; and the
  call of \<^verbatim>\<open>DeepCopyObject\<close> on it, which the type of the pointer decides.\<close>

fun object_at :: "'x library \<Rightarrow> 'x mem \<Rightarrow> runtime_object \<Rightarrow> object_value option option" where
  "object_at L h (MachineObject p) = map_option (map_option VMachine) (machine_at L h p)"
| "object_at L h (MachineListObject p) = map_option (map_option VMachineList) (machine_list_at L h p)"
| "object_at L h (NodePoolObject p) = map_option (map_option VNodePool) (nodepool_at L h p)"
| "object_at L h (NodePoolListObject p) = map_option (map_option VNodePoolList) (nodepool_list_at L h p)"

fun DeepCopyObject :: "'x library \<Rightarrow> runtime_object \<Rightarrow> 'x mem \<Rightarrow> (runtime_object option \<times> 'x mem) option" where
  "DeepCopyObject L (MachineObject p) h = Machine_DeepCopyObject L p h"
| "DeepCopyObject L (MachineListObject p) h = MachineList_DeepCopyObject L p h"
| "DeepCopyObject L (NodePoolObject p) h = NodePool_DeepCopyObject L p h"
| "DeepCopyObject L (NodePoolListObject p) h = NodePoolList_DeepCopyObject L p h"

lemma null_iff: "val_ptr rd val h p = Some x \<Longrightarrow> p = None \<longleftrightarrow> x = None"
  by (auto simp: val_ptr_def bind_eq_Some_conv split: option.splits)

lemma object_copied:
  assumes "copier copy (val_ptr rd val)" and "val_ptr rd val h p = Some x"
  obtains c h' where "copy p h = Some (c, h')" and "agree 0 h h'" and "c = None \<longleftrightarrow> x = None"
    and "\<And>h2. agree (length h) h' h2 \<Longrightarrow> val_ptr rd val h2 c = Some x"
  using copier.copies [OF assms] null_iff by blast

lemmas object_defs = Machine_DeepCopyObject_def MachineList_DeepCopyObject_def NodePool_DeepCopyObject_def
  NodePoolList_DeepCopyObject_def

section \<open>Writing to one of the two\<close>

text \<open>A sequence of assignments through pointers.\<close>

fun stores :: "(nat \<times> 'x cell) list \<Rightarrow> 'x mem \<Rightarrow> 'x mem" where
  "stores [] h = h"
| "stores ((a, c) # ws) h = stores ws (h[a := c])"

lemma length_stores [simp]: "length (stores ws h) = length h"
  by (induction ws h rule: stores.induct) simp_all

lemma stores_below: "\<forall>w \<in> set ws. fst w < n \<Longrightarrow> agree n h (stores ws h)"
  by (induction ws h rule: stores.induct) (auto intro: agree_trans [OF agree_write])

lemma stores_above: "\<forall>w \<in> set ws. length h \<le> fst w \<Longrightarrow> agree 0 h h' \<Longrightarrow> agree 0 h (stores ws h')"
  by (induction ws h' rule: stores.induct) (auto intro: agree_write_new)

lemma copy_separate:
  assumes "copier copy (val_ptr rd val)" and "val_ptr rd val h (Some a) = Some (Some x)"
    and "copy (Some a) h = Some (c, h')"
  shows "c \<noteq> None" and "agree 0 h h'"
    and "\<forall>w \<in> set ws. fst w < length h \<Longrightarrow> val_ptr rd val (stores ws (h' @ new)) c = Some (Some x)"
    and "\<forall>w \<in> set ws. length h \<le> fst w \<Longrightarrow> val_ptr rd val (stores ws (h' @ new)) (Some a) = Some (Some x)"
proof -
  from object_copied [OF assms(1,2)] assms(3) have ext: "agree 0 h h'" and "c = None \<longleftrightarrow> Some x = None"
    and keep: "\<And>h2. agree (length h) h' h2 \<Longrightarrow> val_ptr rd val h2 c = Some (Some x)"
    by (metis (no_types, lifting) option.inject prod.inject)+
  then show "c \<noteq> None" "agree 0 h h'" by simp_all
  show "val_ptr rd val (stores ws (h' @ new)) c = Some (Some x)" if "\<forall>w \<in> set ws. fst w < length h"
    by (rule keep [OF agree_trans [OF agree_alloc stores_below [OF that]]])
  show "val_ptr rd val (stores ws (h' @ new)) (Some a) = Some (Some x)" if "\<forall>w \<in> set ws. length h \<le> fst w"
    by (rule copier.keeps [OF assms(1,2) stores_above [OF that agree_trans [OF ext agree_alloc]]])
qed

section \<open>A library to evaluate with\<close>

text \<open>One struct with the fields of all the library types; the labels and annotations of an object are maps in
  memory, and a time is a cell.\<close>

record sample_struct =
  sample_text :: string
  sample_number :: int
  sample_labels :: ptr
  sample_annotations :: ptr

definition sample_struct_of :: "'x cell \<Rightarrow> 'x option" where
  "sample_struct_of c = (case c of CLib x \<Rightarrow> Some x | _ \<Rightarrow> None)"

definition sample_meta :: "sample_struct mem \<Rightarrow> sample_struct \<Rightarrow> object_meta option" where
  "sample_meta h s = do {
     a \<leftarrow> val_strings h (sample_labels s);
     b \<leftarrow> val_strings h (sample_annotations s);
     Some \<lparr>om_name = sample_text s, om_labels = or_empty a, om_annotations = or_empty b,
       om_generation = sample_number s, om_resourceVersion = []\<rparr> }"

definition sample_meta_copy :: "(sample_struct, sample_struct) copy_fn" where
  "sample_meta_copy s h = do {
     (p, h) \<leftarrow> copy_strings (sample_labels s) h;
     (q, h) \<leftarrow> copy_strings (sample_annotations s) h;
     Some (s\<lparr>sample_labels := p, sample_annotations := q\<rparr>, h) }"

definition sample_library :: "sample_struct library" where
  "sample_library = \<lparr>
     Time_DeepCopy = copy_ptr sample_struct_of CLib assign, Quantity_DeepCopy = assign,
     Condition_DeepCopyInto = assign, Taint_DeepCopyInto = assign, LabelSelector_DeepCopyInto = assign,
     ObjectMeta_DeepCopyInto = sample_meta_copy, ListMeta_DeepCopyInto = assign,
     time_of = val_ptr sample_struct_of (\<lambda>h s. Some (sample_number s)),
     quantity_of = (\<lambda>h s. Some (sample_number s)),
     condition_of = (\<lambda>h s. Some \<lparr>cond_type = sample_text s, cond_status = CondTrue, cond_generation = 0,
       cond_reason = [], cond_message = Msg [] [], cond_lastTransition = sample_number s\<rparr>),
     taint_of = (\<lambda>h s. Some \<lparr>taint_key = sample_text s, taint_value = [], taint_effect = TaintEffectNoSchedule,
       taint_timeAdded = None\<rparr>),
     selector_of = (\<lambda>h s. Some \<lparr>ls_matchLabels = [(sample_text s, [])], ls_matchExpressions = []\<rparr>),
     objectMeta_of = sample_meta, listMeta_of = (\<lambda>h s. Some (sample_text s))\<rparr>"

lemma sample_meta_copier: "copier sample_meta_copy sample_meta"
  by (rule struct_copier [where get = "\<lambda>s. (sample_labels s, sample_annotations s)"
        and put = "\<lambda>(a, b) s. s\<lparr>sample_labels := a, sample_annotations := b\<rparr>"
        and rest = "\<lambda>s. (sample_text s, sample_number s)"
        and build = "\<lambda>r (a, b). \<lparr>om_name = fst r, om_labels = or_empty a, om_annotations = or_empty b,
          om_generation = snd r, om_resourceVersion = []\<rparr>",
        OF pair_copier [OF field_copiers(3) field_copiers(3)]])
    (auto simp: sample_meta_copy_def sample_meta_def copy_simps)

lemma sample_library_copies: "library_copies sample_library"
  by (auto simp: library_copies_def sample_library_def sample_meta_copier val_ptr_def sample_struct_of_def
    intro!: assign_copier ptr_copier)

text \<open>A Machine at address 3, with a label, an annotation to wake it and a time in its status.\<close>

definition sample_memory :: "sample_struct mem" where
  "sample_memory = [
     CStrings [(AnnotationWakeNow, AnnotationWakeNowValue)],
     CLib \<lparr>sample_text = [], sample_number = 7, sample_labels = None, sample_annotations = None\<rparr>,
     CWoLConfig \<lparr>wol_macAddress = ''aa:bb:cc:dd:ee:ff'', wol_broadcastAddress = []\<rparr>,
     CMachine \<lparr>mm_typeMeta = (''Machine'', ''onp.io/v1alpha1''),
       mm_objectMeta = \<lparr>sample_text = ''m1'', sample_number = 1, sample_labels = None, sample_annotations = Some 0\<rparr>,
       mm_spec = \<lparr>sm_nodeName = ''m1'', sm_capacity = None, sm_labels = None,
         sm_power = \<lparr>pm_provider = ''wol'', pm_wol = Some 2\<rparr>, sm_shutdown = None\<rparr>,
       mm_status = \<lparr>tm_state = Off, tm_bootStartTime = Some 1, tm_drainStartTime = None, tm_emptySince = None,
         tm_shutdownStartTime = None, tm_notReadySince = None, tm_conditions = None\<rparr>\<rparr>]"

section \<open>Properties\<close>

text \<open>C26. On an object whose pointers all lead to cells of their types, \<^verbatim>\<open>DeepCopyObject\<close> never dereferences a
  pointer to anything else, and it returns: the nil interface for a nil pointer, and otherwise an object of the same
  type, with the same value, whose pointers are again well typed and lead only to cells of the copy: overwriting
  any cell that existed before does not change what it means.\<close>

theorem deep_copy_object_typed:
  assumes "library_copies L" and "object_at L h ob = Some v"
  shows "\<exists>r h'. DeepCopyObject L ob h = Some (r, h') \<and> agree 0 h h' \<and>
    (case v of None \<Rightarrow> r = None
     | Some x \<Rightarrow> \<exists>copy. r = Some copy \<and> (\<forall>h2. agree (length h) h' h2 \<longrightarrow> object_at L h2 copy = Some (Some x)))"
proof (cases ob)
  case (MachineObject p)
  with assms(2) obtain x where x: "machine_at L h p = Some x" and v: "v = map_option VMachine x" by auto
  show ?thesis
    by (rule object_copied [OF object_copies(1) [OF assms(1)] x]) (cases x; auto simp: v MachineObject object_defs)
next
  case (MachineListObject p)
  with assms(2) obtain x where x: "machine_list_at L h p = Some x" and v: "v = map_option VMachineList x" by auto
  show ?thesis
    by (rule object_copied [OF object_copies(2) [OF assms(1)] x]) (cases x; auto simp: v MachineListObject object_defs)
next
  case (NodePoolObject p)
  with assms(2) obtain x where x: "nodepool_at L h p = Some x" and v: "v = map_option VNodePool x" by auto
  show ?thesis
    by (rule object_copied [OF object_copies(3) [OF assms(1)] x]) (cases x; auto simp: v NodePoolObject object_defs)
next
  case (NodePoolListObject p)
  with assms(2) obtain x where x: "nodepool_list_at L h p = Some x" and v: "v = map_option VNodePoolList x" by auto
  show ?thesis
    by (rule object_copied [OF object_copies(4) [OF assms(1)] x]) (cases x; auto simp: v NodePoolListObject object_defs)
qed


lemma sample_machine: "\<exists>x. machine_at sample_library sample_memory (Some 3) = Some (Some x)"
proof -
  have "case machine_at sample_library sample_memory (Some 3) of Some (Some x) \<Rightarrow> True | _ \<Rightarrow> False"
    by code_simp
  then show ?thesis by (auto split: option.splits)
qed

theorem deep_copy_object_typed_witness:
  "\<exists>r h'. DeepCopyObject sample_library (MachineObject (Some 3)) sample_memory = Some (Some r, h')"
proof -
  obtain x where "object_at sample_library sample_memory (MachineObject (Some 3)) = Some (Some x)"
    using sample_machine by auto
  from deep_copy_object_typed [OF sample_library_copies this] show ?thesis by auto
qed

text \<open>C25. The pattern \<^verbatim>\<open>orig := m.DeepCopy()\<close>, then changes to \<open>m\<close>, then a patch against \<open>orig\<close>: after a deep copy
  of a Machine, every sequence of assignments to cells that existed before the copy (the struct of \<open>m\<close>, its maps, its
  slices) leaves the copy the Machine it was, and every sequence of assignments to cells of the copy, or allocated later,
  leaves \<open>m\<close> the Machine it was.\<close>

theorem machine_copy_separate:
  assumes "library_copies L" and "machine_at L h (Some a) = Some (Some m)"
    and "Machine_DeepCopy L (Some a) h = Some (orig, h')"
  shows "((\<forall>w \<in> set ws. fst w < length h) \<longrightarrow> machine_at L (stores ws (h' @ new)) orig = Some (Some m)) \<and>
    ((\<forall>w \<in> set ws. length h \<le> fst w) \<longrightarrow> machine_at L (stores ws (h' @ new)) (Some a) = Some (Some m))"
  using copy_separate [OF object_copies(1) [OF assms(1)] assms(2,3)] by blast

theorem machine_copy_separate_witness:
  "\<exists>m orig h'. Machine_DeepCopy sample_library (Some 3) sample_memory = Some (orig, h') \<and>
    machine_at sample_library sample_memory (Some 3) = Some (Some m) \<and>
    machine_at sample_library (stores [(0, CStrings [])] h') orig = Some (Some m) \<and>
    machine_at sample_library (stores [(0, CStrings [])] h') (Some 3) \<noteq> Some (Some m)"
proof -
  obtain m where m: "machine_at sample_library sample_memory (Some 3) = Some (Some m)"
    using sample_machine by auto
  obtain orig h' where c: "Machine_DeepCopy sample_library (Some 3) sample_memory = Some (orig, h')"
    using copier.copies [OF object_copies(1) [OF sample_library_copies] m] by blast
  have "0 < length sample_memory" by code_simp
  then have "machine_at sample_library (stores [(0, CStrings [])] (h' @ [])) orig = Some (Some m)"
    using machine_copy_separate [OF sample_library_copies m c, where ws = "[(0, CStrings [])]" and new = "[]"] by simp
  moreover have "machine_at sample_library
      (stores [(0, CStrings [])] (snd (the (Machine_DeepCopy sample_library (Some 3) sample_memory)))) (Some 3)
      \<noteq> machine_at sample_library sample_memory (Some 3)"
    by code_simp
  ultimately show ?thesis using m c by auto
qed

text \<open>The same for a NodePool.\<close>

lemma nodepool_copy_separate:
  assumes "library_copies L" and "nodepool_at L h (Some a) = Some (Some p)"
    and "NodePool_DeepCopy L (Some a) h = Some (orig, h')"
  shows "\<forall>w \<in> set ws. fst w < length h \<Longrightarrow> nodepool_at L (stores ws (h' @ new)) orig = Some (Some p)"
    and "\<forall>w \<in> set ws. length h \<le> fst w \<Longrightarrow> nodepool_at L (stores ws (h' @ new)) (Some a) = Some (Some p)"
  using copy_separate [OF object_copies(3) [OF assms(1)] assms(2,3)] by blast+

end
