(* ===== verification/Watches.thy ===== *)
theory Watches
  imports Machine_Controller NodePool_Controller Scale_Down_Safety Shutdown_Agent
begin

text \<open>
  The wiring of the reconcilers, the five \<^verbatim>\<open>SetupWithManager\<close>: what each controller reconciles, what else it watches,
  through which predicate and which mapper. The wiring is data; what controller-runtime makes of it is a parameter, the
  requests that an event puts on the queue of a controller, with its documented behaviour as a hypothesis. The properties
  compose the wiring with the predicates and mappers of the controllers: a change that matters to a controller reaches
  its queue, and the queue of an agent holds only the Machine of its own node.
\<close>

section \<open>Objects, events and requests\<close>

datatype watched = WPod pod | WNode node | WMachine machine | WNodePool nodepool

datatype kind = KPod | KNode | KMachine | KNodePool

fun kind_of :: "watched \<Rightarrow> kind" where
  "kind_of (WPod p) = KPod"
| "kind_of (WNode n) = KNode"
| "kind_of (WMachine m) = KMachine"
| "kind_of (WNodePool p) = KNodePool"

text \<open>A request is a namespace and a name; all but Pods are cluster-scoped.\<close>

type_synonym request = "string \<times> string"

fun key_of :: "watched \<Rightarrow> request" where
  "key_of (WPod p) = (pod_namespace p, pod_name p)"
| "key_of (WNode n) = ([], node_name n)"
| "key_of (WMachine m) = ([], m_name m)"
| "key_of (WNodePool p) = ([], pool_name p)"

text \<open>The object of an event: the new one of an update. An update carries both.\<close>

fun subject :: "'a watch_event \<Rightarrow> 'a" where
  "subject (CreateEvent x) = x"
| "subject (UpdateEvent old x) = x"
| "subject (DeleteEvent x) = x"
| "subject (GenericEvent x) = x"

fun carried :: "'a watch_event \<Rightarrow> 'a set" where
  "carried (UpdateEvent old x) = {old, x}"
| "carried ev = {subject ev}"

section \<open>The wiring\<close>

text \<open>Predicates: functions of the event, \<^verbatim>\<open>NewPredicateFuncs\<close> of a function of the object, the library's
  \<^verbatim>\<open>GenerationChangedPredicate\<close>, or none.\<close>

datatype watch_predicate =
    NoPredicate
  | Funcs "watched watch_event \<Rightarrow> bool"
  | NewPredicateFuncs "watched \<Rightarrow> bool"
  | GenerationChangedPredicate

record 'w watch =
  watch_kind :: kind
  watch_mapper :: "watched \<Rightarrow> ('w, request list) go"
  watch_pred :: watch_predicate

record 'w wiring =
  wiring_name :: string
  wiring_for :: kind
  wiring_pred :: watch_predicate
  wiring_watches :: "'w watch list"

text \<open>The mappers are given a \<^verbatim>\<open>client.Object\<close> and assert its type; the predicates do so for every object they look at.\<close>

definition requests :: "('w, string list) go \<Rightarrow> ('w, request list) go" where
  "requests p = bind p (\<lambda>names. ret (map (Pair []) names))"

fun on_pod :: "(pod \<Rightarrow> ('w, string list) go) \<Rightarrow> watched \<Rightarrow> ('w, request list) go" where
  "on_pod f (WPod p) = requests (f p)"
| "on_pod f obj = ret []"

fun on_node :: "(node \<Rightarrow> ('w, string list) go) \<Rightarrow> watched \<Rightarrow> ('w, request list) go" where
  "on_node f (WNode n) = requests (f n)"
| "on_node f obj = ret []"

fun on_machine :: "(machine \<Rightarrow> ('w, string list) go) \<Rightarrow> watched \<Rightarrow> ('w, request list) go" where
  "on_machine f (WMachine m) = requests (f m)"
| "on_machine f obj = ret []"

fun on_pool :: "(nodepool \<Rightarrow> ('w, string list) go) \<Rightarrow> watched \<Rightarrow> ('w, request list) go" where
  "on_pool f (WNodePool p) = requests (f p)"
| "on_pool f obj = ret []"

fun pod_event :: "watched watch_event \<Rightarrow> pod watch_event option" where
  "pod_event (CreateEvent (WPod p)) = Some (CreateEvent p)"
| "pod_event (UpdateEvent (WPod p) (WPod q)) = Some (UpdateEvent p q)"
| "pod_event (DeleteEvent (WPod p)) = Some (DeleteEvent p)"
| "pod_event (GenericEvent (WPod p)) = Some (GenericEvent p)"
| "pod_event ev = None"

fun node_event :: "watched watch_event \<Rightarrow> node watch_event option" where
  "node_event (CreateEvent (WNode n)) = Some (CreateEvent n)"
| "node_event (UpdateEvent (WNode n) (WNode k)) = Some (UpdateEvent n k)"
| "node_event (DeleteEvent (WNode n)) = Some (DeleteEvent n)"
| "node_event (GenericEvent (WNode n)) = Some (GenericEvent n)"
| "node_event ev = None"

definition asserted :: "('e \<Rightarrow> bool) \<Rightarrow> 'e option \<Rightarrow> bool" where
  "asserted p ev = (case ev of None \<Rightarrow> False | Some e \<Rightarrow> p e)"

definition MachineReconciler_SetupWithManager :: "'w env \<Rightarrow> 'w wiring" where
  "MachineReconciler_SetupWithManager E =
     \<lparr>wiring_name = ''machine'', wiring_for = KMachine, wiring_pred = NoPredicate,
      wiring_watches = [\<lparr>watch_kind = KNode, watch_mapper = on_node (machinesForNode E), watch_pred = NoPredicate\<rparr>]\<rparr>"

definition ScaleDownReconciler_SetupWithManager :: "'w env \<Rightarrow> 'w wiring" where
  "ScaleDownReconciler_SetupWithManager E =
     \<lparr>wiring_name = ''scaledown'', wiring_for = KMachine, wiring_pred = NoPredicate,
      wiring_watches =
        [\<lparr>watch_kind = KPod, watch_mapper = on_pod (machinesForPod E),
          watch_pred = Funcs (\<lambda>ev. asserted podEmptinessPredicate (pod_event ev))\<rparr>,
         \<lparr>watch_kind = KNodePool, watch_mapper = on_pool (membersOfPool E), watch_pred = GenerationChangedPredicate\<rparr>,
         \<lparr>watch_kind = KNode, watch_mapper = on_node (scaleDownMachinesForNode E),
          watch_pred = Funcs (\<lambda>ev. asserted nodeExemptionChanged (node_event ev))\<rparr>]\<rparr>"

definition ScaleUpReconciler_SetupWithManager :: "'w wiring" where
  "ScaleUpReconciler_SetupWithManager =
     \<lparr>wiring_name = ''scaleup'', wiring_for = KPod,
      wiring_pred = Funcs (\<lambda>ev. asserted unschedulablePodPredicate (pod_event ev)), wiring_watches = []\<rparr>"

definition NodePoolReconciler_SetupWithManager :: "'w env \<Rightarrow> 'w wiring" where
  "NodePoolReconciler_SetupWithManager E =
     \<lparr>wiring_name = ''nodepool'', wiring_for = KNodePool, wiring_pred = NoPredicate,
      wiring_watches = [\<lparr>watch_kind = KMachine, watch_mapper = on_machine (poolsForMachine E), watch_pred = NoPredicate\<rparr>]\<rparr>"

definition ShutdownReconciler_SetupWithManager :: "'w shutdown_reconciler \<Rightarrow> 'v wiring" where
  "ShutdownReconciler_SetupWithManager R =
     \<lparr>wiring_name = ''shutdown'', wiring_for = KMachine,
      wiring_pred = NewPredicateFuncs (\<lambda>obj. case obj of WMachine m \<Rightarrow> ownNode R m | _ \<Rightarrow> False), wiring_watches = []\<rparr>"

section \<open>The framework\<close>

fun generation_of :: "watched \<Rightarrow> int" where
  "generation_of (WMachine m) = m_generation m"
| "generation_of (WNodePool p) = pool_generation p"
| "generation_of obj = 0"

text \<open>What controller-runtime documents of predicates and of event handlers, for \<open>admits\<close>, which says whether a predicate
  lets an event pass, and \<open>enqueues\<close>, which gives the requests that an event puts on the queue of a controller when each
  object it carries is mapped in the world \<open>ws\<close> gives for it.\<close>

definition delivered ::
    "(watch_predicate \<Rightarrow> watched watch_event \<Rightarrow> bool) \<Rightarrow> 'w wiring \<Rightarrow> watched watch_event \<Rightarrow> (watched \<Rightarrow> 'w) \<Rightarrow> request set" where
  "delivered admits c ev ws =
     {r. kind_of (subject ev) = wiring_for c \<and> admits (wiring_pred c) ev \<and> r = key_of (subject ev)} \<union>
     {r. \<exists>wt\<in>set (wiring_watches c). \<exists>obj\<in>carried ev. \<exists>rs.
        kind_of (subject ev) = watch_kind wt \<and> admits (watch_pred wt) ev \<and>
        result (watch_mapper wt obj) (ws obj) = Inr rs \<and> r \<in> set rs}"

definition framework ::
    "(watch_predicate \<Rightarrow> watched watch_event \<Rightarrow> bool) \<Rightarrow>
     ('w wiring \<Rightarrow> watched watch_event \<Rightarrow> (watched \<Rightarrow> 'w) \<Rightarrow> request set) \<Rightarrow> bool" where
  "framework admits enqueues \<longleftrightarrow>
     (\<forall>ev. admits NoPredicate ev) \<and>
     (\<forall>f ev. admits (Funcs f) ev = f ev) \<and>
     (\<forall>f ev. admits (NewPredicateFuncs f) ev = f (subject ev)) \<and>
     (\<forall>old x. generation_of old \<noteq> generation_of x \<longrightarrow> admits GenerationChangedPredicate (UpdateEvent old x)) \<and>
     (\<forall>x. admits GenerationChangedPredicate (CreateEvent x) \<and> admits GenerationChangedPredicate (DeleteEvent x)) \<and>
     (\<forall>c ev ws. enqueues c ev ws = delivered admits c ev ws)"

lemma framework_admits:
  assumes "framework admits enqueues"
  shows "admits NoPredicate ev" and "admits (Funcs f) ev = f ev" and "admits (NewPredicateFuncs g) ev = g (subject ev)"
    and "generation_of old \<noteq> generation_of x \<Longrightarrow> admits GenerationChangedPredicate (UpdateEvent old x)"
    and "enqueues c ev ws = delivered admits c ev ws"
    and "admits GenerationChangedPredicate (CreateEvent x)" and "admits GenerationChangedPredicate (DeleteEvent x)"
  using assms by (simp_all add: framework_def)

lemma framework_own:
  assumes "framework admits enqueues" and "kind_of (subject ev) = wiring_for c" and "admits (wiring_pred c) ev"
  shows "key_of (subject ev) \<in> enqueues c ev ws"
  unfolding framework_admits(5) [OF assms(1)] delivered_def using assms(2,3) by blast

lemma framework_mapped:
  assumes "framework admits enqueues" and "wt \<in> set (wiring_watches c)" and "obj \<in> carried ev"
    and "kind_of (subject ev) = watch_kind wt" and "admits (watch_pred wt) ev"
    and "result (watch_mapper wt obj) (ws obj) = Inr rs" and "r \<in> set rs"
  shows "r \<in> enqueues c ev ws"
  unfolding framework_admits(5) [OF assms(1)] delivered_def using assms(2-7) by blast

lemma subject_carried [simp]: "subject ev \<in> carried ev"
  by (cases ev) simp_all

section \<open>What the mappers answer\<close>

lemma requests_result: "result p w = Inr names \<Longrightarrow> result (requests p) w = Inr (map (Pair []) names)"
  by (auto simp: requests_def result_def bind_def ret_def split: prod.splits sum.splits)

lemma requestsForMachinesOnNode_result:
  assumes "k \<noteq> []" and "env_list_machines_on_node E k w = (Inr ms, w')"
  shows "result (requestsForMachinesOnNode E k) w = Inr (map m_name ms)"
  using assms by (simp add: requestsForMachinesOnNode_def machineRequests_def client_defs result_def prog_defs)

lemma requestsForPoolMembers_result:
  assumes "LabelSelectorAsSelector (env_lib E) (ps_machineSelector (pool_spec p)) = Inr f"
    and "env_list_machines_matching E Cached (ps_machineSelector (pool_spec p)) w = (Inr ms, w')"
  shows "result (requestsForPoolMembers E p) w = Inr (map m_name ms)"
  using assms by (simp add: requestsForPoolMembers_def machineRequests_def client_defs result_def prog_defs)

section \<open>Changes that matter\<close>

text \<open>The changes that bear on the scale-down of the Machine called \<open>name\<close>, in terms of what its reconcile looks at: an event
  of the Machine itself; a change to a pod that makes its Node empty or not; an update of its Node after which the
  reconciler takes it for exempt (always-on, or do-not-disrupt) and before which it did not, or the other way round; a
  change to the spec of a pool that selects it, which the API server marks with a new generation; and a pool that selects
  it and is created or deleted. The Machines are those of the cache.\<close>

definition exempt_node :: "node \<Rightarrow> bool" where
  "exempt_node n \<longleftrightarrow> disruptionRefused n \<or> alwaysOnLabelled n"

inductive bears_on_scale_down :: "'w env \<Rightarrow> (watched \<Rightarrow> 'w) \<Rightarrow> watched watch_event \<Rightarrow> string \<Rightarrow> bool"
  for E :: "'w env" and ws :: "watched \<Rightarrow> 'w" where
  machine: "subject ev = WMachine m \<Longrightarrow> bears_on_scale_down E ws ev (m_name m)"
| emptiness: "pod_event ev = Some pe \<Longrightarrow> pod_change pe before afterwards \<Longrightarrow> k \<noteq> [] \<Longrightarrow>
    is_empty_node k before \<noteq> is_empty_node k afterwards \<Longrightarrow>
    env_list_machines_on_node E k (ws (subject ev)) = (Inr ms, w') \<Longrightarrow> m \<in> set ms \<Longrightarrow>
    bears_on_scale_down E ws ev (m_name m)"
| exemption: "exempt_node n \<noteq> exempt_node n' \<Longrightarrow> node_name n' \<noteq> [] \<Longrightarrow>
    env_list_machines_on_node E (node_name n') (ws (WNode n')) = (Inr ms, w') \<Longrightarrow> m \<in> set ms \<Longrightarrow>
    bears_on_scale_down E ws (UpdateEvent (WNode n) (WNode n')) (m_name m)"
| policy: "pool_generation p \<noteq> pool_generation p' \<Longrightarrow> q \<in> {p, p'} \<Longrightarrow>
    LabelSelectorAsSelector (env_lib E) (ps_machineSelector (pool_spec q)) = Inr f \<Longrightarrow>
    env_list_machines_matching E Cached (ps_machineSelector (pool_spec q)) (ws (WNodePool q)) = (Inr ms, w') \<Longrightarrow> m \<in> set ms \<Longrightarrow>
    bears_on_scale_down E ws (UpdateEvent (WNodePool p) (WNodePool p')) (m_name m)"
| pool: "ev \<in> {CreateEvent (WNodePool p), DeleteEvent (WNodePool p)} \<Longrightarrow>
    LabelSelectorAsSelector (env_lib E) (ps_machineSelector (pool_spec p)) = Inr f \<Longrightarrow>
    env_list_machines_matching E Cached (ps_machineSelector (pool_spec p)) (ws (WNodePool p)) = (Inr ms, w') \<Longrightarrow> m \<in> set ms \<Longrightarrow>
    bears_on_scale_down E ws ev (m_name m)"

lemma exemption_noticed: "exempt_node n \<noteq> exempt_node n' \<Longrightarrow> nodeExemptionChanged (UpdateEvent n n')"
  by (auto simp: exempt_node_def disruptionRefused_def alwaysOnLabelled_def)

section \<open>The watches of scale-down\<close>

lemma scale_down_pods:
  assumes "framework admits enqueues" and "pod_event ev = Some pe" and "podEmptinessPredicate pe"
    and "result (machinesForPod E (event_pod pe)) (ws (subject ev)) = Inr names" and "n \<in> set names"
  shows "([], n) \<in> enqueues (ScaleDownReconciler_SetupWithManager E) ev ws"
proof (rule framework_mapped [OF assms(1), where wt = "\<lparr>watch_kind = KPod, watch_mapper = on_pod (machinesForPod E),
    watch_pred = Funcs (\<lambda>ev. asserted podEmptinessPredicate (pod_event ev))\<rparr>"])
  have "subject ev = WPod (event_pod pe)" using assms(2) by (cases ev rule: pod_event.cases) auto
  with requests_result [OF assms(4)]
  show "result (watch_mapper \<lparr>watch_kind = KPod, watch_mapper = on_pod (machinesForPod E),
      watch_pred = Funcs (\<lambda>ev. asserted podEmptinessPredicate (pod_event ev))\<rparr> (subject ev)) (ws (subject ev)) =
      Inr (map (Pair []) names)"
    and "kind_of (subject ev) = watch_kind \<lparr>watch_kind = KPod, watch_mapper = on_pod (machinesForPod E),
      watch_pred = Funcs (\<lambda>ev. asserted podEmptinessPredicate (pod_event ev))\<rparr>"
    by simp_all
qed (use assms in \<open>auto simp: ScaleDownReconciler_SetupWithManager_def framework_admits [OF assms(1)] asserted_def\<close>)

lemma scale_down_nodes:
  assumes "framework admits enqueues" and "nodeExemptionChanged (UpdateEvent old x)"
    and "result (scaleDownMachinesForNode E x) (ws (WNode x)) = Inr names" and "n \<in> set names"
  shows "([], n) \<in> enqueues (ScaleDownReconciler_SetupWithManager E) (UpdateEvent (WNode old) (WNode x)) ws"
  by (rule framework_mapped [OF assms(1), where wt = "\<lparr>watch_kind = KNode, watch_mapper = on_node (scaleDownMachinesForNode E),
        watch_pred = Funcs (\<lambda>ev. asserted nodeExemptionChanged (node_event ev))\<rparr>" and obj = "WNode x"])
    (use assms requests_result [OF assms(3)] in
      \<open>auto simp: ScaleDownReconciler_SetupWithManager_def framework_admits [OF assms(1)] asserted_def\<close>)

lemma scale_down_pools:
  assumes "framework admits enqueues" and "admits GenerationChangedPredicate ev" and "WNodePool q \<in> carried ev"
    and "kind_of (subject ev) = KNodePool"
    and "result (membersOfPool E q) (ws (WNodePool q)) = Inr names" and "n \<in> set names"
  shows "([], n) \<in> enqueues (ScaleDownReconciler_SetupWithManager E) ev ws"
  by (rule framework_mapped [OF assms(1), where wt = "\<lparr>watch_kind = KNodePool, watch_mapper = on_pool (membersOfPool E),
        watch_pred = GenerationChangedPredicate\<rparr>" and obj = "WNodePool q"])
    (use assms requests_result [OF assms(5)] in \<open>auto simp: ScaleDownReconciler_SetupWithManager_def\<close>)

section \<open>A framework to evaluate with\<close>

fun sample_admits :: "watch_predicate \<Rightarrow> watched watch_event \<Rightarrow> bool" where
  "sample_admits NoPredicate ev = True"
| "sample_admits (Funcs f) ev = f ev"
| "sample_admits (NewPredicateFuncs f) ev = f (subject ev)"
| "sample_admits GenerationChangedPredicate (UpdateEvent old x) = (generation_of old \<noteq> generation_of x)"
| "sample_admits GenerationChangedPredicate ev = True"

lemma sample_framework: "framework sample_admits (delivered sample_admits)"
  by (simp add: framework_def)

definition always_on_node :: node where
  "always_on_node = (sample_node ''n'' CondTrue False)\<lparr>node_labels := [(LabelAlwaysOn, LabelAlwaysOnValue)]\<rparr>"

section \<open>Properties\<close>

text \<open>C27. What bears on the scale-down of a Machine puts the Machine on the queue of the scale-down controller. That is an event of the Machine itself, a change to a pod that makes its Node
  empty or not, an update of its Node that makes it exempt or lifts its last exemption, a new spec of a pool that selects
  it before or after, and the creation or deletion of a pool that selects it. Creations and deletions of Nodes are left
  out: the controller does not watch them.\<close>

theorem scale_down_informed:
  assumes "framework admits enqueues" and "bears_on_scale_down E ws ev name"
  shows "([], name) \<in> enqueues (ScaleDownReconciler_SetupWithManager E) ev ws"
  using assms(2)
proof cases
  case (machine m)
  with framework_own [OF assms(1), of ev "ScaleDownReconciler_SetupWithManager E" ws] show ?thesis
    by (simp add: ScaleDownReconciler_SetupWithManager_def framework_admits [OF assms(1)])
next
  case (emptiness pe before afterwards k ms w' m)
  then show ?thesis
    using emptiness_changes_admitted [OF emptiness(3-5), of E] requestsForMachinesOnNode_result [OF emptiness(4,6)]
    by (intro scale_down_pods [OF assms(1) emptiness(2)]) auto
next
  case (exemption n n' ms w' m)
  then show ?thesis
    using requestsForMachinesOnNode_result [OF exemption(4,5)] scale_down_nodes [OF assms(1) exemption_noticed [OF exemption(3)]]
    by (simp add: scaleDownMachinesForNode_def)
next
  case (policy p p' q f ms w' m)
  then show ?thesis
    using requestsForPoolMembers_result [OF policy(5,6)] framework_admits(4) [OF assms(1)]
    by (intro scale_down_pools [OF assms(1), of _ q]) (auto simp: membersOfPool_def)
next
  case (pool p f ms w' m)
  then show ?thesis
    using requestsForPoolMembers_result [OF pool(3,4)] framework_admits(6,7) [OF assms(1)]
    by (intro scale_down_pools [OF assms(1), of _ p]) (auto simp: membersOfPool_def)
qed

theorem scale_down_informed_witness:
  "([], ''m'') \<in> delivered sample_admits (ScaleDownReconciler_SetupWithManager store_env)
     (DeleteEvent (WPod (sample_pod ''p'' ''n''))) (\<lambda>_. counted_world) \<and>
   ([], ''m'') \<in> delivered sample_admits (ScaleDownReconciler_SetupWithManager store_env)
     (UpdateEvent (WNode always_on_node) (WNode (sample_node ''n'' CondTrue False))) (\<lambda>_. counted_world)"
proof -
  let ?p = "sample_pod ''p'' ''n''" let ?n = "sample_node ''n'' CondTrue False"
  have change: "pod_change (DeleteEvent ?p) [?p] []" using deleted [of ?p "[]" "[]"] by simp
  have flips: "is_empty_node ''n'' [?p] \<noteq> is_empty_node ''n'' []" by code_simp
  have lifted: "exempt_node always_on_node \<noteq> exempt_node ?n" by code_simp
  have listed: "env_list_machines_on_node store_env ''n'' counted_world =
      (Inr [sample_machine ''m'' ''n'' Ready], counted_world)"
    by code_simp
  have node: "node_name ?n = ''n''" by code_simp
  have 1: "bears_on_scale_down store_env (\<lambda>_. counted_world) (DeleteEvent (WPod ?p)) (m_name (sample_machine ''m'' ''n'' Ready))"
    by (rule emptiness [OF _ change _ flips listed]) simp_all
  have 2: "bears_on_scale_down store_env (\<lambda>_. counted_world) (UpdateEvent (WNode always_on_node) (WNode ?n))
      (m_name (sample_machine ''m'' ''n'' Ready))"
    by (rule exemption [OF lifted, where ms = "[sample_machine ''m'' ''n'' Ready]" and w' = counted_world])
      (simp_all add: listed node)
  have "m_name (sample_machine ''m'' ''n'' Ready) = ''m''" by code_simp
  with scale_down_informed [OF sample_framework 1] scale_down_informed [OF sample_framework 2] show ?thesis by simp
qed

lemma node_arrivals_not_watched:
  assumes "framework admits enqueues" and "ev \<in> {CreateEvent (WNode n), DeleteEvent (WNode n)}"
  shows "enqueues (ScaleDownReconciler_SetupWithManager E) ev ws = {}"
  using assms(2)
  by (auto simp: framework_admits [OF assms(1)] delivered_def ScaleDownReconciler_SetupWithManager_def asserted_def)

text \<open>The queue of a shutdown agent holds only the Machine of its own node, whatever happens to the others.\<close>

lemma agent_queue_own:
  assumes "framework admits enqueues" and "r \<in> enqueues (ShutdownReconciler_SetupWithManager R) ev ws"
  shows "\<exists>m. subject ev = WMachine m \<and> nodeName_of m = sr_NodeName R \<and> r = ([], m_name m)"
proof -
  have "kind_of (subject ev) = KMachine" and "admits (wiring_pred (ShutdownReconciler_SetupWithManager R)) ev"
    and "r = key_of (subject ev)"
    using assms(2) unfolding framework_admits(5) [OF assms(1)]
    by (simp_all add: delivered_def ShutdownReconciler_SetupWithManager_def)
  then show ?thesis
    by (cases "subject ev")
      (auto simp: ShutdownReconciler_SetupWithManager_def framework_admits [OF assms(1)] ownNode_def)
qed

text \<open>A pool recounts when its membership changes: an update of a Machine puts on the queue of the pool controller every
  pool that selects the Machine as it was or as it is.\<close>

lemma pools_informed:
  assumes "framework admits enqueues" and "m \<in> {old, new}" and "env_list_pools E (ws (WMachine m)) = (Inr pools, w')"
    and "p \<in> set pools" and "selects (env_lib E) p (m_labels m)"
  shows "([], pool_name p) \<in> enqueues (NodePoolReconciler_SetupWithManager E) (UpdateEvent (WMachine old) (WMachine new)) ws"
proof (rule framework_mapped [OF assms(1)])
  show "\<lparr>watch_kind = KMachine, watch_mapper = on_machine (poolsForMachine E), watch_pred = NoPredicate\<rparr> \<in>
      set (wiring_watches (NodePoolReconciler_SetupWithManager E))" (is "?wt \<in> _")
    by (simp add: NodePoolReconciler_SetupWithManager_def)
  have "result (poolsForMachine E m) (ws (WMachine m)) =
      Inr (map pool_name (filter (\<lambda>p. selects (env_lib E) p (m_labels m)) pools))"
    using assms(3) by (simp add: poolsForMachine_def client_defs result_def prog_defs)
  from requests_result [OF this]
  show "result (watch_mapper ?wt (WMachine m)) (ws (WMachine m)) =
      Inr (map (Pair []) (map pool_name (filter (\<lambda>p. selects (env_lib E) p (m_labels m)) pools)))" by simp
qed (use assms in \<open>auto simp: framework_admits [OF assms(1)]\<close>)

text \<open>A Node event reaches the Machines of the Node.\<close>

lemma machines_informed:
  assumes "framework admits enqueues" and "subject ev = WNode n" and "node_name n \<noteq> []"
    and "env_list_machines_on_node E (node_name n) (ws (WNode n)) = (Inr ms, w')" and "m \<in> set ms"
  shows "([], m_name m) \<in> enqueues (MachineReconciler_SetupWithManager E) ev ws"
proof (rule framework_mapped [OF assms(1)])
  show "\<lparr>watch_kind = KNode, watch_mapper = on_node (machinesForNode E), watch_pred = NoPredicate\<rparr> \<in>
      set (wiring_watches (MachineReconciler_SetupWithManager E))" (is "?wt \<in> _")
    by (simp add: MachineReconciler_SetupWithManager_def)
  show "result (watch_mapper ?wt (subject ev)) (ws (subject ev)) = Inr (map (Pair []) (map m_name ms))"
    using requests_result [OF requestsForMachinesOnNode_result [OF assms(3,4)]]
    by (simp add: assms(2) machinesForNode_def)
qed (use assms subject_carried [of ev] in \<open>simp_all add: framework_admits [OF assms(1)]\<close>)

end
