(* ===== verification/Metrics.thy ===== *)
theory Metrics
  imports Machine_Lifecycle NodePool_Controller
begin

text \<open>
  \<^verbatim>\<open>internal/metrics/metrics.go\<close> and the descriptors of \<^verbatim>\<open>metrics_collector.go\<close>: the metrics of the controller as
  data, that a scrape is well formed, and that the counter of power-ons counts power-ons.
\<close>

section \<open>Descriptors\<close>

record metric_desc =
  md_name :: string
  md_help :: string
  md_labels :: "string list"

definition PowerOnTotal :: metric_desc where
  "PowerOnTotal = \<lparr>md_name = ''onp_power_on_total'',
     md_help = ''Count of power-on commands issued, by provider and result (success|error).'',
     md_labels = [''provider'', ''result'']\<rparr>"

text \<open>The histogram has no labels; its buckets are in seconds.\<close>

definition ScaleUpLatencySeconds :: "metric_desc \<times> int list" where
  "ScaleUpLatencySeconds = (\<lparr>md_name = ''onp_scale_up_latency_seconds'',
     md_help = ''Seconds from power-on to the backing Node reporting Ready.'', md_labels = []\<rparr>,
     [5, 10, 15, 20, 30, 45, 60, 90, 120, 180, 300, 600])"

definition DrainFailureTotal :: metric_desc where
  "DrainFailureTotal = \<lparr>md_name = ''onp_drain_failure_total'',
     md_help = ''Count of drains/power-offs that failed, by reason.'', md_labels = [''reason'']\<rparr>"

text \<open>What \<^verbatim>\<open>init\<close> registers.\<close>

definition registered :: "metric_desc list" where
  "registered = [PowerOnTotal, fst ScaleUpLatencySeconds, DrainFailureTotal]"

record state_collector =
  nodesTotal :: metric_desc
  pendingUnschedulable :: metric_desc

definition NewStateCollector :: state_collector where
  "NewStateCollector =
     \<lparr>nodesTotal = \<lparr>md_name = ''onp_nodes_total'', md_help = ''Number of Machines by pool and lifecycle state.'',
        md_labels = [''pool'', ''state'']\<rparr>,
      pendingUnschedulable = \<lparr>md_name = ''onp_pending_unschedulable'',
        md_help = ''Number of unschedulable pending pods awaiting a node.'', md_labels = []\<rparr>\<rparr>"

definition Describe :: "state_collector \<Rightarrow> metric_desc list" where
  "Describe c = [nodesTotal c, pendingUnschedulable c]"

text \<open>A sample as \<^verbatim>\<open>MustNewConstMetric\<close> is given it: descriptor, label values, value.\<close>

fun const_metric :: "state_collector \<Rightarrow> metric \<Rightarrow> metric_desc \<times> string list \<times> int" where
  "const_metric c (NodesTotal pool state n) = (nodesTotal c, [pool, state], n)"
| "const_metric c (PendingUnschedulable n) = (pendingUnschedulable c, [], n)"

section \<open>Scrapes\<close>

text \<open>What Prometheus demands of a scrape: every sample has a described descriptor and a value for each of its labels,
  and no two samples have the same name and labels.\<close>

definition well_formed_scrape :: "state_collector \<Rightarrow> metric list \<Rightarrow> bool" where
  "well_formed_scrape c ms \<longleftrightarrow>
     (\<forall>(d, ls, v)\<in>set (map (const_metric c) ms). d \<in> set (Describe c) \<and> length ls = length (md_labels d)) \<and>
     distinct (map (\<lambda>(d, ls, v). (md_name d, ls)) (map (const_metric c) ms))"

lemma distinct_series: "distinct (map fst (nodeCounts L pools machines))"
proof -
  have zero: "distinct (map fst counts) \<Longrightarrow>
      distinct (map fst (fold (\<lambda>s counts. AList.update (n, stateString s) 0 counts) ss counts))" for n ss and counts :: series
    by (induction ss arbitrary: counts) (auto intro: distinct_update)
  have zeros: "distinct (map fst counts) \<Longrightarrow> distinct (map fst
      (fold (\<lambda>p counts. fold (\<lambda>s counts. AList.update (pool_name p, stateString s) 0 counts) machineStates counts) ps counts))"
    for ps and counts :: series
    by (induction ps arbitrary: counts) (auto intro: zero)
  have "distinct (map fst counts) \<Longrightarrow> distinct (map fst (fold (\<lambda>m. countMachine (f m)) ms counts))" for f ms and counts :: series
    by (induction ms arbitrary: counts) (auto simp: countMachine_def intro: distinct_update)
  from this [OF zeros [of "[]" pools]] show ?thesis by (simp add: nodeCounts_def zeroSeries_def)
qed

section \<open>Counting power-ons\<close>

fun power_calls :: "action list \<Rightarrow> (string \<times> string) list" where
  "power_calls [] = []"
| "power_calls (PowerOnCall p m r # as) = (p, case r of Inl e \<Rightarrow> ResultError | Inr _ \<Rightarrow> ResultSuccess) # power_calls as"
| "power_calls (a # as) = power_calls as"

fun power_counts :: "action list \<Rightarrow> (string \<times> string) list" where
  "power_counts [] = []"
| "power_counts (CountPowerOn p res # as) = (p, res) # power_counts as"
| "power_counts (a # as) = power_counts as"

definition counted :: "action list \<Rightarrow> bool" where
  "counted as \<longleftrightarrow> power_counts as = power_calls as"

definition calm :: "action \<Rightarrow> bool" where
  "calm a \<longleftrightarrow> (case a of PowerOnCall p m r \<Rightarrow> False | CountPowerOn p res \<Rightarrow> False | _ \<Rightarrow> True)"

lemma calm_simps [simp]: "calm a \<Longrightarrow> power_calls (a # as) = power_calls as" "calm a \<Longrightarrow> power_counts (a # as) = power_counts as"
  by (cases a; simp add: calm_def)+

lemma counted_append: "counted as \<Longrightarrow> counted bs \<Longrightarrow> counted (as @ bs)"
proof -
  have "power_calls (as @ bs) = power_calls as @ power_calls bs" by (induction as rule: power_calls.induct) simp_all
  moreover have "power_counts (as @ bs) = power_counts as @ power_counts bs" by (induction as rule: power_counts.induct) simp_all
  ultimately show "counted as \<Longrightarrow> counted bs \<Longrightarrow> counted (as @ bs)" by (simp add: counted_def)
qed

lemma counted_calm: "list_all calm as \<Longrightarrow> counted as"
  by (induction as) (simp_all add: counted_def)

lemma counted_quiet: "emits calm p \<Longrightarrow> wp p (\<lambda>as r. counted as)"
  by (erule emits_wp) (rule counted_calm)

lemma counted_bind:
  assumes "wp p (\<lambda>as r. counted as)" and "\<And>v. wp (f v) (\<lambda>as r. counted as)"
  shows "wp (bind p f) (\<lambda>as r. counted as)"
  by (rule wp_bind, rule wp_mono [OF assms(1)]) (auto split: sum.splits intro!: wp_mono [OF assms(2)] counted_append)

lemma quiet_pieces [emits_rules]:
  "emits calm (removeDrainAnnotation E m)" "emits calm (removeWakeAnnotation E m)" "emits calm (nodeIsReady E k)"
  "emits calm (bootTimedOut R m)" "emits calm (requeueForBoot R m)" "emits calm (otherMachinesOnNode E m)"
  "emits calm (failBoot R m reason msg)" "emits calm (since E t)"
  unfolding failBoot_def piece_defs Let_def by (auto simp: calm_def intro!: emits_rules)

lemma quiet_promoteToReady [emits_rules]: "emits calm (promoteToReady R m)"
  unfolding promoteToReady_def enterReady_def piece_defs Let_def by (auto simp: calm_def intro!: emits_rules)

lemma quiet_handlers [emits_rules]:
  "emits calm (initialize R m)" "emits calm (reconcileReady R m)" "emits calm (reconcileShuttingDown R m)"
  unfolding initialize_def reconcileReady_def reconcileReadyNodeLost_def startDraining_def reconcileShuttingDown_def
    piece_defs Let_def
  by (auto simp: calm_def intro!: emits_rules)

lemma quiet_reconcileDraining [emits_rules]: "emits calm (reconcileDraining R m)"
  unfolding reconcileDraining_def abortDrain_def failDrain_def drainPass_def enterShuttingDown_def evictTurn_def evictPod_def
    piece_defs Let_def
  by (auto simp: calm_def intro!: emits_rules)

text \<open>A power-on and the report that follows it.\<close>

definition outcome_label :: "go_error + unit \<Rightarrow> string" where
  "outcome_label r = (case r of Inl e \<Rightarrow> ResultError | Inr _ \<Rightarrow> ResultSuccess)"

lemma counted_power_on:
  assumes "\<And>r. wp (f r) (\<lambda>bs r'. \<exists>cs. bs = CountPowerOn (provider_of m) (outcome_label r) # cs \<and> list_all calm cs)"
  shows "wp (bind (attempt (power_on p m)) f) (\<lambda>as r. counted as)"
proof -
  have "counted (PowerOnCall (provider_of m) m r # CountPowerOn (provider_of m) (outcome_label r) # cs)"
    if "list_all calm cs" for r cs
    using counted_calm [OF that] by (simp add: counted_def outcome_label_def)
  then show ?thesis
    unfolding power_on_def by (intro wp_bind wp_attempt wp_call) (auto intro!: wp_mono [OF assms])
qed

lemma report_first:
  "(\<And>v. emits calm (f v)) \<Longrightarrow> wp (bind (tell a) f) (\<lambda>bs r. \<exists>cs. bs = a # cs \<and> list_all calm cs)"
  by (rule wp_bind, rule wp_tell) (auto elim!: emits_wp)

lemma counted_resendPowerOn: "wp (resendPowerOn R m) (\<lambda>as r. counted as)"
proof -
  have "wp (RecordPowerOn (provider_of m) (case r of Inl e \<Rightarrow> Some e | Inr _ \<Rightarrow> None))
      (\<lambda>bs r'. \<exists>cs. bs = CountPowerOn (provider_of m) (outcome_label r) # cs \<and> list_all calm cs)" for r
    unfolding RecordPowerOn_def by (cases r) (auto simp: outcome_label_def intro!: wp_tell)
  then have send: "wp (bind (attempt (power_on p m)) (\<lambda>r.
      RecordPowerOn (provider_of m) (case r of Inl e \<Rightarrow> Some e | Inr _ \<Rightarrow> None))) (\<lambda>as r. counted as)" for p
    by (rule counted_power_on)
  show ?thesis
    unfolding resendPowerOn_def
    by (rule send wp_case_option wp_if counted_bind counted_quiet [OF emits_ret] counted_quiet [OF quiet_pieces(8)])+
qed

lemma counted_wakeMachine: "wp (wakeMachine R m) (\<lambda>as r. counted as)"
  unfolding wakeMachine_def Let_def
proof (intro wp_case_option wp_if counted_power_on, goal_cases)
  case (3 p r)
  show ?case
    by (cases r)
      (auto simp: RecordPowerOn_def outcome_label_def calm_def client_defs intro!: report_first emits_rules)
qed (auto simp: calm_def client_defs intro!: counted_quiet emits_rules)

lemma counted_dispatch: "wp (dispatch R m) (\<lambda>as r. counted as)"
proof -
  have "wp (reconcileOff R m) (\<lambda>as r. counted as)"
    unfolding reconcileOff_def event_def Let_def
    by (intro counted_bind wp_if counted_wakeMachine) (auto simp: calm_def intro!: counted_quiet emits_rules)
  moreover have "wp (reconcileBooting R m) (\<lambda>as r. counted as)"
    unfolding reconcileBooting_def Let_def
    by (intro counted_bind wp_if counted_resendPowerOn) (auto intro!: counted_quiet emits_rules)
  ultimately show ?thesis
    by (cases "state_of m") (auto simp: dispatch_def intro!: counted_quiet emits_rules)
qed

section \<open>Properties\<close>

text \<open>The counter \<^verbatim>\<open>onp_power_on_total\<close> is exact: in every reconcile of a Machine, whatever fails in it, the
  increments of the counter are the calls of the power provider, one for one and in order, under the provider of the
  Machine and with the outcome of the call.\<close>

theorem power_ons_counted:
  "power_counts (actions (machineReconcile R name) w) = power_calls (actions (machineReconcile R name) w)"
proof -
  have "wp (machineReconcile R name) (\<lambda>as r. counted as)"
    unfolding machineReconcile_def event_def get_machine_def Let_def
    by (intro counted_bind wp_case_sum wp_if counted_dispatch) (auto simp: calm_def intro!: counted_quiet emits_rules)
  from wpD [OF this] show ?thesis by (simp add: counted_def)
qed

text \<open>A scrape is well formed: \<^verbatim>\<open>Collect\<close> always returns, every sample it sends has one of the descriptors that
  \<^verbatim>\<open>Describe\<close> announces and as many label values as the descriptor has labels, and no two samples have the same name
  and label values, so that Prometheus neither panics nor rejects the scrape.\<close>

theorem scrape_well_formed:
  "\<exists>ms. result (Collect E) w = Inr ms \<and> well_formed_scrape NewStateCollector ms"
proof -
  have series: "well_formed_scrape NewStateCollector
      (map (\<lambda>((pool, state), n). NodesTotal pool state n) (nodeCounts L pools machines) @ ps)"
    if "ps \<in> {[], [PendingUnschedulable n]}" for L pools machines ps n
  proof -
    let ?c = NewStateCollector and ?counts = "nodeCounts L pools machines"
    have keys: "map (\<lambda>(d, ls, v). (md_name d, ls)) (map (const_metric ?c) (map (\<lambda>((pool, state), n). NodesTotal pool state n) ?counts)) =
        map (\<lambda>k. (md_name (nodesTotal ?c), [fst k, snd k])) (map fst ?counts)"
      by (simp add: case_prod_unfold)
    have "distinct (map (\<lambda>k. (md_name (nodesTotal ?c), [fst k, snd k])) (map fst ?counts))"
      unfolding distinct_map [of _ "map fst ?counts"] using distinct_series by (auto simp: inj_on_def)
    with that show ?thesis
      unfolding well_formed_scrape_def map_append distinct_append keys
      by (auto simp: Describe_def NewStateCollector_def)
  qed
  have pending: "well_formed_scrape NewStateCollector []" "well_formed_scrape NewStateCollector [PendingUnschedulable n]" for n
    by (simp_all add: well_formed_scrape_def Describe_def NewStateCollector_def)
  have "wp (Collect E) (\<lambda>as r. \<exists>ms. r = Inr ms \<and> well_formed_scrape NewStateCollector ms)"
    unfolding Collect_def collectNodes_def collectPending_def client_defs
    using series series [of "[]"] pending by (auto intro!: wp_rules)
  from wpD [OF this] show ?thesis .
qed

end
