(* ===== verification/Api_Server.thy ===== *)
theory Api_Server
  imports Scale_Up Scale_Down Admission
begin

text \<open>
  When things go well: an API server that serves every call, whose caches are up to date and that nobody else
  writes to while a reconcile runs. Such a server is any environment that implements the reference store through an
  abstraction of its world; what is proved of a reconciler over the reference store then holds over it. The
  refinement theorems of the two scaling reconcilers and the power cycle are stated for it.
\<close>

section \<open>Simulation\<close>

named_theorems sim_rules \<open>introduction rules for simulations, one per combinator\<close>

definition mirrors :: "('w \<Rightarrow> 'v) \<Rightarrow> ('w \<Rightarrow> 'r \<times> 'w) \<Rightarrow> ('v \<Rightarrow> 'r \<times> 'v) \<Rightarrow> bool" where
  "mirrors view f g \<longleftrightarrow> (\<forall>w. g (view w) = map_prod id view (f w))"

definition simulates :: "('w \<Rightarrow> 'v) \<Rightarrow> ('w, 'l, 'e, 'a) prog \<Rightarrow> ('v, 'l, 'e, 'a) prog \<Rightarrow> bool" where
  "simulates view p q \<longleftrightarrow> (\<forall>w. q (view w) = map_prod id (map_prod id view) (p w))"

lemma simulatesD:
  assumes "simulates view p q"
  shows "result p w = result q (view w)" and "actions p w = actions q (view w)" and "view (final p w) = final q (view w)"
  using assms by (simp_all add: simulates_def result_def actions_def final_def)

lemma sim_ret [sim_rules]: "simulates view (ret v) (ret v)"
  by (simp add: simulates_def ret_def)

lemma sim_throw [sim_rules]: "simulates view (throw e) (throw e)"
  by (simp add: simulates_def throw_def)

lemma sim_bind [sim_rules]:
  "simulates view p q \<Longrightarrow> (\<And>v. simulates view (f v) (g v)) \<Longrightarrow> simulates view (bind p f) (bind q g)"
  by (auto simp: simulates_def bind_def split: prod.splits sum.splits)

lemma sim_attempt [sim_rules]: "simulates view p q \<Longrightarrow> simulates view (attempt p) (attempt q)"
  by (auto simp: simulates_def attempt_def split: prod.splits)

lemma sim_call [sim_rules]: "mirrors view f g \<Longrightarrow> simulates view (call f l) (call g l)"
  by (auto simp: simulates_def mirrors_def call_def split: prod.splits)

lemma sim_ask [sim_rules]: "mirrors view f g \<Longrightarrow> simulates view (ask f l) (ask g l)"
  by (auto simp: simulates_def mirrors_def ask_def split: prod.splits)

lemma sim_tell [sim_rules]: "simulates view (tell l) (tell l)"
  by (simp add: simulates_def tell_def)

lemma sim_peek [sim_rules]: "(\<And>w. f w = g (view w)) \<Longrightarrow> simulates view (peek f) (peek g)"
  by (simp add: simulates_def peek_def)

lemma sim_map_error [sim_rules]: "simulates view p q \<Longrightarrow> simulates view (map_error h p) (map_error h q)"
  by (auto simp: simulates_def map_error_def split: prod.splits sum.splits)

lemma sim_fold_prog [sim_rules]:
  "(\<And>v x. simulates view (f v x) (g v x)) \<Longrightarrow> simulates view (fold_prog f v xs) (fold_prog g v xs)"
  by (induction xs arbitrary: v) (auto intro: sim_ret sim_bind)

lemma sim_if [sim_rules]:
  "simulates view p p' \<Longrightarrow> simulates view q q' \<Longrightarrow> simulates view (if b then p else q) (if b then p' else q')"
  by simp

lemma sim_case_option [sim_rules]:
  "simulates view p p' \<Longrightarrow> (\<And>v. simulates view (q v) (q' v)) \<Longrightarrow>
   simulates view (case x of None \<Rightarrow> p | Some v \<Rightarrow> q v) (case x of None \<Rightarrow> p' | Some v \<Rightarrow> q' v)"
  by (cases x) simp_all

lemma sim_case_sum [sim_rules]:
  "(\<And>e. simulates view (p e) (p' e)) \<Longrightarrow> (\<And>v. simulates view (q v) (q' v)) \<Longrightarrow>
   simulates view (case x of Inl e \<Rightarrow> p e | Inr v \<Rightarrow> q v) (case x of Inl e \<Rightarrow> p' e | Inr v \<Rightarrow> q' v)"
  by (cases x) simp_all

lemma sim_case_list [sim_rules]:
  "simulates view p p' \<Longrightarrow> (\<And>y ys. simulates view (q y ys) (q' y ys)) \<Longrightarrow>
   simulates view (case x of [] \<Rightarrow> p | y # ys \<Rightarrow> q y ys) (case x of [] \<Rightarrow> p' | y # ys \<Rightarrow> q' y ys)"
  by (cases x) simp_all

lemma sim_case_prod [sim_rules]:
  "(\<And>a b. simulates view (p a b) (q a b)) \<Longrightarrow> simulates view (case x of (a, b) \<Rightarrow> p a b) (case x of (a, b) \<Rightarrow> q a b)"
  by (cases x) simp

lemma sim_case_bool [sim_rules]:
  "simulates view p p' \<Longrightarrow> simulates view q q' \<Longrightarrow>
   simulates view (case b of True \<Rightarrow> p | False \<Rightarrow> q) (case b of True \<Rightarrow> p' | False \<Rightarrow> q')"
  by (cases b) simp_all

text \<open>With a memory the abstraction leaves the memory alone.\<close>

lemma sim_outside [sim_rules]: "simulates view p q \<Longrightarrow> simulates (map_prod id view) (outside p) (outside q)"
  by (auto simp: simulates_def outside_def split: prod.splits)

lemma sim_recall [sim_rules]: "simulates (map_prod id view) recall recall"
  by (simp add: simulates_def recall_def split: prod.splits)

lemma sim_remember [sim_rules]: "simulates (map_prod id view) (remember f) (remember f)"
  by (simp add: simulates_def remember_def split: prod.splits)

section \<open>Environments that implement another\<close>

locale implements =
  fixes E :: "'w env" and M :: "'v env" and view :: "'w \<Rightarrow> 'v"
  assumes lib_same: "env_lib E = env_lib M"
    and now_mirrors: "mirrors view (env_now E) (env_now M)"
    and get_machine_mirrors: "mirrors view (env_get_machine E n) (env_get_machine M n)"
    and get_node_mirrors: "mirrors view (env_get_node E n) (env_get_node M n)"
    and get_pod_mirrors: "mirrors view (env_get_pod E ns n) (env_get_pod M ns n)"
    and get_pool_mirrors: "mirrors view (env_get_pool E rd n) (env_get_pool M rd n)"
    and get_claim_mirrors: "mirrors view (env_get_claim E ns n) (env_get_claim M ns n)"
    and get_volume_mirrors: "mirrors view (env_get_volume E n) (env_get_volume M n)"
    and list_pools_mirrors: "mirrors view (env_list_pools E) (env_list_pools M)"
    and list_machines_on_node_mirrors: "mirrors view (env_list_machines_on_node E n) (env_list_machines_on_node M n)"
    and list_machines_matching_mirrors: "mirrors view (env_list_machines_matching E rd s) (env_list_machines_matching M rd s)"
    and list_pods_on_node_mirrors: "mirrors view (env_list_pods_on_node E rd n) (env_list_pods_on_node M rd n)"
    and update_machine_status_mirrors: "mirrors view (env_update_machine_status E m) (env_update_machine_status M m)"
    and patch_machine_mirrors: "mirrors view (env_patch_machine E orig m) (env_patch_machine M orig m)"
    and patch_machine_status_mirrors: "mirrors view (env_patch_machine_status E orig m) (env_patch_machine_status M orig m)"
    and patch_node_mirrors: "mirrors view (env_patch_node E nd nd') (env_patch_node M nd nd')"
    and patch_pool_status_mirrors: "mirrors view (env_patch_pool_status E porig p) (env_patch_pool_status M porig p)"
    and create_eviction_mirrors: "mirrors view (env_create_eviction E pod ev) (env_create_eviction M pod ev)"
    and conditions_same: "env_set_status_condition E w cs c = env_set_status_condition M (view w) cs c"
begin

lemmas env_mirrors = now_mirrors get_machine_mirrors get_node_mirrors get_pod_mirrors get_pool_mirrors get_claim_mirrors
  get_volume_mirrors list_pools_mirrors list_machines_on_node_mirrors list_machines_matching_mirrors
  list_pods_on_node_mirrors update_machine_status_mirrors patch_machine_mirrors patch_machine_status_mirrors
  patch_node_mirrors patch_pool_status_mirrors create_eviction_mirrors

text \<open>The parts that the reconcilers share.\<close>

lemma sim_client:
  "simulates view (now E) (now M)" "simulates view (since E t) (since M t)"
  "simulates view (get_machine E k) (get_machine M k)" "simulates view (get_node E k) (get_node M k)"
  "simulates view (get_pod E ns k) (get_pod M ns k)" "simulates view (get_pool E rd k) (get_pool M rd k)"
  "simulates view (get_claim E ns k) (get_claim M ns k)" "simulates view (get_volume E k) (get_volume M k)"
  "simulates view (list_pools E) (list_pools M)" "simulates view (list_machines_on_node E k) (list_machines_on_node M k)"
  "simulates view (list_machines_matching E rd s) (list_machines_matching M rd s)"
  "simulates view (list_pods_on_node E rd k) (list_pods_on_node M rd k)"
  "simulates view (update_machine_status E m) (update_machine_status M m)"
  "simulates view (patch_machine E m m') (patch_machine M m m')"
  "simulates view (patch_machine_status E m m') (patch_machine_status M m m')"
  "simulates view (patch_node E nd nd') (patch_node M nd nd')"
  "simulates view (patch_pool_status E p p') (patch_pool_status M p p')"
  "simulates view (event obj ty reason msg) (event obj ty reason msg)"
  "simulates view (setCondition E m ct st reason msg) (setCondition M m ct st reason msg)"
  by (auto simp: client_defs setCondition_def conditions_same intro!: sim_rules env_mirrors)

text \<open>The reconcilers.\<close>

lemmas sim_steps = sim_client sim_rules

lemma sim_scaleUpReconcile: "simulates view (scaleUpReconcile E ns k) (scaleUpReconcile M ns k)"
  unfolding scaleUpReconcile_def poolMemberships_def podVolumeAffinities_def volumeAffinity_def scanPool_def poolMembers_def
    poolAtCap_def countsAgainstCap_def coolingUntil_def scanMember_def backingNode_def boundRequests_def settling_def
    nodeIsReady_def decideScaleUp_def stampScaleUp_def requestWake_def Let_def lib_same
  by (intro sim_steps)

lemma sim_scaleDownReconcile:
  "simulates (map_prod id view) (scaleDownReconcile E k) (scaleDownReconcile M k)"
  unfolding scaleDownReconcile_def scaleDownPass_def applyPoolPolicy_def emptyTimer_def triggerScaleDown_def issueDrain_def
    standDown_def announceHold_def nodeEmpty_def podsKeepingNodeOn_def nodeDoNotDisrupt_def nodeAlwaysOn_def matchingPools_def
    stampEmptySince_def clearEmptySince_def requestDrain_def freshPoolState_def coolingDownUntil_def stampScaleDown_def
    Let_def lib_same
  by (intro sim_steps)

end

text \<open>The Machine reconciler with another environment. Its registry is left out: the provider is not called for the states
  in which it is compared.\<close>

definition over :: "'v env \<Rightarrow> 'w machine_reconciler \<Rightarrow> 'v machine_reconciler" where
  "over M R = \<lparr>mr_env = M, mr_Registry = [], mr_BootTimeout = mr_BootTimeout R, mr_ShutdownTimeout = mr_ShutdownTimeout R,
     mr_NodeLossGracePeriod = mr_NodeLossGracePeriod R, mr_Evict = None\<rparr>"

lemma over_sel [simp]:
  "mr_env (over M R) = M" "mr_ShutdownTimeout (over M R) = mr_ShutdownTimeout R"
  "mr_NodeLossGracePeriod (over M R) = mr_NodeLossGracePeriod R" "mr_Evict (over M R) = None"
  by (simp_all add: over_def)

lemma sim_bind_at:
  assumes "simulates view p q" and "\<And>v as w'. p w = (Inr v, as, w') \<Longrightarrow> simulates view (f v) (g v)"
  shows "bind q g (view w) = map_prod id (map_prod id view) (bind p f w)"
proof -
  obtain r as w' where p: "p w = (r, as, w')" by (cases "p w")
  then have q: "q (view w) = (r, as, view w')" using assms(1) by (simp add: simulates_def)
  show ?thesis
  proof (cases r)
    case (Inr v)
    with p assms(2) have "simulates view (f v) (g v)" by blast
    with p q Inr show ?thesis by (auto simp: bind_def simulates_def split: prod.splits)
  qed (use p q in \<open>simp add: bind_def\<close>)
qed

context implements
begin

lemma sim_machine_parts:
  "simulates view (nodeAlwaysOn E k) (nodeAlwaysOn M k)" "simulates view (nodeIsReady E k) (nodeIsReady M k)"
  "simulates view (backingNode E k) (backingNode M k)" "simulates view (removeDrainAnnotation E m) (removeDrainAnnotation M m)"
  "simulates view (removeWakeAnnotation E m) (removeWakeAnnotation M m)"
  "simulates view (otherMachinesOnNode E m) (otherMachinesOnNode M m)"
  "simulates view (setCordon E k b) (setCordon M k b)" "simulates view (podsKeepingNodeOn E k) (podsKeepingNodeOn M k)"
  "simulates view (nothingKeepsNodeOn E rd k) (nothingKeepsNodeOn M rd k)" "simulates view (drainPolicy E m) (drainPolicy M m)"
  "simulates view (uncordonIfONPCordoned E k) (uncordonIfONPCordoned M k)"
  "simulates view (dropStaleCordonMarker E k) (dropStaleCordonMarker M k)"
  unfolding nodeAlwaysOn_def nodeIsReady_def backingNode_def removeDrainAnnotation_def removeWakeAnnotation_def
    otherMachinesOnNode_def setCordon_def podsKeepingNodeOn_def nothingKeepsNodeOn_def drainPolicy_def poolForMachine_def
    matchingPools_def uncordonIfONPCordoned_def dropStaleCordonMarker_def lib_same
  by (intro sim_steps)+

lemma sim_reconcileReady:
  assumes "mr_env R = E"
  shows "simulates view (reconcileReady R m) (reconcileReady (over M R) m)"
  unfolding reconcileReady_def startDraining_def reconcileReadyNodeLost_def stampNotReadySince_def clearNotReadySince_def
    assms over_sel Let_def
  by (intro sim_steps sim_machine_parts)

lemma sim_reconcileDraining:
  assumes "mr_env R = E" and "mr_Evict R = None"
  shows "simulates view (reconcileDraining R m) (reconcileDraining (over M R) m)"
  unfolding reconcileDraining_def abortDrain_def drainTimedOut_def failDrain_def drainPass_def evictTurn_def evictPod_def
    evictViaSubResource_def enterShuttingDown_def RecordDrainFailure_def assms over_sel Let_def option.case
  by (intro sim_steps sim_machine_parts create_eviction_mirrors)

text \<open>A reconcile that fetches a Ready or Draining Machine.\<close>

lemma sim_machineReconcile:
  assumes "mr_env R = E" and "mr_Evict R = None"
    and "\<And>m. fst (env_get_machine E k w) = Inr m \<Longrightarrow> state_of m \<in> {Ready, Draining}"
  shows "machineReconcile (over M R) k (view w) = map_prod id (map_prod id view) (machineReconcile R k w)"
  unfolding machineReconcile_def assms(1) over_sel Let_def
proof (rule sim_bind_at, goal_cases)
  case 1
  show ?case by (intro sim_steps)
next
  case (2 r as w')
  show ?case
  proof (cases r)
    case (Inr m)
    with 2 have "state_of m \<in> {Ready, Draining}"
      using assms(3) [of m] by (simp add: get_machine_def attempt_def call_def split: prod.splits)
    then have "simulates view (dispatch R m) (dispatch (over M R) m)"
      by (auto simp: dispatch_def intro: sim_reconcileReady [OF assms(1)] sim_reconcileDraining [OF assms(1,2)])
    then show ?thesis by (simp add: Inr) (intro sim_steps sim_machine_parts)
  qed (auto intro: sim_rules)
qed

end

text \<open>An environment implements itself, and beside the log of a network it still does.\<close>

interpretation itself: implements E E id for E
  by unfold_locales (simp_all add: mirrors_def prod.map_id)

interpretation beside_net: implements "beside E" E fst for E
  by unfold_locales (simp_all add: mirrors_def beside_def on_cluster_def split: prod.splits)

lemma mirrors_comp: "mirrors view f g \<Longrightarrow> mirrors view' g h \<Longrightarrow> mirrors (view' \<circ> view) f h"
  by (auto simp: mirrors_def map_prod_def split: prod.splits)

lemma implements_comp:
  assumes "implements E M view" and "implements M M' view'"
  shows "implements E M' (view' \<circ> view)"
proof -
  note one = implements.env_mirrors [OF assms(1)] and two = implements.env_mirrors [OF assms(2)]
  show ?thesis
    by unfold_locales
      ((rule mirrors_comp, rule one, rule two) | simp add: implements.lib_same [OF assms(1)] implements.lib_same [OF assms(2)]
        implements.conditions_same [OF assms(1)] implements.conditions_same [OF assms(2)])+
qed

section \<open>The reference server\<close>

text \<open>The reference store with any helpers of the Kubernetes libraries.\<close>

definition reference :: "lib \<Rightarrow> (world \<Rightarrow> condition list \<Rightarrow> condition \<Rightarrow> condition list) \<Rightarrow> world env" where
  "reference L conds = store_env
     \<lparr>env_lib := L,
      env_list_machines_matching := (\<lambda>rd s w. (case LabelSelectorAsSelector L s of
         Inl e \<Rightarrow> Inl e | Inr f \<Rightarrow> Inr (filter (\<lambda>m. f (m_labels m)) (w_machines w)), w)),
      env_set_status_condition := conds\<rparr>"

lemma reference_sel [simp]:
  "env_lib (reference L conds) = L"
  "env_now (reference L conds) = (\<lambda>w. (w_now w, w))"
  "env_get_machine (reference L conds) n = (\<lambda>w. (found (find (\<lambda>m. m_name m = n) (w_machines w)), w))"
  "env_get_node (reference L conds) n = (\<lambda>w. (found (find (\<lambda>x. node_name x = n) (w_nodes w)), w))"
  "env_get_pod (reference L conds) ns n = (\<lambda>w. (found (find (\<lambda>p. pod_namespace p = ns \<and> pod_name p = n) (w_pods w)), w))"
  "env_get_pool (reference L conds) rd n = (\<lambda>w. (found (find (\<lambda>p. pool_name p = n) (w_pools w)), w))"
  "env_get_claim (reference L conds) ns n = (\<lambda>w. (found (map_of (w_claims w) (ns, n)), w))"
  "env_get_volume (reference L conds) n = (\<lambda>w. (found (map_of (w_volumes w) n), w))"
  "env_list_pools (reference L conds) = (\<lambda>w. (Inr (w_pools w), w))"
  "env_list_machines_on_node (reference L conds) k = (\<lambda>w. (Inr (filter (\<lambda>m. nodeName_of m = k) (w_machines w)), w))"
  "env_list_machines_matching (reference L conds) rd s = (\<lambda>w. (case LabelSelectorAsSelector L s of
     Inl e \<Rightarrow> Inl e | Inr f \<Rightarrow> Inr (filter (\<lambda>m. f (m_labels m)) (w_machines w)), w))"
  "env_list_pods_on_node (reference L conds) rd k = (\<lambda>w. (Inr (filter (\<lambda>p. pod_nodeName p = k) (w_pods w)), w))"
  "env_update_machine_status (reference L conds) m = put_machine m"
  "env_patch_machine (reference L conds) m m' = put_machine m'"
  "env_patch_machine_status (reference L conds) m m' = put_machine m'"
  "env_patch_node (reference L conds) nd nd' = put_node nd'"
  "env_patch_pool_status (reference L conds) p p' = put_pool p'"
  "env_set_status_condition (reference L conds) = conds"
  by (simp_all add: reference_def store_env_def)

text \<open>The reference store is the reference server with its own helpers.\<close>

lemma store_env_reference: "store_env = reference store_lib (env_set_status_condition store_env)"
  by (simp add: reference_def store_env_def store_lib_def store_matching_def)

lemma store_implements: "implements store_env (reference store_lib (env_set_status_condition store_env)) id"
  unfolding store_env_reference [symmetric] by (rule itself.implements_axioms)

lemma found_simps [simp]:
  "found None = Inl (ApiError NotFound [])" "found (Some v) = Inr v" "is_not_found (ApiError NotFound [])"
  by (simp_all add: found_def is_not_found_def)

section \<open>The state of the cluster\<close>

definition node_of :: "world \<Rightarrow> string \<Rightarrow> node option" where
  "node_of S k = (if k = [] then None else find (\<lambda>x. node_name x = k) (w_nodes S))"

definition members :: "lib \<Rightarrow> world \<Rightarrow> nodepool \<Rightarrow> machine list" where
  "members L S p = filter (\<lambda>m. selects L p (m_labels m)) (w_machines S)"

definition at_least_second :: "duration \<Rightarrow> duration" where
  "at_least_second d = (if d < second then second else d)"

text \<open>What the API server guarantees of the objects it stores, and bounds that no cluster reaches.\<close>

definition orderly :: "world \<Rightarrow> bool" where
  "orderly S \<longleftrightarrow> distinct (map m_name (w_machines S)) \<and> distinct (map pool_name (w_pools S)) \<and>
     list_all (\<lambda>p. pool_name p \<noteq> []) (w_pools S) \<and> 0 \<le> w_now S \<and> int (length (w_machines S)) < 2 ^ 31"

lemma map_replace [simp]: "map f (map (\<lambda>x. if f x = f y then y else x) xs) = map f xs"
  by simp

lemma filter_replace:
  assumes "distinct (map f xs)" and "filter P xs = [m]" and "f m' = f m" and "P m'"
  shows "filter P (map (\<lambda>x. if f x = f m' then m' else x) xs) = [m']"
  using assms(1,2)
proof (induction xs)
  case (Cons x xs)
  show ?case
  proof (cases "P x")
    case True
    with Cons.prems have "x = m" and "filter P xs = []" by auto
    moreover have "map (\<lambda>y. if f y = f m' then m' else y) xs = xs"
      using Cons.prems(1) \<open>x = m\<close> assms(3) by (intro map_idI) (force simp: image_iff)
    ultimately show ?thesis using assms(3,4) by simp
  next
    case False
    with Cons.prems have only: "filter P xs = [m]" by simp
    moreover have "m \<in> set xs" using arg_cong [OF only, of set] by auto
    ultimately show ?thesis using Cons False assms(3) by (auto simp: image_iff)
  qed
qed simp

lemma find_replace:
  "find (\<lambda>x. f x = f y) (map (\<lambda>x. if f x = f y then y else x) xs) = (if f y \<in> f ` set xs then Some y else None)"
  by (induction xs) (auto simp: image_iff)

lemma find_distinct: "distinct (map f xs) \<Longrightarrow> x \<in> set xs \<Longrightarrow> find (\<lambda>y. f y = f x) xs = Some x"
  by (induction xs) (auto simp: image_iff)

section \<open>Programs that only read\<close>

text \<open>The program answers \<open>v\<close> in the world \<open>w\<close>, and does nothing but read.\<close>

definition answers :: "('w, 'a) go \<Rightarrow> 'w \<Rightarrow> 'a \<Rightarrow> bool" where
  "answers p w v \<longleftrightarrow> (\<exists>as. list_all is_read as \<and> p w = (Inr v, as, w))"

named_theorems answers_rules \<open>introduction rules for programs that only read\<close>

lemma answers_ret [answers_rules]: "answers (ret v) w v"
  by (simp add: answers_def ret_def)

lemma answers_bind [answers_rules]: "answers p w u \<Longrightarrow> answers (f u) w v \<Longrightarrow> answers (bind p f) w v"
  by (auto simp: answers_def bind_def)

lemma answers_map_error [answers_rules]: "answers p w v \<Longrightarrow> answers (map_error h p) w v"
  by (auto simp: answers_def map_error_def)

lemma answers_call: "f w = (Inr v, w) \<Longrightarrow> is_read (l (Inr v)) \<Longrightarrow> answers (call f l) w v"
  by (auto simp: answers_def call_def)

lemma answers_attempt: "f w = (r, w) \<Longrightarrow> is_read (l r) \<Longrightarrow> answers (attempt (call f l)) w r"
  by (auto simp: answers_def attempt_def call_def)

lemma answers_ask: "f w = (v, w) \<Longrightarrow> is_read (l v) \<Longrightarrow> answers (ask f l) w v"
  by (auto simp: answers_def ask_def)

lemma answers_if [answers_rules]:
  "(b \<Longrightarrow> answers p w v) \<Longrightarrow> (\<not> b \<Longrightarrow> answers q w v') \<Longrightarrow> answers (if b then p else q) w (if b then v else v')"
  by simp

lemma answers_fold_prog [answers_rules]:
  "(\<And>v x. x \<in> set xs \<Longrightarrow> answers (f v x) w (g v x)) \<Longrightarrow> answers (fold_prog f v xs) w (foldl g v xs)"
  by (induction xs arbitrary: v) (auto intro: answers_ret answers_bind)

text \<open>As equations, to evaluate a program over the reference server.\<close>

lemma answers_ret_iff [simp]: "answers (ret u) w v \<longleftrightarrow> u = v"
  by (auto simp: answers_def ret_def)

lemma answers_then: "answers p w u \<Longrightarrow> answers (bind p f) w v \<longleftrightarrow> answers (f u) w v"
  by (auto simp: answers_def bind_def split: prod.splits)

lemma answers_now: "answers (now (reference L conds)) w (w_now w)"
  by (simp add: now_def answers_ask)

lemma answers_since: "answers (since (reference L conds) t) w (time_sub (w_now w) t)"
  unfolding since_def by (rule answers_bind [OF answers_now answers_ret])

lemma answers_gets [simp]:
  "answers (attempt (get_node (reference L conds) k)) S (found (find (\<lambda>x. node_name x = k) (w_nodes S)))"
  "answers (attempt (get_machine (reference L conds) k)) S (found (find (\<lambda>x. m_name x = k) (w_machines S)))"
  "answers (attempt (get_pod (reference L conds) ns k)) S (found (find (\<lambda>p. pod_namespace p = ns \<and> pod_name p = k) (w_pods S)))"
  "answers (attempt (get_claim (reference L conds) ns k)) S (found (map_of (w_claims S) (ns, k)))"
  "answers (attempt (get_volume (reference L conds) k)) S (found (map_of (w_volumes S) k))"
  by (simp_all add: client_defs answers_attempt)

lemma answers_lists [simp]:
  "answers (list_pools (reference L conds)) S (w_pools S)"
  "answers (list_pods_on_node (reference L conds) rd k) S (filter (\<lambda>p. pod_nodeName p = k) (w_pods S))"
  "answers (list_machines_on_node (reference L conds) k) S (filter (\<lambda>m. nodeName_of m = k) (w_machines S))"
  by (simp_all add: client_defs answers_call)

lemmas answers_reads [simp] = answers_gets [THEN answers_then] answers_lists [THEN answers_then]
  answers_now [THEN answers_then] answers_since [THEN answers_then]
  answers_lists [THEN answers_map_error, THEN answers_then]

text \<open>The guards and listings that only read.\<close>

lemma answers_backingNode: "answers (backingNode (reference L conds) k) S (node_of S k)"
  by (cases "find (\<lambda>x. node_name x = k) (w_nodes S)") (simp_all add: backingNode_def node_of_def)

lemma answers_nodeIsReady:
  "answers (nodeIsReady (reference L conds) k) S (case node_of S k of None \<Rightarrow> False | Some nd \<Rightarrow> reportsReady nd)"
  by (cases "find (\<lambda>x. node_name x = k) (w_nodes S)") (simp_all add: nodeIsReady_def node_of_def)

lemma answers_nodeAlwaysOn:
  "answers (nodeAlwaysOn (reference L conds) k) S (case node_of S k of None \<Rightarrow> False | Some nd \<Rightarrow> alwaysOnLabelled nd)"
  by (cases "find (\<lambda>x. node_name x = k) (w_nodes S)") (simp_all add: nodeAlwaysOn_def node_of_def)

lemma answers_matchingPools: "answers (matchingPools (reference L conds) m) S (poolsOf L (w_pools S) m)"
  by (simp add: matchingPools_def)

definition busy_pods :: "world \<Rightarrow> string \<Rightarrow> pod list" where
  "busy_pods S k = (if k = [] then [] else filter (\<lambda>p. pod_nodeName p = k \<and> keepsNodeOn p) (w_pods S))"

lemma answers_podsKeepingNodeOn: "answers (podsKeepingNodeOn (reference L conds) k) S (busy_pods S k)"
  by (simp add: podsKeepingNodeOn_def busy_pods_def conj_commute)

lemma answers_members:
  assumes "LabelSelectorAsSelector L (ps_machineSelector (pool_spec p)) = Inr f"
  shows "answers (poolMembers (reference L conds) p) S (members L S p)"
  unfolding poolMembers_def list_machines_matching_def
  by (rule answers_map_error [OF answers_call]) (simp_all add: assms members_def selects_def)

lemma members_unselectable:
  "LabelSelectorAsSelector L (ps_machineSelector (pool_spec p)) = Inl e \<Longrightarrow> members L S p = []"
  by (simp add: members_def selects_def)

text \<open>What a run comes to: its result, what it did besides reading, and the world it leaves.\<close>

definition effect :: "('w, 'a) go \<Rightarrow> 'w \<Rightarrow> (go_error + 'a) \<times> action list \<times> 'w" where
  "effect p w = (case p w of (r, as, w') \<Rightarrow> (r, filter (\<lambda>a. \<not> is_read a) as, w'))"

lemma effect_iff:
  "effect p w = (r, bs, w') \<longleftrightarrow> result p w = r \<and> filter (\<lambda>a. \<not> is_read a) (actions p w) = bs \<and> final p w = w'"
  by (auto simp: effect_def result_def actions_def final_def split: prod.splits)

lemma effect_answers: "answers p w v \<Longrightarrow> effect p w = (Inr v, [], w)"
  by (auto simp: answers_def effect_def list_all_iff)

lemma effect_ret [simp]: "effect (ret v) w = (Inr v, [], w)"
  by (simp add: effect_def ret_def)

lemma effect_throw [simp]: "effect (throw e) w = (Inl e, [], w)"
  by (simp add: effect_def throw_def)

lemma effect_call: "effect (call f l) w = (case f w of (r, w') \<Rightarrow> (r, if is_read (l r) then [] else [l r], w'))"
  by (simp add: effect_def call_def split: prod.splits)

lemma effect_tell: "effect (tell l) w = (Inr (), if is_read l then [] else [l], w)"
  by (simp add: effect_def tell_def)

lemma effect_map_error_ok: "effect p w = (Inr v, bs, w') \<Longrightarrow> effect (map_error h p) w = (Inr v, bs, w')"
  by (auto simp: effect_def map_error_def split: prod.splits sum.splits)

lemma effect_bind:
  "effect p w = (Inr v, bs, w') \<Longrightarrow> effect (f v) w' = (r, cs, w'') \<Longrightarrow> effect (bind p f) w = (r, bs @ cs, w'')"
  by (auto simp: effect_def bind_def split: prod.splits)

lemma effect_then:
  "effect p w = (Inr v, bs, w') \<Longrightarrow> effect (bind p f) w = (case effect (f v) w' of (r, cs, w'') \<Rightarrow> (r, bs @ cs, w''))"
  by (auto simp: effect_def bind_def split: prod.splits)

lemma effect_bind_ret: "effect p w = (Inr v, bs, w') \<Longrightarrow> effect (bind p (\<lambda>v. ret (f v))) w = (Inr (f v), bs, w')"
  by (auto simp: effect_def bind_def ret_def split: prod.splits)

lemma effect_attempt: "effect p w = (r, bs, w') \<Longrightarrow> effect (attempt p) w = (Inr r, bs, w')"
  by (auto simp: effect_def attempt_def split: prod.splits)

lemma effect_after_answer: "answers p w v \<Longrightarrow> effect (bind p f) w = effect (f v) w"
  using effect_bind [OF effect_answers, of p w v f] by (metis append_Nil prod_cases3)

text \<open>Writes to the reference server replace the object of the same name.\<close>

definition with_machine :: "machine \<Rightarrow> world \<Rightarrow> world" where
  "with_machine m w = w\<lparr>w_machines := map (\<lambda>x. if m_name x = m_name m then m else x) (w_machines w)\<rparr>"

definition with_pool :: "nodepool \<Rightarrow> world \<Rightarrow> world" where
  "with_pool p w = w\<lparr>w_pools := map (\<lambda>x. if pool_name x = pool_name p then p else x) (w_pools w)\<rparr>"

definition with_node :: "node \<Rightarrow> world \<Rightarrow> world" where
  "with_node n w = w\<lparr>w_nodes := map (\<lambda>x. if node_name x = node_name n then n else x) (w_nodes w)\<rparr>"

lemma effect_writes:
  "effect (patch_machine (reference L conds) m m') w = (Inr m', [PatchMachine m m' (Inr m')], with_machine m' w)"
  "effect (patch_machine_status (reference L conds) m m') w = (Inr m', [PatchMachineStatus m m' (Inr m')], with_machine m' w)"
  "effect (update_machine_status (reference L conds) m) w = (Inr m, [UpdateMachineStatus m (Inr m)], with_machine m w)"
  "effect (patch_pool_status (reference L conds) p p') w = (Inr p', [PatchPoolStatus p p' (Inr p')], with_pool p' w)"
  "effect (patch_node (reference L conds) n n') w = (Inr n', [PatchNode n n' (Inr n')], with_node n' w)"
  by (simp_all add: client_defs effect_call effect_tell put_machine_def put_pool_def put_node_def
      with_machine_def with_pool_def with_node_def)

lemma effect_event: "effect (event obj ty reason msg) w = (Inr (), [RecordEvent obj ty reason msg], w)"
  by (simp add: event_def effect_tell)

lemma effect_event_bind:
  "effect (bind (event obj ty reason msg) f) w =
    (case effect (f ()) w of (r, bs, w') \<Rightarrow> (r, RecordEvent obj ty reason msg # bs, w'))"
  using effect_bind [OF effect_event, of f w] by (auto split: prod.splits)

text \<open>With a memory.\<close>

lemma answers_outside: "answers p w v \<Longrightarrow> answers (outside p) (mem, w) v"
  by (auto simp: answers_def outside_def)

lemma effect_outside: "effect p w = (r, bs, w') \<Longrightarrow> effect (outside p) (mem, w) = (r, bs, mem, w')"
  by (auto simp: effect_def outside_def split: prod.splits)

lemma effect_recall_bind [simp]: "effect (bind recall f) (mem, w) = effect (f mem) (mem, w)"
  by (simp add: effect_def bind_def recall_def split: prod.splits)

lemma effect_remember_bind [simp]: "effect (bind (remember g) f) (mem, w) = effect (f ()) (g mem, w)"
  by (simp add: effect_def bind_def remember_def split: prod.splits)

text \<open>An implementation has the effect of the environment it implements.\<close>

lemma simulates_effect:
  assumes "simulates view p q" and "effect q (view w) = (r, bs, v)"
  shows "\<exists>w'. effect p w = (r, bs, w') \<and> view w' = v"
  using simulatesD [OF assms(1), of w] assms(2) by (auto simp: effect_iff)

end
