(* ===== verification/Scale_Up_Spec.thy ===== *)
theory Scale_Up_Spec
  imports Api_Server Scale_Up_Safety
begin

text \<open>
  What the scale-up reconciler promises, as a function of the state of the cluster: which Machine is woken, which wait
  is taken, or why nothing can be done. The walk over pools and members with its accumulated variables and early
  \<^verbatim>\<open>continue\<close>s is shown to decide exactly that.
\<close>

section \<open>The specification\<close>

definition bound_to :: "lib \<Rightarrow> world \<Rightarrow> string \<Rightarrow> resource_list" where
  "bound_to L S k = requests_of L (filter (\<lambda>p. pod_nodeName p = k) (w_pods S))"

text \<open>The node affinities of the volumes that the claims of the Pod are bound to.\<close>

definition volume_affinity :: "world \<Rightarrow> pod \<Rightarrow> volume \<Rightarrow> node_selector list" where
  "volume_affinity S pod vol =
     (case claimOf pod vol of None \<Rightarrow> [] | Some c \<Rightarrow>
       (case map_of (w_claims S) (pod_namespace pod, c) of None \<Rightarrow> [] | Some pvc \<Rightarrow>
         if claim_volumeName pvc = [] then []
         else (case map_of (w_volumes S) (claim_volumeName pvc) of
             Some pv \<Rightarrow> (case pv_nodeAffinity pv of Some (Some ns) \<Rightarrow> [ns] | _ \<Rightarrow> [])
           | None \<Rightarrow> [])))"

definition affinities_of :: "world \<Rightarrow> pod \<Rightarrow> node_selector list" where
  "affinities_of S pod = concat (map (volume_affinity S pod) (pod_volumes pod))"

text \<open>The Pod would fit on the Node that the Machine presents once Ready.\<close>

definition has_room :: "lib \<Rightarrow> world \<Rightarrow> pod \<Rightarrow> wake_candidate \<Rightarrow> bool" where
  "has_room L S pod c \<longleftrightarrow>
     (let k = nodeName_of (wc_machine c)
      in Fits (fit_pod L pod (nodeForMachine L (wc_machine c) (wc_pool c) (node_of S k) (bound_to L S k))
                 [VolumeNodeAffinity L (affinities_of S pod)]))"

definition just_ready :: "lib \<Rightarrow> world \<Rightarrow> machine \<Rightarrow> bool" where
  "just_ready L S m \<longleftrightarrow> state_of m = Ready \<and>
     (case FindStatusCondition L (st_conditions (m_status m)) ConditionReady of
        None \<Rightarrow> False
      | Some c \<Rightarrow> cond_status c = CondTrue \<and> time_sub (w_now S) (cond_lastTransition c) < readySettle)"

definition on_its_way :: "lib \<Rightarrow> world \<Rightarrow> wake_candidate \<Rightarrow> bool" where
  "on_its_way L S c \<longleftrightarrow> isWaking L (wc_machine c) \<or> just_ready L S (wc_machine c)"

text \<open>A Machine that is off, not asked to wake, and belongs to one pool only.\<close>

definition sleeping :: "lib \<Rightarrow> world \<Rightarrow> wake_candidate \<Rightarrow> bool" where
  "sleeping L S c \<longleftrightarrow> state_of (wc_machine c) = Off \<and> \<not> wakeRequested (wc_machine c) \<and>
     length (filter (\<lambda>p. selects L p (m_labels (wc_machine c))) (w_pools S)) \<le> 1"

definition counted :: "world \<Rightarrow> machine \<Rightarrow> bool" where
  "counted S m \<longleftrightarrow> isActive m \<or> state_of m = Failed \<and>
     (case node_of S (nodeName_of m) of None \<Rightarrow> False | Some nd \<Rightarrow> reportsReady nd)"

definition at_cap :: "lib \<Rightarrow> world \<Rightarrow> nodepool \<Rightarrow> bool" where
  "at_cap L S p = (case ps_maxNodes (pool_spec p) of None \<Rightarrow> False
     | Some k \<Rightarrow> k \<le> int (length (filter (counted S) (members L S p))))"

definition cooling :: "world \<Rightarrow> nodepool \<Rightarrow> time option" where
  "cooling S p = (case (cool_scaleUp (ps_cooldown (pool_spec p)), pst_lastScaleUpTime (pool_status p)) of
     (Some cd, Some t) \<Rightarrow> if w_now S < t + cd then Some (t + cd) else None
   | _ \<Rightarrow> None)"

datatype scale_up =
    AwaitWake
  | WakeOne wake_candidate
  | AwaitCooldown time
  | AtCap string
  | NoFit

definition fitting :: "lib \<Rightarrow> world \<Rightarrow> pod \<Rightarrow> wake_candidate list" where
  "fitting L S pod = filter (has_room L S pod)
     (concat (map (\<lambda>p. map (\<lambda>m. \<lparr>wc_machine = m, wc_pool = p\<rparr>) (members L S p)) (w_pools S)))"

definition scaleUpSpec :: "lib \<Rightarrow> world \<Rightarrow> pod \<Rightarrow> scale_up" where
  "scaleUpSpec L S pod =
     (let cs = fitting L S pod;
          off = filter (sleeping L S) cs;
          below = filter (\<lambda>c. \<not> at_cap L S (wc_pool c)) off;
          free = filter (\<lambda>c. cooling S (wc_pool c) = None) below
      in if list_ex (on_its_way L S) cs then AwaitWake
         else if free \<noteq> [] then WakeOne (smallestCandidate L free)
         else if below \<noteq> [] then AwaitCooldown (Min (set (map (\<lambda>c. the (cooling S (wc_pool c))) below)))
         else if off \<noteq> [] then AtCap (pool_name (wc_pool (last off)))
         else NoFit)"

text \<open>What each decision comes to: when the Pod is looked at again, what is done, and the state left.\<close>

fun wait_of :: "world \<Rightarrow> scale_up \<Rightarrow> duration" where
  "wait_of S AwaitWake = 30 * second"
| "wait_of S (WakeOne c) = 30 * second"
| "wait_of S (AwaitCooldown t) = at_least_second (time_sub t (w_now S))"
| "wait_of S (AtCap p) = 60 * second"
| "wait_of S NoFit = 60 * second"

fun deeds :: "world \<Rightarrow> pod \<Rightarrow> scale_up \<Rightarrow> action list" where
  "deeds S pod (WakeOne c) =
     (let m = wc_machine c; p = stamped (wc_pool c) (w_now S)
      in [PatchPoolStatus (wc_pool c) p (Inr p), PatchMachine m (woken m) (Inr (woken m)),
          RecordEvent (MachineObj (m_name m)) Normal ''ScaleUp''
            (Msg ''waking machine %q to schedule pod %s/%s'' [TQuoted (m_name m), TStr (pod_namespace pod), TStr (pod_name pod)]),
          RecordEvent (PodObj (pod_namespace pod) (pod_name pod)) Normal ''ScaleUp''
            (Msg ''waking machine %q to host pod'' [TQuoted (m_name m)])])"
| "deeds S pod (AtCap p) =
     [RecordEvent (PodObj (pod_namespace pod) (pod_name pod)) Warning ''ScaleUpBlocked''
        (Msg ''pool %q is at its maxNodes cap; not waking a node for this pod'' [TQuoted p])]"
| "deeds S pod _ = []"

fun after_scale_up :: "scale_up \<Rightarrow> world \<Rightarrow> world" where
  "after_scale_up (WakeOne c) S = with_machine (woken (wc_machine c)) (with_pool (stamped (wc_pool c) (w_now S)) S)"
| "after_scale_up _ S = S"

section \<open>The reads\<close>

lemma answers_boundRequests: "answers (boundRequests (reference L conds) k) S (bound_to L S k)"
  by (simp add: boundRequests_def bound_to_def requests_of_def)

lemma answers_volumeAffinity:
  "answers (volumeAffinity (reference L conds) pod required vol) S (required @ volume_affinity S pod vol)"
  by (simp add: volumeAffinity_def volume_affinity_def split: option.split)

lemma foldl_append: "foldl (\<lambda>acc x. acc @ f x) acc xs = acc @ concat (map f xs)"
  by (induction xs arbitrary: acc) simp_all

lemma answers_podVolumeAffinities: "answers (podVolumeAffinities (reference L conds) pod) S (affinities_of S pod)"
  using answers_fold_prog [of "pod_volumes pod" "volumeAffinity (reference L conds) pod" S
      "\<lambda>required vol. required @ volume_affinity S pod vol" "[]"]
  by (simp add: podVolumeAffinities_def affinities_of_def answers_volumeAffinity foldl_append)

lemma answers_settling:
  "answers (settling (reference L conds) m) S (just_ready L S m)"
  unfolding settling_def just_ready_def
  by (simp split: option.split)

lemma answers_coolingUntil:
  "answers (coolingUntil (reference L conds) p) S (case cooling S p of None \<Rightarrow> 0 | Some t \<Rightarrow> t)"
  unfolding coolingUntil_def cooling_def
  by (simp split: option.split)

lemma answers_countsAgainstCap: "answers (countsAgainstCap (reference L conds) m) S (counted S m)"
  unfolding countsAgainstCap_def counted_def using answers_nodeIsReady [of L conds "nodeName_of m" S]
  by (auto intro: answers_ret)

text \<open>Counting the members that are on: no wrap-around below \<open>2 ^ 31\<close>.\<close>

lemma foldl_count:
  assumes "0 \<le> n" and "n + int (length ms) < 2 ^ 31"
  shows "foldl (\<lambda>active m. if P m then wrap32 (active + 1) else active) n ms = n + int (length (filter P ms))"
  using assms
proof (induction ms arbitrary: n)
  case (Cons m ms)
  then show ?case using Cons.IH [of "n + 1"] Cons.IH [of n] wrap32_small [of "n + 1"] by auto
qed simp

lemma answers_poolAtCap:
  assumes "orderly S"
  shows "answers (poolAtCap (reference L conds) p (members L S p)) S (at_cap L S p)"
proof -
  have small: "int (length (members L S p)) < 2 ^ 31"
    using assms by (auto simp: orderly_def members_def intro: le_less_trans [OF length_filter_le])
  have count: "answers (fold_prog (\<lambda>active m. bind (countsAgainstCap (reference L conds) m) (\<lambda>counts.
      ret (if counts then wrap32 (active + 1) else active))) 0 (members L S p)) S
    (foldl (\<lambda>active m. if counted S m then wrap32 (active + 1) else active) 0 (members L S p))"
    by (rule answers_fold_prog) (simp add: answers_then [OF answers_countsAgainstCap])
  show ?thesis
    unfolding poolAtCap_def at_cap_def using foldl_count [of 0 "members L S p"] small
    by (auto simp: answers_then [OF count] split: option.split)
qed

text \<open>The memberships count the pools that select a Machine.\<close>

definition membership :: "int gomap \<Rightarrow> machine \<Rightarrow> int" where
  "membership counts m = (case map_of counts (m_name m) of None \<Rightarrow> 0 | Some n \<Rightarrow> n)"

lemma membership_countMembers:
  "membership (countMembers ms counts) m = membership counts m + int (length (filter (\<lambda>x. m_name x = m_name m) ms))"
  by (induction ms counts rule: countMembers.induct) (auto simp: membership_def update_conv')

lemma distinct_names_filter:
  assumes "distinct (map m_name ms)" and "m \<in> set ms"
  shows "filter (\<lambda>x. P x \<and> m_name x = m_name m) ms = (if P m then [m] else [])"
  using assms
proof (induction ms)
  case (Cons x xs)
  then show ?case by (cases "x = m") (auto simp: filter_empty_conv image_iff)
qed simp

lemma membership_members:
  assumes "orderly S" and "m \<in> set (w_machines S)"
  shows "membership (foldl (\<lambda>counts p. countMembers (members L S p) counts) counts ps) m =
    membership counts m + int (length (filter (\<lambda>p. selects L p (m_labels m)) ps))"
  by (induction ps arbitrary: counts)
    (use assms in \<open>auto simp: membership_countMembers members_def distinct_names_filter orderly_def\<close>)

lemma answers_poolMemberships:
  "answers (poolMemberships (reference L conds) ps) S (foldl (\<lambda>counts p. countMembers (members L S p) counts) [] ps)"
proof -
  have "answers (case LabelSelectorAsSelector (env_lib (reference L conds)) (ps_machineSelector (pool_spec p)) of
        Inl e \<Rightarrow> ret counts
      | Inr _ \<Rightarrow> bind (poolMembers (reference L conds) p) (\<lambda>ms. ret (countMembers ms counts)))
      S (countMembers (members L S p) counts)" for counts p
    by (auto simp: members_unselectable answers_then [OF answers_members] split: sum.split)
  then show ?thesis unfolding poolMemberships_def by (rule answers_fold_prog)
qed

section \<open>The walk\<close>

text \<open>One turn of the loops, without the reads.\<close>

definition scan_turn :: "lib \<Rightarrow> world \<Rightarrow> scan \<Rightarrow> wake_candidate \<Rightarrow> scan" where
  "scan_turn L S sc c =
     (if on_its_way L S c then sc\<lparr>sc_wakeInFlight := True\<rparr>
      else if \<not> sleeping L S c then sc
      else if at_cap L S (wc_pool c) then sc\<lparr>sc_maxedPool := pool_name (wc_pool c)\<rparr>
      else (case cooling S (wc_pool c) of
          Some t \<Rightarrow> if sc_coolingUntil sc = 0 \<or> t < sc_coolingUntil sc then sc\<lparr>sc_coolingUntil := t\<rparr> else sc
        | None \<Rightarrow> sc\<lparr>sc_candidates := sc_candidates sc @ [c]\<rparr>))"

lemma cooling_later: "orderly S \<Longrightarrow> cooling S p = Some t \<Longrightarrow> 0 < t"
  by (auto simp: orderly_def cooling_def split: option.splits if_splits)

lemma answers_scanMember:
  assumes "orderly S" and "m \<in> set (members L S p)"
  shows "answers (scanMember (reference L conds) pod (affinities_of S pod)
      (foldl (\<lambda>counts p. countMembers (members L S p) counts) [] (w_pools S)) p (at_cap L S p)
      (case cooling S p of None \<Rightarrow> 0 | Some t \<Rightarrow> t) sc m) S
    (if has_room L S pod \<lparr>wc_machine = m, wc_pool = p\<rparr> then scan_turn L S sc \<lparr>wc_machine = m, wc_pool = p\<rparr> else sc)"
proof -
  let ?counts = "foldl (\<lambda>counts p. countMembers (members L S p) counts) [] (w_pools S)"
  have "m \<in> set (w_machines S)" using assms(2) by (simp add: members_def)
  from membership_members [OF assms(1) this, of L "[]" "w_pools S"]
  have counts: "(case map_of ?counts (m_name m) of None \<Rightarrow> 0 | Some n \<Rightarrow> n) =
      int (length (filter (\<lambda>q. selects L q (m_labels m)) (w_pools S)))"
    by (simp add: membership_def)
  have flight: "answers (if isWaking L m then ret True else settling (reference L conds) m) S
      (on_its_way L S \<lparr>wc_machine = m, wc_pool = p\<rparr>)"
    using answers_settling [of L conds m S] by (simp add: on_its_way_def)
  note run = answers_then [OF answers_backingNode] answers_then [OF answers_boundRequests] answers_then [OF flight]
    has_room_def Let_def counts scan_turn_def sleeping_def is_zero_time_def
  show ?thesis
  proof (cases "cooling S p")
    case None
    then show ?thesis unfolding scanMember_def reference_sel by (simp add: run)
  next
    case (Some t)
    with cooling_later [OF assms(1) Some] show ?thesis unfolding scanMember_def reference_sel by (simp add: run)
  qed
qed

lemma foldl_concat_map: "foldl (\<lambda>acc p. foldl g acc (f p)) acc ps = foldl g acc (concat (map f ps))"
  by (induction ps arbitrary: acc) simp_all

lemma foldl_filter: "foldl (\<lambda>acc x. if P x then g acc x else acc) acc xs = foldl g acc (filter P xs)"
  by (induction xs arbitrary: acc) simp_all

lemma foldl_map_eq: "foldl g acc (map f xs) = foldl (\<lambda>acc x. g acc (f x)) acc xs"
  by (induction xs arbitrary: acc) simp_all

lemma answers_scanPool:
  assumes "orderly S"
  shows "answers (scanPool (reference L conds) pod (affinities_of S pod)
      (foldl (\<lambda>counts p. countMembers (members L S p) counts) [] (w_pools S)) sc p) S
    (foldl (\<lambda>sc c. if has_room L S pod c then scan_turn L S sc c else sc) sc
      (map (\<lambda>m. \<lparr>wc_machine = m, wc_pool = p\<rparr>) (members L S p)))"
proof (cases "LabelSelectorAsSelector L (ps_machineSelector (pool_spec p))")
  case (Inl e)
  then show ?thesis by (simp add: scanPool_def members_unselectable)
next
  case (Inr f)
  have "answers (fold_prog (scanMember (reference L conds) pod (affinities_of S pod)
        (foldl (\<lambda>counts p. countMembers (members L S p) counts) [] (w_pools S)) p (at_cap L S p)
        (case cooling S p of None \<Rightarrow> 0 | Some t \<Rightarrow> t)) sc (members L S p)) S
      (foldl (\<lambda>sc m. if has_room L S pod \<lparr>wc_machine = m, wc_pool = p\<rparr>
        then scan_turn L S sc \<lparr>wc_machine = m, wc_pool = p\<rparr> else sc) sc (members L S p))"
    by (rule answers_fold_prog) (rule answers_scanMember [OF assms])
  then show ?thesis
    by (simp add: scanPool_def Inr answers_then [OF answers_members [OF Inr]] answers_then [OF answers_poolAtCap [OF assms]]
        answers_then [OF answers_coolingUntil] foldl_map_eq)
qed

lemma answers_scan:
  assumes "orderly S"
  shows "answers (fold_prog (scanPool (reference L conds) pod (affinities_of S pod)
      (foldl (\<lambda>counts p. countMembers (members L S p) counts) [] (w_pools S))) emptyScan (w_pools S)) S
    (foldl (scan_turn L S) emptyScan (fitting L S pod))"
proof -
  have "answers (fold_prog (scanPool (reference L conds) pod (affinities_of S pod)
      (foldl (\<lambda>counts p. countMembers (members L S p) counts) [] (w_pools S))) emptyScan (w_pools S)) S
    (foldl (\<lambda>sc p. foldl (\<lambda>sc c. if has_room L S pod c then scan_turn L S sc c else sc) sc
      (map (\<lambda>m. \<lparr>wc_machine = m, wc_pool = p\<rparr>) (members L S p))) emptyScan (w_pools S))"
    by (rule answers_fold_prog) (rule answers_scanPool [OF assms])
  then show ?thesis by (simp add: foldl_concat_map foldl_filter fitting_def filter_concat comp_def)
qed

definition earliest :: "time list \<Rightarrow> time" where
  "earliest ts = (if ts = [] then 0 else Min (set ts))"

lemma earliest_snoc:
  assumes "\<And>u. u \<in> set ts \<Longrightarrow> 0 < u"
  shows "earliest (ts @ [t]) = (if earliest ts = 0 \<or> t < earliest ts then t else earliest ts)"
proof (cases "ts = []")
  case False
  obtain u where u: "Min (set ts) = u" and "0 < u" using False assms by simp
  moreover have "Min (set (ts @ [t])) = min t u" using False u by simp
  ultimately show ?thesis using False by (auto simp: earliest_def min_def)
qed (simp add: earliest_def)

text \<open>What the variables of the loops hold at the end.\<close>

definition summary :: "lib \<Rightarrow> world \<Rightarrow> wake_candidate list \<Rightarrow> scan" where
  "summary L S cs =
     (let off = filter (sleeping L S) cs;
          full = filter (\<lambda>c. at_cap L S (wc_pool c)) off;
          below = filter (\<lambda>c. \<not> at_cap L S (wc_pool c)) off;
          waits = List.map_filter (\<lambda>c. cooling S (wc_pool c)) below
      in \<lparr>sc_candidates = filter (\<lambda>c. cooling S (wc_pool c) = None) below,
          sc_wakeInFlight = list_ex (on_its_way L S) cs,
          sc_maxedPool = (if full = [] then [] else pool_name (wc_pool (last full))),
          sc_coolingUntil = earliest waits\<rparr>)"

lemma on_its_way_awake: "on_its_way L S c \<Longrightarrow> \<not> sleeping L S c"
  by (auto simp: on_its_way_def sleeping_def just_ready_def isWaking_def split: if_splits)

lemma map_filter_snoc: "List.map_filter f (xs @ [x]) = List.map_filter f xs @ (case f x of None \<Rightarrow> [] | Some y \<Rightarrow> [y])"
  by (simp add: map_filter_def split: option.split)

lemma scan_summary:
  assumes "orderly S"
  shows "foldl (scan_turn L S) emptyScan cs = summary L S cs"
proof (induction cs rule: rev_induct)
  case Nil
  then show ?case by (simp add: summary_def emptyScan_def map_filter_simps earliest_def)
next
  case (snoc c cs)
  let ?waits = "List.map_filter (\<lambda>c. cooling S (wc_pool c))
    (filter (\<lambda>c. \<not> at_cap L S (wc_pool c)) (filter (sleeping L S) cs))"
  have "0 < t" if "t \<in> set ?waits" for t
    using that cooling_later [OF assms] by (auto simp: map_filter_def)
  note later = earliest_snoc [of ?waits, OF this]
  show ?case
    using snoc later
    by (auto simp: summary_def Let_def scan_turn_def map_filter_snoc dest: on_its_way_awake split: option.split)
qed

lemma below_waits:
  assumes "filter (\<lambda>c. cooling S (wc_pool c) = None) cs = []"
  shows "List.map_filter (\<lambda>c. cooling S (wc_pool c)) cs = map (\<lambda>c. the (cooling S (wc_pool c))) cs"
  using assms by (induction cs) (auto simp: map_filter_simps split: if_splits option.splits)

lemma earliest_cooling:
  assumes "orderly S" and "filter (\<lambda>c. cooling S (wc_pool c) = None) cs = []" and "cs \<noteq> []"
  shows "earliest (List.map_filter (\<lambda>c. cooling S (wc_pool c)) cs) = Min (set (map (\<lambda>c. the (cooling S (wc_pool c))) cs))"
    and "0 < Min (set (map (\<lambda>c. the (cooling S (wc_pool c))) cs))"
proof -
  note waits = below_waits [OF assms(2)]
  show "earliest (List.map_filter (\<lambda>c. cooling S (wc_pool c)) cs) = Min (set (map (\<lambda>c. the (cooling S (wc_pool c))) cs))"
    using assms(3) by (simp add: waits earliest_def)
  have "Min (set (map (\<lambda>c. the (cooling S (wc_pool c))) cs)) \<in> set (List.map_filter (\<lambda>c. cooling S (wc_pool c)) cs)"
    unfolding waits using assms(3) by (intro Min_in) simp_all
  then show "0 < Min (set (map (\<lambda>c. the (cooling S (wc_pool c))) cs))"
    using cooling_later [OF assms(1)] by (auto simp: map_filter_def)
qed

lemma effect_wake:
  "effect (bind (stampScaleUp (reference L conds) p) (\<lambda>_. bind (requestWake (reference L conds) m) f)) S =
    (case effect (f (woken m)) (with_machine (woken m) (with_pool (stamped p (w_now S)) S)) of (r, bs, w) \<Rightarrow>
      (r, [PatchPoolStatus p (stamped p (w_now S)) (Inr (stamped p (w_now S))), PatchMachine m (woken m) (Inr (woken m))] @ bs, w))"
proof -
  have stamp: "effect (stampScaleUp (reference L conds) p) S =
      (Inr (stamped p (w_now S)), [PatchPoolStatus p (stamped p (w_now S)) (Inr (stamped p (w_now S)))], with_pool (stamped p (w_now S)) S)"
    unfolding stampScaleUp_def effect_after_answer [OF answers_now] stamped_def
    by (rule effect_map_error_ok, rule effect_writes)
  have request: "effect (requestWake (reference L conds) m) w = (Inr (woken m), [PatchMachine m (woken m) (Inr (woken m))], with_machine (woken m) w)" for w
    unfolding requestWake_def woken_def by (rule effect_map_error_ok, rule effect_writes)
  show ?thesis
    by (simp add: effect_then [OF stamp] effect_then [OF request] split: prod.split)
qed

lemma effect_decide:
  assumes "orderly S"
  shows "effect (decideScaleUp (reference L conds) pod (summary L S (fitting L S pod))) S =
    (let d = scaleUpSpec L S pod in (Inr (RequeueAfter (wait_of S d)), deeds S pod d, after_scale_up d S))"
proof -
  define cs where "cs = fitting L S pod"
  define off where "off = filter (sleeping L S) cs"
  define below where "below = filter (\<lambda>c. \<not> at_cap L S (wc_pool c)) off"
  define free where "free = filter (\<lambda>c. cooling S (wc_pool c) = None) below"
  define full where "full = filter (\<lambda>c. at_cap L S (wc_pool c)) off"
  have sum: "summary L S cs = \<lparr>sc_candidates = free, sc_wakeInFlight = list_ex (on_its_way L S) cs,
      sc_maxedPool = (if full = [] then [] else pool_name (wc_pool (last full))),
      sc_coolingUntil = earliest (List.map_filter (\<lambda>c. cooling S (wc_pool c)) below)\<rparr>"
    by (simp add: summary_def Let_def free_def below_def off_def full_def)
  have spec: "scaleUpSpec L S pod = (if list_ex (on_its_way L S) cs then AwaitWake
      else if free \<noteq> [] then WakeOne (smallestCandidate L free)
      else if below \<noteq> [] then AwaitCooldown (Min (set (map (\<lambda>c. the (cooling S (wc_pool c))) below)))
      else if off \<noteq> [] then AtCap (pool_name (wc_pool (last off))) else NoFit)"
    by (simp add: scaleUpSpec_def Let_def free_def below_def off_def cs_def)
  consider "list_ex (on_its_way L S) cs" | "\<not> list_ex (on_its_way L S) cs" "free \<noteq> []"
    | "\<not> list_ex (on_its_way L S) cs" "free = []" "below \<noteq> []"
    | "\<not> list_ex (on_its_way L S) cs" "free = []" "below = []"
    by blast
  then show ?thesis
  proof cases
    case 1
    then show ?thesis
      unfolding cs_def [symmetric] sum spec by (simp add: decideScaleUp_def scaleUpRequeue_def)
  next
    case 2
    then show ?thesis
      unfolding cs_def [symmetric] sum spec
      by (simp add: decideScaleUp_def Let_def effect_wake effect_event_bind scaleUpRequeue_def reasonScaleUp_def)
        (simp add: woken_def set_annotations_def)
  next
    case 3
    define t where "t = Min (set (map (\<lambda>c. the (cooling S (wc_pool c))) below))"
    have "earliest (List.map_filter (\<lambda>c. cooling S (wc_pool c)) below) = t" "0 < t"
      unfolding t_def by (rule earliest_cooling [OF assms 3(2) [unfolded free_def] 3(3)])+
    then show ?thesis
      using 3 unfolding cs_def [symmetric] sum spec t_def [symmetric]
      by (simp add: decideScaleUp_def effect_after_answer [OF answers_now] Let_def is_zero_time_def minCooldownRequeue_def
          at_least_second_def)
  next
    case 4
    then have "full = off" by (auto simp: full_def below_def filter_empty_conv filter_id_conv)
    moreover have "pool_name (wc_pool (last off)) \<noteq> []" if "off \<noteq> []"
      using last_in_set [OF that] assms by (auto simp: off_def cs_def fitting_def orderly_def list_all_iff)
    ultimately show ?thesis
      using 4 unfolding cs_def [symmetric] sum spec
      by (simp add: decideScaleUp_def effect_event_bind earliest_def map_filter_simps is_zero_time_def noFitRequeue_def
          reasonScaleUpBlocked_def)
  qed
qed

lemma effect_scaleUpReconcile:
  assumes "orderly S" and "find (\<lambda>p. pod_namespace p = ns \<and> pod_name p = name) (w_pods S) = Some pod"
    and "pod_deletionTimestamp pod = None" and "isScaleUpCandidate pod"
  shows "effect (scaleUpReconcile (reference L conds) ns name) S =
    (let d = scaleUpSpec L S pod in (Inr (RequeueAfter (wait_of S d)), deeds S pod d, after_scale_up d S))"
proof -
  note reads = answers_gets(3) answers_lists(1) [THEN answers_map_error] answers_poolMemberships answers_podVolumeAffinities
    answers_scan [OF assms(1)]
  show ?thesis
    unfolding scaleUpReconcile_def effect_decide [OF assms(1), of L conds pod, symmetric]
    by (simp add: effect_after_answer [OF reads(1)] effect_after_answer [OF reads(2)] effect_after_answer [OF reads(3)]
        effect_after_answer [OF reads(4)] effect_after_answer [OF reads(5)] scan_summary assms)
qed

section \<open>Refinement\<close>

lemma scale_up_effect:
  assumes "implements E (reference L conds) view" and "orderly (view w)"
    and "find (\<lambda>p. pod_namespace p = ns \<and> pod_name p = name) (w_pods (view w)) = Some pod"
    and "pod_deletionTimestamp pod = None" and "isScaleUpCandidate pod"
  shows "let d = scaleUpSpec L (view w) pod in
    result (scaleUpReconcile E ns name) w = Inr (RequeueAfter (wait_of (view w) d)) \<and>
    filter (\<lambda>a. \<not> is_read a) (actions (scaleUpReconcile E ns name) w) = deeds (view w) pod d \<and>
    view (final (scaleUpReconcile E ns name) w) = after_scale_up d (view w)"
  using simulates_effect [OF implements.sim_scaleUpReconcile [OF assms(1)]
      effect_scaleUpReconcile [OF assms(2-), of L conds, unfolded Let_def]]
  by (auto simp: effect_iff Let_def)

text \<open>C7. The scale-up reconciler refines its specification: over an API server that serves every call, a reconcile of an
  unschedulable pending Pod decides what the function of the state of the cluster says. It waits for a Machine that is on
  its way and would fit; otherwise it wakes the smallest sleeping Machine that fits in a pool below its cap and not
  cooling down; otherwise it waits for the first cooldown to end; otherwise it reports a full pool; otherwise it looks
  again later. It writes nothing else.\<close>

theorem scale_up_refines:
  assumes "implements E (reference L conds) view" and "orderly (view w)"
    and "find (\<lambda>p. pod_namespace p = ns \<and> pod_name p = name) (w_pods (view w)) = Some pod"
    and "pod_deletionTimestamp pod = None" and "isScaleUpCandidate pod"
  shows "let d = scaleUpSpec L (view w) pod in
    result (scaleUpReconcile E ns name) w = Inr (RequeueAfter (wait_of (view w) d)) \<and>
    filter (\<lambda>a. \<not> is_read a) (actions (scaleUpReconcile E ns name) w) = deeds (view w) pod d \<and>
    view (final (scaleUpReconcile E ns name) w) = after_scale_up d (view w)"
  using scale_up_effect [OF assms] .

theorem scale_up_refines_witness:
  "scaleUpSpec store_lib pending_world pending_pod = WakeOne \<lparr>wc_machine = sample_machine ''m'' ''n'' Off, wc_pool = sample_pool ''a'' True\<rparr> \<and>
   result (scaleUpReconcile store_env ''default'' ''p'') pending_world = Inr (RequeueAfter (30 * second)) \<and>
   w_machines (final (scaleUpReconcile store_env ''default'' ''p'') pending_world) = [woken (sample_machine ''m'' ''n'' Off)]"
proof -
  let ?c = "\<lparr>wc_machine = sample_machine ''m'' ''n'' Off, wc_pool = sample_pool ''a'' True\<rparr>"
  have spec: "scaleUpSpec store_lib pending_world pending_pod = WakeOne ?c" by code_simp
  have pod: "find (\<lambda>p. pod_namespace p = ''default'' \<and> pod_name p = ''p'') (w_pods (id pending_world)) = Some pending_pod"
    "pod_deletionTimestamp pending_pod = None" "isScaleUpCandidate pending_pod" by code_simp+
  have "orderly (id pending_world)" by code_simp
  from scale_up_refines [OF store_implements this pod]
  have "result (scaleUpReconcile store_env ''default'' ''p'') pending_world = Inr (RequeueAfter (30 * second))"
    and "final (scaleUpReconcile store_env ''default'' ''p'') pending_world = after_scale_up (WakeOne ?c) pending_world"
    unfolding id_apply spec Let_def wait_of.simps by blast+
  moreover have "w_machines (after_scale_up (WakeOne ?c) pending_world) = [woken (sample_machine ''m'' ''n'' Off)]" by code_simp
  ultimately show ?thesis using spec by simp
qed

end
