(* ===== verification/Scale_Down_Spec.thy ===== *)
theory Scale_Down_Spec
  imports Api_Server Scale_Down_Safety
begin

text \<open>
  What the scale-down reconciler promises, as a function of the state of the cluster: stand down, start or await the
  timer of an empty Node, hold, or drain. The reconciler, with its second look past the cache and its memory of announced
  holds, is shown to do exactly that.
\<close>

section \<open>The specification\<close>

text \<open>The owner of the Node exempted it from automatic scale-down.\<close>

definition exempt :: "world \<Rightarrow> machine \<Rightarrow> bool" where
  "exempt S m = (case node_of S (nodeName_of m) of None \<Rightarrow> False
     | Some nd \<Rightarrow> disruptionRefused nd \<or> alwaysOnLabelled nd)"

definition cooling_down :: "world \<Rightarrow> nodepool \<Rightarrow> time option" where
  "cooling_down S p = (case (cool_scaleDown (ps_cooldown (pool_spec p)), pst_lastScaleDownTime (pool_status p)) of
     (Some cd, Some t) \<Rightarrow> if w_now S < t + cd then Some (t + cd) else None
   | _ \<Rightarrow> None)"

datatype scale_down =
    Ignore
  | StandDown
  | Conflict message
  | StartTimer duration
  | AwaitTimer duration
  | Hold message
  | Drain nodepool duration

text \<open>The guards of the pool, once the Node has been empty for long enough.\<close>

definition drainSpec :: "lib \<Rightarrow> world \<Rightarrow> machine \<Rightarrow> nodepool \<Rightarrow> duration \<Rightarrow> scale_down" where
  "drainSpec L S m p after =
     (let kept = int (length (filter keeps_floor (members L S p)));
          going = int (length (filter isScalingDown (members L S p)))
      in case cooling_down S p of
           Some t \<Rightarrow> AwaitTimer (at_least_second (time_sub t (w_now S)))
         | None \<Rightarrow>
             if kept \<le> ps_minNodes (pool_spec p) then
               Hold (Msg ''not draining node %q: pool %q at its minNodes floor (%d kept on, min %d)''
                 [TQuoted (nodeName_of m), TQuoted (pool_name p), TInt kept, TInt (ps_minNodes (pool_spec p))])
             else if maxConcurrentOf p \<le> going then
               Hold (Msg ''deferring drain of node %q: pool %q already draining %d (maxConcurrent %d)''
                 [TQuoted (nodeName_of m), TQuoted (pool_name p), TInt going, TInt (maxConcurrentOf p)])
             else Drain p after)"

definition scaleDownSpec :: "lib \<Rightarrow> world \<Rightarrow> machine \<Rightarrow> scale_down" where
  "scaleDownSpec L S m =
     (if state_of m \<noteq> Ready then StandDown
      else if drainRequested m then Ignore
      else if exempt S m then StandDown
      else (case poolsOf L (w_pools S) m of
          [] \<Rightarrow> StandDown
        | [p] \<Rightarrow>
            (case consolidateAfter (Some p) of
               (_, False) \<Rightarrow> StandDown
             | (after, True) \<Rightarrow>
                 if busy_pods S (nodeName_of m) \<noteq> [] then StandDown
                 else (case st_emptySince (m_status m) of
                     None \<Rightarrow> StartTimer after
                   | Some t \<Rightarrow>
                       if time_sub (w_now S) t < after
                       then AwaitTimer (at_least_second (dur_sub after (time_sub (w_now S) t)))
                       else drainSpec L S m p after))
        | pools \<Rightarrow> Conflict (Msg ''Machine %q matches %d NodePools (%s); holding automatic scale-down until the overlap is resolved''
            [TQuoted (m_name m), TInt (int (length pools)), TStr (poolNames pools)])))"

text \<open>What each decision comes to. A hold is announced unless it was announced already.\<close>

fun again :: "scale_down \<Rightarrow> requeue" where
  "again (StartTimer d) = RequeueAfter d"
| "again (AwaitTimer d) = RequeueAfter d"
| "again (Hold msg) = RequeueAfter (30 * second)"
| "again _ = NoRequeue"

fun hold_of :: "scale_down \<Rightarrow> (event_type \<times> string \<times> message) option" where
  "hold_of (Conflict msg) = Some (Warning, ''PoolConflict'', msg)"
| "hold_of (Hold msg) = Some (Normal, ''ScaleDownBlocked'', msg)"
| "hold_of _ = None"

definition announced :: "message gomap \<Rightarrow> machine \<Rightarrow> scale_down \<Rightarrow> action list" where
  "announced holds m d =
     (case hold_of d of None \<Rightarrow> []
      | Some (ty, reason, msg) \<Rightarrow>
          if map_of holds (m_name m) = Some msg then [] else [RecordEvent (MachineObj (m_name m)) ty reason msg])"

definition remembered :: "message gomap \<Rightarrow> machine \<Rightarrow> scale_down \<Rightarrow> scaledown_memory" where
  "remembered holds m d =
     (case hold_of d of
        None \<Rightarrow> \<lparr>sd_holds = AList.delete (m_name m) holds, sd_heldThisPass = False\<rparr>
      | Some (ty, reason, msg) \<Rightarrow>
          \<lparr>sd_holds = (if map_of holds (m_name m) = Some msg then holds else AList.update (m_name m) msg holds),
           sd_heldThisPass = True\<rparr>)"

definition timed :: "time option \<Rightarrow> machine \<Rightarrow> machine" where
  "timed t m = update_status (\<lambda>s. s\<lparr>st_emptySince := t\<rparr>) m"

text \<open>The patches, each with the object it leaves in the store.\<close>

definition clears :: "machine \<Rightarrow> bool" where
  "clears m \<longleftrightarrow> st_emptySince (m_status m) \<noteq> None"

fun patches :: "world \<Rightarrow> machine \<Rightarrow> scale_down \<Rightarrow> action list" where
  "patches S m (StartTimer d) = (let m' = timed (Some (w_now S)) m in [PatchMachineStatus m m' (Inr m')])"
| "patches S m (Drain p d) =
     (let p' = down_stamped p (w_now S); m' = drained m
      in [PatchPoolStatus p p' (Inr p'), PatchMachine m m' (Inr m'),
          RecordEvent (MachineObj (m_name m)) Normal ''ScaleDown''
            (Msg ''node %q empty for %s; draining and powering off'' [TQuoted (nodeName_of m), TDur d])])"
| "patches S m StandDown = (if clears m then [PatchMachineStatus m (timed None m) (Inr (timed None m))] else [])"
| "patches S m (Conflict msg) = (if clears m then [PatchMachineStatus m (timed None m) (Inr (timed None m))] else [])"
| "patches S m _ = []"

fun after_scale_down :: "machine \<Rightarrow> scale_down \<Rightarrow> world \<Rightarrow> world" where
  "after_scale_down m (StartTimer d) S = with_machine (timed (Some (w_now S)) m) S"
| "after_scale_down m (Drain p d) S = with_machine (drained m) (with_pool (down_stamped p (w_now S)) S)"
| "after_scale_down m StandDown S = (if clears m then with_machine (timed None m) S else S)"
| "after_scale_down m (Conflict msg) S = (if clears m then with_machine (timed None m) S else S)"
| "after_scale_down m _ S = S"

section \<open>The parts\<close>

text \<open>The memory as the pass leaves it, and what the pass comes to for a decision.\<close>

definition noted :: "machine \<Rightarrow> message \<Rightarrow> scaledown_memory \<Rightarrow> scaledown_memory" where
  "noted m msg mem = mem\<lparr>sd_heldThisPass := True,
     sd_holds := (if map_of (sd_holds mem) (m_name m) = Some msg then sd_holds mem
       else AList.update (m_name m) msg (sd_holds mem))\<rparr>"

definition pass_effect ::
  "world \<Rightarrow> scaledown_memory \<Rightarrow> machine \<Rightarrow> scale_down \<Rightarrow> (go_error + requeue) \<times> action list \<times> scaledown_memory \<times> world" where
  "pass_effect S mem m d = (Inr (again d), announced (sd_holds mem) m d @ patches S m d,
     (case hold_of d of None \<Rightarrow> mem | Some (ty, reason, msg) \<Rightarrow> noted m msg mem), after_scale_down m d S)"

lemma effect_announceHold:
  assumes "effect (f ()) (noted m msg mem, S) = (r, bs, w)"
  shows "effect (bind (announceHold m ty reason msg) f) (mem, S) =
    (r, (if map_of (sd_holds mem) (m_name m) = Some msg then [] else [RecordEvent (MachineObj (m_name m)) ty reason msg]) @ bs, w)"
proof -
  have "effect (announceHold m ty reason msg) (mem, S) = (Inr (),
      (if map_of (sd_holds mem) (m_name m) = Some msg then [] else [RecordEvent (MachineObj (m_name m)) ty reason msg]),
      noted m msg mem, S)"
    using effect_outside [OF effect_event]
    by (auto simp: announceHold_def noted_def)
  from effect_bind [OF this, of f] assms show ?thesis by blast
qed

lemma effect_standDown:
  "effect (standDown (reference L conds) m) (mem, S) =
    (Inr NoRequeue, patches S m StandDown, mem, after_scale_down m StandDown S)"
proof -
  have clear: "effect (clearEmptySince (reference L conds) m) S = (Inr (if clears m then timed None m else m),
      patches S m StandDown, after_scale_down m StandDown S)"
    by (auto simp: clearEmptySince_def clears_def timed_def effect_writes intro!: effect_map_error_ok)
  have "effect (bind (clearEmptySince (reference L conds) m) (\<lambda>_. ret NoRequeue)) S =
      (Inr NoRequeue, patches S m StandDown, after_scale_down m StandDown S)"
    by (rule effect_bind_ret [OF clear])
  then show ?thesis unfolding standDown_def by (rule effect_outside)
qed

lemma answers_nodeDoNotDisrupt:
  "answers (nodeDoNotDisrupt (reference L conds) k) S (case node_of S k of None \<Rightarrow> False | Some nd \<Rightarrow> disruptionRefused nd)"
  by (cases "find (\<lambda>x. node_name x = k) (w_nodes S)") (simp_all add: nodeDoNotDisrupt_def node_of_def)

lemma answers_coolingDownUntil:
  "answers (coolingDownUntil (reference L conds) p) S (case cooling_down S p of None \<Rightarrow> 0 | Some t \<Rightarrow> t)"
  unfolding coolingDownUntil_def cooling_down_def by (simp split: option.split)

lemma cooling_down_later: "orderly S \<Longrightarrow> cooling_down S p = Some t \<Longrightarrow> 0 < t"
  by (auto simp: orderly_def cooling_down_def split: option.splits if_splits)

lemma answers_freshPoolState:
  assumes "orderly S" and "p \<in> set (w_pools S)" and "LabelSelectorAsSelector L (ps_machineSelector (pool_spec p)) = Inr f"
  shows "answers (freshPoolState (reference L conds) p) S (p, members L S p)"
proof -
  have "answers (get_pool (reference L conds) Fresh (pool_name p)) S p"
    using find_distinct [of pool_name "w_pools S" p] assms(1,2)
    by (simp add: get_pool_def answers_call orderly_def)
  moreover have "answers (list_machines_matching (reference L conds) Fresh (ps_machineSelector (pool_spec p))) S (members L S p)"
    using assms(3) by (simp add: list_machines_matching_def answers_call members_def selects_def)
  ultimately show ?thesis
    by (simp add: freshPoolState_def answers_then [OF answers_map_error] assms(3))
qed

lemma stillIdle_members:
  assumes "orderly S" and "m \<in> set (members L S p)" and "state_of m = Ready" and "\<not> drainRequested m"
  shows "stillIdle (members L S p) (m_name m)"
proof -
  have "distinct (map m_name (members L S p))" using assms(1) by (simp add: orderly_def members_def distinct_map_filter)
  from find_distinct [OF this assms(2)] assms(3,4) show ?thesis by (simp add: stillIdle_def memberNamed_def)
qed

lemma effect_issueDrain:
  "effect (issueDrain (reference L conds) m p after) S =
    (Inr NoRequeue, patches S m (Drain p after), after_scale_down m (Drain p after) S)"
proof -
  have stamp: "effect (stampScaleDown (reference L conds) p) S = (Inr (down_stamped p (w_now S)),
      [PatchPoolStatus p (down_stamped p (w_now S)) (Inr (down_stamped p (w_now S)))], with_pool (down_stamped p (w_now S)) S)"
    unfolding stampScaleDown_def effect_after_answer [OF answers_now] down_stamped_def
    by (rule effect_map_error_ok, rule effect_writes)
  have request: "effect (requestDrain (reference L conds) m) w =
      (Inr (drained m), [PatchMachine m (drained m) (Inr (drained m))], with_machine (drained m) w)" for w
    unfolding requestDrain_def drained_def by (rule effect_map_error_ok, rule effect_writes)
  have same: "m_name (drained m) = m_name m" "nodeName_of (drained m) = nodeName_of m"
    by (simp_all add: drained_def set_annotations_def)
  show ?thesis
    by (simp add: issueDrain_def effect_then [OF stamp] effect_then [OF request] effect_event_bind same reasonScaleDown_def Let_def)
qed

lemma effect_triggerScaleDown:
  assumes "orderly S" and "m \<in> set (members L S p)" and "state_of m = Ready" and "\<not> drainRequested m"
    and "p \<in> set (w_pools S)"
  shows "effect (triggerScaleDown (reference L conds) m p after) (mem, S) = pass_effect S mem m (drainSpec L S m p after)"
proof -
  obtain f where f: "LabelSelectorAsSelector L (ps_machineSelector (pool_spec p)) = Inr f"
    using assms(2) by (auto simp: members_def selects_def split: sum.splits)
  have small: "length (members L S p) < 2 ^ 31"
    using assms(1) by (auto simp: orderly_def members_def intro: le_less_trans [OF length_filter_le])
  note reads = answers_outside [OF answers_freshPoolState [OF assms(1,5) f]] answers_outside [OF answers_coolingDownUntil]
    answers_outside [OF answers_now]
  note idle = stillIdle_members [OF assms(1-4)]
  note run = effect_after_answer [OF reads(1)] effect_after_answer [OF reads(2)] effect_after_answer [OF reads(3)]
    idle is_zero_time_def poolScaleDownCounts_exact [OF small] minConsolidateRequeue_def at_least_second_def
    scaleDownBlockedRequeue_def reasonScaleDownBlocked_def
  show ?thesis
  proof (cases "cooling_down S p")
    case (Some t)
    with cooling_down_later [OF assms(1) Some] show ?thesis
      by (simp add: triggerScaleDown_def run pass_effect_def drainSpec_def announced_def Let_def)
  next
    case None
    then show ?thesis
      by (simp add: triggerScaleDown_def run pass_effect_def drainSpec_def announced_def Let_def
          effect_announceHold [OF effect_ret] effect_outside [OF effect_issueDrain])
  qed
qed

lemma effect_emptyTimer:
  assumes "orderly S" and "m \<in> set (members L S p)" and "state_of m = Ready" and "\<not> drainRequested m"
    and "p \<in> set (w_pools S)"
  shows "effect (emptyTimer (reference L conds) m p after) (mem, S) = pass_effect S mem m
    (case st_emptySince (m_status m) of None \<Rightarrow> StartTimer after
     | Some t \<Rightarrow> if time_sub (w_now S) t < after then AwaitTimer (at_least_second (dur_sub after (time_sub (w_now S) t)))
         else drainSpec L S m p after)"
proof (cases "st_emptySince (m_status m)")
  case None
  have stamp: "effect (stampEmptySince (reference L conds) m) S = (Inr (timed (Some (w_now S)) m),
      [PatchMachineStatus m (timed (Some (w_now S)) m) (Inr (timed (Some (w_now S)) m))], with_machine (timed (Some (w_now S)) m) S)"
    unfolding stampEmptySince_def effect_after_answer [OF answers_now] timed_def
    by (rule effect_map_error_ok, rule effect_writes)
  from effect_outside [OF effect_bind_ret [OF stamp], of "\<lambda>_. RequeueAfter after"] None show ?thesis
    by (simp add: emptyTimer_def pass_effect_def announced_def Let_def)
next
  case (Some t)
  then show ?thesis
    by (simp add: emptyTimer_def effect_after_answer [OF answers_outside [OF answers_since]] effect_triggerScaleDown [OF assms]
        Let_def minConsolidateRequeue_def at_least_second_def)
      (simp add: pass_effect_def announced_def)
qed

lemma answers_nodeEmpty: "answers (nodeEmpty (reference L conds) k) S (busy_pods S k = [])"
  by (simp add: nodeEmpty_def answers_then [OF answers_podsKeepingNodeOn])

lemma pass_standDown: "pass_effect S mem m StandDown = (Inr NoRequeue, patches S m StandDown, mem, after_scale_down m StandDown S)"
  by (simp add: pass_effect_def announced_def)

lemma consolidateAfter_None: "consolidateAfter None = (0, False)"
  by (simp add: consolidateAfter_def)

text \<open>The part of the specification after the exemptions.\<close>

lemma effect_applyPoolPolicy:
  assumes "orderly S" and "m \<in> set (w_machines S)" and "state_of m = Ready" and "\<not> drainRequested m" and "\<not> exempt S m"
  shows "effect (applyPoolPolicy (reference L conds) m (poolsOf L (w_pools S) m)) (mem, S) =
    pass_effect S mem m (scaleDownSpec L S m)"
proof -
  note spec = scaleDownSpec_def assms(3-5)
  consider "poolsOf L (w_pools S) m = []" | p where "poolsOf L (w_pools S) m = [p]"
    | p q ps where "poolsOf L (w_pools S) m = p # q # ps"
    by (metis list.exhaust)
  then show ?thesis
  proof cases
    case 1
    then show ?thesis
      by (simp add: applyPoolPolicy_def spec consolidateAfter_None effect_standDown pass_standDown)
  next
    case (2 p)
    then have "p \<in> set (poolsOf L (w_pools S) m)" by simp
    then have p: "p \<in> set (w_pools S)" and m: "m \<in> set (members L S p)"
      using assms(2) by (simp_all add: set_poolsOf members_def)
    note timer = effect_emptyTimer [OF assms(1) m assms(3,4) p]
    obtain after on where "consolidateAfter (Some p) = (after, on)" by (cases "consolidateAfter (Some p)")
    then show ?thesis
      by (simp add: applyPoolPolicy_def spec 2 effect_standDown pass_standDown timer
          effect_after_answer [OF answers_outside [OF answers_map_error [OF answers_nodeEmpty]]] split: bool.split)
  next
    case (3 p q ps)
    then show ?thesis
      by (simp add: applyPoolPolicy_def spec effect_announceHold [OF effect_standDown] pass_effect_def announced_def
          reasonPoolConflict_def)
  qed
qed

lemma effect_scaleDownPass:
  assumes "orderly S" and "find (\<lambda>m. m_name m = name) (w_machines S) = Some m"
  shows "effect (scaleDownPass (reference L conds) name) (mem, S) = pass_effect S mem m (scaleDownSpec L S m)"
proof -
  have "m \<in> set (w_machines S)" using assms(2) by (auto simp: find_Some_iff)
  note policy = effect_applyPoolPolicy [OF assms(1) this]
  note reads = answers_gets(2) answers_nodeDoNotDisrupt answers_nodeAlwaysOn answers_matchingPools
  note run = effect_after_answer [OF answers_outside [OF reads(1)]] effect_after_answer [OF answers_outside [OF reads(2)]]
    effect_after_answer [OF answers_outside [OF reads(3)]] effect_after_answer [OF answers_outside [OF reads(4)]]
  show ?thesis
  proof (cases "state_of m = Ready \<and> \<not> drainRequested m \<and> \<not> exempt S m")
    case True
    then show ?thesis
      using policy [of L conds mem]
      by (simp add: scaleDownPass_def assms(2) run) (auto simp: exempt_def split: option.splits)
  next
    case False
    then show ?thesis
      by (simp add: scaleDownPass_def assms(2) run scaleDownSpec_def effect_standDown pass_standDown)
        (auto simp: exempt_def effect_standDown pass_standDown pass_effect_def announced_def split: option.splits)
  qed
qed

lemma effect_scaleDownReconcile:
  assumes "orderly S" and "find (\<lambda>m. m_name m = name) (w_machines S) = Some m"
  shows "effect (scaleDownReconcile (reference L conds) name) (mem, S) =
    (let d = scaleDownSpec L S m in (Inr (again d), announced (sd_holds mem) m d @ patches S m d,
       remembered (sd_holds mem) m d, after_scale_down m d S))"
proof -
  have name: "m_name m = name" using assms(2) by (auto simp: find_Some_iff)
  define d where "d = scaleDownSpec L S m"
  note pass = effect_attempt [OF effect_scaleDownPass [OF assms, of L conds, unfolded pass_effect_def d_def [symmetric]]]
  show ?thesis
    unfolding d_def [symmetric]
    by (cases "hold_of d")
      (auto simp: scaleDownReconcile_def effect_then [OF pass] noted_def remembered_def name announced_def Let_def bind_ret)
qed

section \<open>Refinement\<close>

lemma scale_down_effect:
  assumes "implements E (reference L conds) view" and "orderly (view w)"
    and "find (\<lambda>m. m_name m = name) (w_machines (view w)) = Some m"
  shows "let d = scaleDownSpec L (view w) m in
    result (scaleDownReconcile E name) (mem, w) = Inr (again d) \<and>
    filter (\<lambda>a. \<not> is_read a) (actions (scaleDownReconcile E name) (mem, w)) =
      announced (sd_holds mem) m d @ patches (view w) m d \<and>
    memory (scaleDownReconcile E name) mem w = remembered (sd_holds mem) m d \<and>
    view (snd (final (scaleDownReconcile E name) (mem, w))) = after_scale_down m d (view w)"
proof -
  define d where "d = scaleDownSpec L (view w) m"
  have spec: "effect (scaleDownReconcile (reference L conds) name) (map_prod id view (mem, w)) =
      (Inr (again d), announced (sd_holds mem) m d @ patches (view w) m d, remembered (sd_holds mem) m d,
       after_scale_down m d (view w))"
    using effect_scaleDownReconcile [OF assms(2,3)] by (simp add: d_def Let_def)
  from simulates_effect [OF implements.sim_scaleDownReconcile [OF assms(1)] spec] obtain mem' w'
    where "effect (scaleDownReconcile E name) (mem, w) =
        (Inr (again d), announced (sd_holds mem) m d @ patches (view w) m d, mem', w')"
      and "mem' = remembered (sd_holds mem) m d" and "view w' = after_scale_down m d (view w)"
    by (auto simp: map_prod_def)
  then show ?thesis unfolding d_def [symmetric] Let_def by (simp add: effect_iff memory_def)
qed

text \<open>C8. The scale-down reconciler refines its specification: over an API server that serves every call, a reconcile of a
  Machine decides what the function of the state of the cluster says: stand down when the Machine is not Ready, its Node
  is exempt or busy, or no single opted-in pool selects it; start or await the timer of the empty Node; wait out the
  cooldown; hold at the floor or at the cap on concurrent drains; otherwise drain. It writes nothing else, and it
  announces a hold exactly when it is not the one it announced last.\<close>

theorem scale_down_refines:
  assumes "implements E (reference L conds) view" and "orderly (view w)"
    and "find (\<lambda>m. m_name m = name) (w_machines (view w)) = Some m"
  shows "let d = scaleDownSpec L (view w) m in
    result (scaleDownReconcile E name) (mem, w) = Inr (again d) \<and>
    filter (\<lambda>a. \<not> is_read a) (actions (scaleDownReconcile E name) (mem, w)) =
      announced (sd_holds mem) m d @ patches (view w) m d \<and>
    memory (scaleDownReconcile E name) mem w = remembered (sd_holds mem) m d \<and>
    view (snd (final (scaleDownReconcile E name) (mem, w))) = after_scale_down m d (view w)"
  using scale_down_effect [OF assms] .

theorem scale_down_refines_witness:
  "scaleDownSpec store_lib idle_world idle_machine = Drain (sample_pool ''a'' True) 0 \<and>
   result (scaleDownReconcile store_env ''m'') (no_memory, idle_world) = Inr NoRequeue \<and>
   snd (final (scaleDownReconcile store_env ''m'') (no_memory, idle_world)) =
     with_machine (drained idle_machine) (with_pool (down_stamped (sample_pool ''a'' True) (w_now idle_world)) idle_world)"
proof -
  have spec: "scaleDownSpec store_lib idle_world idle_machine = Drain (sample_pool ''a'' True) 0" by code_simp
  have m: "find (\<lambda>m. m_name m = ''m'') (w_machines (id idle_world)) = Some idle_machine" by code_simp
  have "orderly (id idle_world)" by code_simp
  from scale_down_refines [OF store_implements this m, of no_memory] show ?thesis
    unfolding id_apply spec Let_def again.simps after_scale_down.simps by blast
qed

end
