(* ===== verification/Power_Cycle.thy ===== *)
theory Power_Cycle
  imports Scale_Up_Spec Scale_Down_Spec Shutdown_Safety
begin

text \<open>
  The reconcilers one after the other, over an API server that serves every call: an idle Node is drained and its host
  powered off, and a Pod that does not fit wakes a host. Each reconcile starts in the world the one before it left, or,
  on the way to a power-off, in one where only the clock has moved on.
\<close>

section \<open>A Machine alone on an idle Node\<close>

definition poised :: "world \<Rightarrow> machine \<Rightarrow> node \<Rightarrow> bool" where
  "poised S m nd \<longleftrightarrow> orderly S \<and> m \<in> set (w_machines S) \<and>
     filter (\<lambda>x. nodeName_of x = nodeName_of m) (w_machines S) = [m] \<and>
     node_of S (nodeName_of m) = Some nd \<and> busy_pods S (nodeName_of m) = [] \<and> list_all admitted_pool (w_pools S)"

lemma node_of_SomeD: "node_of S k = Some nd \<Longrightarrow> k \<noteq> [] \<and> find (\<lambda>x. node_name x = k) (w_nodes S) = Some nd \<and> node_name nd = k"
  by (auto simp: node_of_def find_Some_iff split: if_splits)

lemma poisedD:
  assumes "poised S m nd"
  shows "find (\<lambda>x. m_name x = m_name m) (w_machines S) = Some m"
    and "answers (otherMachinesOnNode (reference L conds) m) S []"
    and "answers (nodeAlwaysOn (reference L conds) (nodeName_of m)) S (alwaysOnLabelled nd)"
    and "answers (podsKeepingNodeOn (reference L conds) (nodeName_of m)) S []"
    and "answers (nothingKeepsNodeOn (reference L conds) rd (nodeName_of m)) S True"
    and "answers (drainPolicy (reference L conds) m) S (drainPolicyOf (poolsOf L (w_pools S) m))"
proof -
  note here = assms [unfolded poised_def]
  show "find (\<lambda>x. m_name x = m_name m) (w_machines S) = Some m"
    using here find_distinct [of m_name "w_machines S" m] by (simp add: orderly_def)
  show "answers (otherMachinesOnNode (reference L conds) m) S []"
    using here by (simp add: otherMachinesOnNode_def)
  show "answers (nodeAlwaysOn (reference L conds) (nodeName_of m)) S (alwaysOnLabelled nd)"
    using here answers_nodeAlwaysOn [of L conds "nodeName_of m" S] by simp
  show "answers (podsKeepingNodeOn (reference L conds) (nodeName_of m)) S []"
    using here answers_podsKeepingNodeOn [of L conds "nodeName_of m" S] by simp
  have "\<not> list_ex keepsNodeOn (filter (\<lambda>p. pod_nodeName p = nodeName_of m) (w_pods S))"
    using here node_of_SomeD [of S "nodeName_of m" nd] by (auto simp: busy_pods_def list_ex_iff filter_empty_conv)
  then show "answers (nothingKeepsNodeOn (reference L conds) rd (nodeName_of m)) S True"
    by (simp add: nothingKeepsNodeOn_def)
  show "answers (drainPolicy (reference L conds) m) S (drainPolicyOf (poolsOf L (w_pools S) m))"
    by (simp add: drainPolicy_def poolForMachine_def bind_assoc answers_then [OF answers_matchingPools] drainPolicyOf_def
        bind_ret split: list.split)
qed

text \<open>What the writes of the reconcilers leave as it was.\<close>

lemma poised_machine:
  assumes "poised S m nd" and "m_name m' = m_name m" and "nodeName_of m' = nodeName_of m"
  shows "poised (with_machine m' S) m' nd"
proof -
  have only: "filter (\<lambda>x. nodeName_of x = nodeName_of m') (w_machines (with_machine m' S)) = [m']"
    using filter_replace [of m_name "w_machines S" "\<lambda>x. nodeName_of x = nodeName_of m'" m m'] assms
    by (simp add: with_machine_def poised_def orderly_def)
  moreover have "m' \<in> set (w_machines (with_machine m' S))" using arg_cong [OF only, of set] by auto
  moreover have "orderly (with_machine m' S)"
    using assms(1) map_replace [of m_name m' "w_machines S"] by (auto simp: poised_def orderly_def with_machine_def simp del: map_replace map_map)
  ultimately show ?thesis
    using assms by (auto simp: poised_def with_machine_def node_of_def busy_pods_def split: if_splits)
qed

lemma poised_pool:
  assumes "poised S m nd" and "admitted_pool p" and "pool_name p \<noteq> []"
  shows "poised (with_pool p S) m nd"
proof -
  have "orderly (with_pool p S)"
    using assms map_replace [of pool_name p "w_pools S"]
    by (auto simp: poised_def orderly_def with_pool_def list_all_iff simp del: map_replace map_map)
  then show ?thesis
    using assms by (auto simp: poised_def with_pool_def node_of_def busy_pods_def list_all_iff)
qed

lemma poised_node:
  assumes "poised S m nd" and "node_name nd' = node_name nd"
  shows "poised (with_node nd' S) m nd'"
proof -
  have "nodeName_of m \<noteq> []" and found: "find (\<lambda>x. node_name x = nodeName_of m) (w_nodes S) = Some nd" and "node_name nd = nodeName_of m"
    using assms(1) node_of_SomeD by (auto simp: poised_def)
  moreover from found have "nd \<in> set (w_nodes S)" by (auto simp: find_Some_iff)
  ultimately have "node_of (with_node nd' S) (nodeName_of m) = Some nd'"
    using assms(2) find_replace [of node_name nd' "w_nodes S"] by (force simp: node_of_def with_node_def image_iff)
  then show ?thesis using assms(1) by (auto simp: poised_def with_node_def orderly_def busy_pods_def split: if_splits)
qed

text \<open>Time passes and nothing else happens.\<close>

definition later :: "world \<Rightarrow> world \<Rightarrow> bool" where
  "later S S' \<longleftrightarrow> (\<exists>t. w_now S \<le> t \<and> S' = S\<lparr>w_now := t\<rparr>)"

lemma later_sel: "later S S' \<Longrightarrow> w_now S \<le> w_now S' \<and> w_pools S' = w_pools S \<and> w_machines S' = w_machines S"
  by (auto simp: later_def)

lemma poised_later: "poised S m nd \<Longrightarrow> later S S' \<Longrightarrow> poised S' m nd"
  by (auto simp: later_def poised_def orderly_def node_of_def busy_pods_def split: if_splits)

section \<open>The steps of a power-off\<close>

lemma effect_machineReconcile:
  assumes "poised S m nd"
  shows "effect (machineReconcile (over (reference L conds) R) (m_name m)) S = effect (dispatch (over (reference L conds) R) m) S"
  by (simp add: machineReconcile_def Let_def effect_after_answer [OF answers_gets(2)] poisedD(1) [OF assms]
      effect_after_answer [OF poisedD(2) [OF assms]])

text \<open>The state in which a draining Machine waits for its Node.\<close>

definition draining_since :: "time \<Rightarrow> machine \<Rightarrow> bool" where
  "draining_since t m \<longleftrightarrow> state_of m = Draining \<and> st_drainStartTime (m_status m) = Some t \<and>
     \<not> has_key (m_annotations m) AnnotationDrainNow"

definition same_machine :: "machine \<Rightarrow> machine \<Rightarrow> bool" where
  "same_machine m m' \<longleftrightarrow> m_name m' = m_name m \<and> m_spec m' = m_spec m \<and> m_labels m' = m_labels m"

text \<open>The drain of a Machine that started at \<open>t\<close> has time left.\<close>

definition drain_lasts :: "lib \<Rightarrow> world \<Rightarrow> machine \<Rightarrow> time \<Rightarrow> bool" where
  "drain_lasts L S m t \<longleftrightarrow> w_now S \<le> t + fst (drainPolicyOf (poolsOf L (w_pools S) m))"

lemma drain_lasts_same: "same_machine m m' \<Longrightarrow> drain_lasts L S m' t = drain_lasts L S m t"
  by (simp add: drain_lasts_def same_machine_def poolsOf_def)

lemma drain_starts:
  assumes "poised S m nd" and "state_of m = Ready" and "drainRequested m" and "\<not> has_key (m_annotations m) AnnotationWakeNow"
    and "\<not> alwaysOnLabelled nd"
  shows "\<exists>bs S' m'. effect (machineReconcile (over (reference L conds) R) (m_name m)) S = (Inr RequeueNow, bs, S') \<and>
    poised S' m' nd \<and> w_now S' = w_now S \<and> w_pools S' = w_pools S \<and> same_machine m m' \<and> draining_since (w_now S) m'"
proof -
  define m1 where "m1 = update_status (\<lambda>s. s\<lparr>st_state := Draining, st_drainStartTime := Some (w_now S)\<rparr>) m"
  define m2 where "m2 = set_annotations (AList.delete AnnotationDrainNow) m1"
  let ?S1 = "with_machine m1 S" let ?S2 = "with_machine m2 ?S1"
  have "has_key (m_annotations m) AnnotationDrainNow"
    using assms(3) by (force simp: drainRequested_def sget_def has_key_iff key_defs split: option.splits dest: map_of_SomeD)
  then have remove: "effect (removeDrainAnnotation (reference L conds) m1) ?S1 = (Inr m2, [PatchMachine m1 m2 (Inr m2)], ?S2)"
    unfolding removeDrainAnnotation_def m2_def by (simp add: m1_def effect_map_error_ok [OF effect_writes(1)])
  have "effect (dispatch (over (reference L conds) R) m) S = (Inr RequeueNow,
      [UpdateMachineStatus m1 (Inr m1), RecordEvent (MachineObj (m_name m1)) Normal reasonDraining
        (Msg ''draining Node %q before power-off'' [TQuoted (nodeName_of m1)]), PatchMachine m1 m2 (Inr m2)], ?S2)"
    using assms(2-5)
    by (simp add: dispatch_def reconcileReady_def startDraining_def Let_def bind_ret effect_after_answer [OF poisedD(3) [OF assms(1)]]
        effect_after_answer [OF answers_now] effect_then [OF effect_map_error_ok [OF effect_writes(3)]] effect_event_bind
        effect_then [OF remove] flip: m1_def)
  moreover have "poised ?S2 m2 nd"
    by (intro poised_machine [OF poised_machine [OF assms(1)]]) (simp_all add: m1_def m2_def)
  moreover have "same_machine m m2" "draining_since (w_now S) m2" "w_now ?S2 = w_now S" "w_pools ?S2 = w_pools S"
    by (simp_all add: same_machine_def draining_since_def m1_def m2_def with_machine_def)
  ultimately show ?thesis unfolding effect_machineReconcile [OF assms(1)] by blast
qed

lemma no_timeout:
  assumes "poised S m nd" and "draining_since t m" and "drain_lasts L S m t"
  shows "answers (drainTimedOut (over (reference L conds) R) m (fst (drainPolicyOf (poolsOf L (w_pools S) m)))) S False"
proof -
  have "drain_budget (fst (drainPolicyOf (poolsOf L (w_pools S) m)))"
    by (rule drainPolicyOf_budget) (use assms(1) in \<open>auto simp: poised_def list_all_iff set_poolsOf\<close>)
  then show ?thesis
    using assms(2,3) by (auto simp: drainTimedOut_def draining_since_def drain_lasts_def drain_budget_def time_sub_def)
qed

lemma effect_draining:
  assumes "poised S m nd" and "draining_since t m" and "drain_lasts L S m t" and "\<not> alwaysOnLabelled nd"
  shows "\<exists>force. effect (machineReconcile (over (reference L conds) R) (m_name m)) S =
    effect (drainPass (over (reference L conds) R) m force) S"
proof -
  obtain timeout force where policy: "drainPolicyOf (poolsOf L (w_pools S) m) = (timeout, force)"
    by (cases "drainPolicyOf (poolsOf L (w_pools S) m)")
  note reads = poisedD(2-) [OF assms(1), of L conds] no_timeout [OF assms(1-3), of conds R]
  have "effect (dispatch (over (reference L conds) R) m) S = effect (drainPass (over (reference L conds) R) m force) S"
    using assms(2,4) reads(6) policy
    by (simp add: dispatch_def draining_since_def reconcileDraining_def removeDrainAnnotation_def Let_def bind_ret
        effect_after_answer [OF reads(2)] effect_after_answer [OF reads(5)] effect_after_answer)
  then show ?thesis unfolding effect_machineReconcile [OF assms(1)] by blast
qed

lemma drain_cordons:
  assumes "poised S m nd" and "draining_since t m" and "drain_lasts L S m t" and "\<not> alwaysOnLabelled nd"
    and "\<not> node_unschedulable nd"
  shows "\<exists>bs S'. effect (machineReconcile (over (reference L conds) R) (m_name m)) S = (Inr (RequeueAfter drainPollInterval), bs, S') \<and>
    poised S' m (cordonNode nd) \<and> w_now S' = w_now S \<and> w_pools S' = w_pools S"
proof -
  from effect_draining [OF assms(1-4)] obtain force where
    pass: "effect (machineReconcile (over (reference L conds) R) (m_name m)) S = effect (drainPass (over (reference L conds) R) m force) S"
    by blast
  have k: "nodeName_of m \<noteq> []" and found: "find (\<lambda>x. node_name x = nodeName_of m) (w_nodes S) = Some nd"
    using assms(1) node_of_SomeD by (auto simp: poised_def)
  have "effect (setCordon (reference L conds) (nodeName_of m) True) S =
      (Inr True, [PatchNode nd (cordonNode nd) (Inr (cordonNode nd))], with_node (cordonNode nd) S)"
    using k found assms(5)
    by (simp add: setCordon_def effect_after_answer [OF answers_gets(1)] effect_bind_ret [OF effect_map_error_ok [OF effect_writes(5)]])
  then have "effect (drainPass (over (reference L conds) R) m force) S =
      (Inr (RequeueAfter drainPollInterval), [PatchNode nd (cordonNode nd) (Inr (cordonNode nd))], with_node (cordonNode nd) S)"
    by (simp add: drainPass_def Let_def effect_then)
  moreover have "poised (with_node (cordonNode nd) S) m (cordonNode nd)"
    by (rule poised_node [OF assms(1)]) (simp add: cordonNode_def)
  moreover have "w_now (with_node (cordonNode nd) S) = w_now S" "w_pools (with_node (cordonNode nd) S) = w_pools S"
    by (simp_all add: with_node_def)
  ultimately show ?thesis unfolding pass by blast
qed

text \<open>What the agent is to see.\<close>

definition down_since :: "time \<Rightarrow> machine \<Rightarrow> bool" where
  "down_since t m \<longleftrightarrow> state_of m = ShuttingDown \<and> st_shutdownStartTime (m_status m) = Some t"

lemma answers_setCondition:
  "\<exists>cs. answers (setCondition (reference L conds) m ty st reason msg) S (update_status (\<lambda>s. s\<lparr>st_conditions := cs\<rparr>) m)"
  by (auto simp: setCondition_def answers_def peek_def update_status_def)

lemma effect_enterShuttingDown:
  "\<exists>m' bs. effect (enterShuttingDown (over (reference L conds) R) m) S = (Inr NoRequeue, bs, with_machine m' S) \<and>
     same_machine m m' \<and> down_since (w_now S) m'"
proof -
  let ?m = "update_status (\<lambda>s. s\<lparr>st_state := ShuttingDown, st_shutdownStartTime := Some (w_now S)\<rparr>) m"
  obtain cs where cond: "answers (setCondition (reference L conds) ?m ConditionDrainSucceeded CondTrue reasonDrainSucceeded
      (Msg ''Node %q drained; powering off'' [TQuoted (nodeName_of m)])) S (update_status (\<lambda>s. s\<lparr>st_conditions := cs\<rparr>) ?m)"
    using answers_setCondition by blast
  have "same_machine m (update_status (\<lambda>s. s\<lparr>st_conditions := cs\<rparr>) ?m)"
    "down_since (w_now S) (update_status (\<lambda>s. s\<lparr>st_conditions := cs\<rparr>) ?m)"
    by (simp_all add: same_machine_def down_since_def)
  then show ?thesis
    by (auto simp: enterShuttingDown_def Let_def effect_after_answer [OF answers_now] effect_after_answer [OF cond]
        effect_then [OF effect_map_error_ok [OF effect_writes(3)]] effect_event_bind)
qed

lemma drain_hands_over:
  assumes "poised S m nd" and "draining_since t m" and "drain_lasts L S m t" and "\<not> alwaysOnLabelled nd"
    and "node_unschedulable nd"
  shows "\<exists>bs S' m'. effect (machineReconcile (over (reference L conds) R) (m_name m)) S = (Inr NoRequeue, bs, S') \<and>
    poised S' m' nd \<and> w_now S' = w_now S \<and> same_machine m m' \<and> down_since (w_now S) m'"
proof -
  from effect_draining [OF assms(1-4)] obtain force where
    pass: "effect (machineReconcile (over (reference L conds) R) (m_name m)) S = effect (drainPass (over (reference L conds) R) m force) S"
    by blast
  have k: "nodeName_of m \<noteq> []" and found: "find (\<lambda>x. node_name x = nodeName_of m) (w_nodes S) = Some nd"
    using assms(1) node_of_SomeD by (auto simp: poised_def)
  have cordoned: "answers (setCordon (reference L conds) (nodeName_of m) True) S False"
    using k found assms(5) by (simp add: setCordon_def)
  note reads = poisedD(2-) [OF assms(1), of L conds]
  obtain m' bs where m': "same_machine m m'" "down_since (w_now S) m'"
    and hand_over: "effect (enterShuttingDown (over (reference L conds) R) m) S = (Inr NoRequeue, bs, with_machine m' S)"
    using effect_enterShuttingDown by blast
  have "effect (drainPass (over (reference L conds) R) m force) S = effect (enterShuttingDown (over (reference L conds) R) m) S"
    by (simp add: drainPass_def Let_def effect_after_answer [OF cordoned] effect_after_answer [OF answers_map_error [OF reads(3)]]
        effect_after_answer [OF reads(4)])
  moreover have "poised (with_machine m' S) m' nd" using m'(1) by (intro poised_machine [OF assms(1)]) (simp_all add: same_machine_def)
  moreover have "w_now (with_machine m' S) = w_now S" by (simp add: with_machine_def)
  ultimately show ?thesis using m' unfolding pass hand_over by blast
qed

section \<open>Over an implementation\<close>

lemma fetched:
  assumes "implements E (reference L conds) view" and "find (\<lambda>x. m_name x = name) (w_machines (view w)) = Some m"
  shows "\<exists>w'. env_get_machine E name w = (Inr m, w') \<and> view w' = view w"
  using implements.get_machine_mirrors [OF assms(1), of name] assms(2)
  by (cases "env_get_machine E name w") (auto simp: mirrors_def dest: spec [of _ w])

lemma machine_step:
  assumes "implements E (reference L conds) view" and "mr_env R = E" and "mr_Evict R = None"
    and "poised (view w) m nd" and "state_of m \<in> {Ready, Draining}"
    and "effect (machineReconcile (over (reference L conds) R) (m_name m)) (view w) = (r, bs, S')"
  shows "result (machineReconcile R (m_name m)) w = r" and "view (final (machineReconcile R (m_name m)) w) = S'"
proof -
  have "machineReconcile (over (reference L conds) R) (m_name m) (view w) =
      map_prod id (map_prod id view) (machineReconcile R (m_name m) w)"
    using fetched [OF assms(1) poisedD(1) [OF assms(4)]] assms(5)
    by (intro implements.sim_machineReconcile [OF assms(1-3)]) auto
  with assms(6) show "result (machineReconcile R (m_name m)) w = r" and "view (final (machineReconcile R (m_name m)) w) = S'"
    by (simp_all add: effect_iff result_def final_def)
qed

text \<open>The host was started before \<open>t\<close>, as far as the agent can tell.\<close>

definition up_before :: "'w shutdown_reconciler \<Rightarrow> time \<Rightarrow> bool" where
  "up_before A t \<longleftrightarrow> (\<forall>boot w b. sr_BootTime A = Some boot \<longrightarrow> fst (boot w) = Inr b \<longrightarrow> b \<le> t)"

lemma up_before_later: "up_before A t \<Longrightarrow> t \<le> u \<Longrightarrow> up_before A u"
  unfolding up_before_def by (meson order_trans)

lemma agent_step:
  assumes "implements E (reference L conds) view" and "sr_env A = E" and "sr_NodeName A = nodeName_of m"
    and "find (\<lambda>x. m_name x = name) (w_machines (view w)) = Some m" and "down_since t m"
    and "\<not> delegatesShutdown m" and "\<not> sm_issued mem" and "up_before A t"
  shows "\<exists>r. PowerOffHost r \<in> set (actions (shutdownReconcile A name) (mem, w))"
proof -
  from fetched [OF assms(1,4)] obtain w1 where get: "env_get_machine E name w = (Inr m, w1)" by blast
  have early: "b \<le> t" if "sr_BootTime A = Some boot" and "boot v = (Inr b, v')" for boot v b v'
    using assms(8) that unfolding up_before_def by (metis fst_conv)
  have "\<exists>as w2. bootedAfter A t w1 = (Inr False, as, w2)"
    by (auto simp: bootedAfter_def prog_defs not_less split: option.split prod.split sum.split dest!: early)
  then obtain as w2 where boot: "bootedAfter A t w1 = (Inr False, as, w2)" by blast
  have "\<exists>r bs W. powerHostOff A m t (mem, w2) = (r, bs, W) \<and> (\<exists>q. PowerOffHost q \<in> set bs)"
    by (auto simp: powerHostOff_def prog_defs split: prod.split sum.split)
  then obtain r bs W q where off: "powerHostOff A m t (mem, w2) = (r, bs, W)" and "PowerOffHost q \<in> set bs" by blast
  moreover have "shutdownReconcile A name (mem, w) = (r, GetMachine name (Inr m) # as @ bs, W)"
    using assms(2,3,5-7) get boot off
    by (simp add: shutdownReconcile_def get_machine_def down_since_def shutdownEpisode_def Let_def prog_defs)
  ultimately show ?thesis by (auto simp: actions_def)
qed

section \<open>The power cycle\<close>

lemma drainSpec_Drain: "drainSpec L S m q after' = Drain p after \<Longrightarrow> p = q"
  by (auto simp: drainSpec_def Let_def split: option.splits if_splits)

lemma scaleDownSpec_Drain:
  assumes "scaleDownSpec L S m = Drain p after"
  shows "state_of m = Ready" and "\<not> exempt S m" and "p \<in> set (w_pools S)"
proof -
  show "state_of m = Ready" and "\<not> exempt S m" using assms by (auto simp: scaleDownSpec_def split: if_splits)
  have "p \<in> set (poolsOf L (w_pools S) m)"
    using assms by (auto simp: scaleDownSpec_def split: if_splits list.splits prod.splits bool.splits option.splits dest!: drainSpec_Drain)
  then show "p \<in> set (w_pools S)" by (simp add: set_poolsOf)
qed

lemma down_stamped_sel [simp]: "admitted_pool (down_stamped p t) = admitted_pool p" "pool_name (down_stamped p t) = pool_name p"
  by (simp_all add: admitted_pool_def down_stamped_def)

text \<open>From the request to the hand-over.\<close>

lemma drain_cycle:
  assumes "implements E (reference L conds) view" and "mr_env R = E" and "mr_Evict R = None" and "poised (view w1) m nd"
    and "state_of m = Ready" and "drainRequested m" and "\<not> has_key (m_annotations m) AnnotationWakeNow"
    and "\<not> alwaysOnLabelled nd" and "\<not> node_unschedulable nd"
    and "later (view (final (machineReconcile R (m_name m)) w1)) (view w2)"
    and "later (view (final (machineReconcile R (m_name m)) w2)) (view w3)"
    and "later (view (final (machineReconcile R (m_name m)) w3)) (view w4)"
    and "drain_lasts L (view w2) m (w_now (view w1))" and "drain_lasts L (view w3) m (w_now (view w1))"
  shows "\<exists>m4. poised (view w4) m4 (cordonNode nd) \<and> same_machine m m4 \<and> down_since (w_now (view w3)) m4 \<and>
    w_now (view w1) \<le> w_now (view w3)"
proof -
  obtain m2 S2 where "view (final (machineReconcile R (m_name m)) w1) = S2" "poised S2 m2 nd"
      and S2: "w_now S2 = w_now (view w1)" and 2: "same_machine m m2" "draining_since (w_now (view w1)) m2"
    using drain_starts [OF assms(4) assms(5-7) assms(8), of L conds R] machine_step(2) [OF assms(1-3) assms(4)] assms(5) by (metis insertI1)
  with assms(10) have w2: "poised (view w2) m2 nd" "w_now (view w1) \<le> w_now (view w2)"
    using poised_later later_sel by (metis, metis)
  have same2: "same_machine m m2" "m_name m2 = m_name m" and Draining: "state_of m2 = Draining"
    using 2 by (simp_all add: same_machine_def draining_since_def)
  have last2: "drain_lasts L (view w2) m2 (w_now (view w1))" "drain_lasts L (view w3) m2 (w_now (view w1))"
    using assms(13,14) drain_lasts_same [OF same2(1)] by simp_all
  obtain S3 where "view (final (machineReconcile R (m_name m)) w2) = S3" "poised S3 m2 (cordonNode nd)" "w_now S3 = w_now (view w2)"
    using drain_cordons [OF w2(1) 2(2) last2(1) assms(8,9), of conds R] machine_step(2) [OF assms(1-3) w2(1)] same2(2) Draining
    by (metis insertCI)
  with assms(11) have w3: "poised (view w3) m2 (cordonNode nd)" "w_now (view w2) \<le> w_now (view w3)"
    using poised_later later_sel by (metis, metis)
  have "\<not> alwaysOnLabelled (cordonNode nd)" "node_unschedulable (cordonNode nd)"
    using assms(8) by (simp_all add: cordonNode_def alwaysOnLabelled_def)
  then obtain S4 m4 where "view (final (machineReconcile R (m_name m)) w3) = S4" "poised S4 m4 (cordonNode nd)"
      and 4: "same_machine m2 m4" "down_since (w_now (view w3)) m4"
    using drain_hands_over [OF w3(1) 2(2) last2(2), of conds R] machine_step(2) [OF assms(1-3) w3(1)] same2(2) Draining
    by (metis insertCI)
  with assms(12) have w4: "poised (view w4) m4 (cordonNode nd)" using poised_later by metis
  moreover have "same_machine m m4" using same2(1) 4(1) by (simp add: same_machine_def)
  ultimately show ?thesis using 4(2) w2(2) w3(2) by force
qed

text \<open>C9. An idle Node is powered off. Let the API server serve every call, and let the specification of scale-down say to
  drain a Machine that is the only one on its Node; the Node is schedulable and holds no pod that keeps it on, the pools
  are admitted, the Machine has no wake-now annotation and leaves its power-off to the agent, and the agent on the Node has
  not yet powered its host off and reads a boot time, if it reads one, that is not after the beginning. Then one reconcile of
  scale-down, three of the Machine (start the drain, cordon, hand over) and one of the agent, with any time between them
  that stays within the drain timeout of the pools and in which nothing else happens, end in the power-off of the host; the
  agent finds the Machine ShuttingDown.\<close>

theorem idle_node_powered_off:
  assumes "implements E (reference L conds) view" and "mr_env R = E" and "mr_Evict R = None"
    and "sr_env A = E" and "sr_NodeName A = nodeName_of m" and "poised (view w) m nd"
    and "scaleDownSpec L (view w) m = Drain p after" and "\<not> node_unschedulable nd"
    and "\<not> has_key (m_annotations m) AnnotationWakeNow" and "\<not> delegatesShutdown m"
    and "\<not> sm_issued mem" and "up_before A (w_now (view w))"
    and "later (view (snd (final (scaleDownReconcile E (m_name m)) (holds, w)))) (view w1)"
    and "later (view (final (machineReconcile R (m_name m)) w1)) (view w2)"
    and "later (view (final (machineReconcile R (m_name m)) w2)) (view w3)"
    and "later (view (final (machineReconcile R (m_name m)) w3)) (view w4)"
    and "drain_lasts L (view w2) m (w_now (view w1))" and "drain_lasts L (view w3) m (w_now (view w1))"
  shows "(\<exists>m'. find (\<lambda>x. m_name x = m_name m) (w_machines (view w4)) = Some m' \<and> state_of m' = ShuttingDown) \<and>
    (\<exists>r. PowerOffHost r \<in> set (actions (shutdownReconcile A (m_name m)) (mem, w4)))"
proof -
  note ready = scaleDownSpec_Drain [OF assms(7)]
  have here: "orderly (view w)" "list_all admitted_pool (w_pools (view w))" "node_of (view w) (nodeName_of m) = Some nd"
    using assms(6) by (simp_all add: poised_def)
  have kept: "\<not> alwaysOnLabelled nd" using ready(2) here(3) by (simp add: exempt_def)
  let ?m1 = "drained m" let ?S = "with_pool (down_stamped p (w_now (view w))) (view w)"
  have S1: "view (snd (final (scaleDownReconcile E (m_name m)) (holds, w))) = with_machine ?m1 ?S"
    using scale_down_effect [OF assms(1) here(1) poisedD(1) [OF assms(6)], of holds] assms(7) by (simp add: Let_def)
  have "poised ?S m nd"
    using here(1,2) ready(3) by (intro poised_pool [OF assms(6)]) (auto simp: list_all_iff orderly_def)
  then have 1: "poised (view w1) ?m1 nd"
    by (intro poised_later [OF poised_machine [of ?S m nd ?m1] assms(13) [unfolded S1]]) (simp_all add: drained_def)
  have t1: "w_now (view w) \<le> w_now (view w1)"
    using later_sel [OF assms(13) [unfolded S1]] by (simp add: with_machine_def with_pool_def)
  have asked: "state_of ?m1 = Ready" "drainRequested ?m1" "\<not> has_key (m_annotations ?m1) AnnotationWakeNow" "m_name ?m1 = m_name m"
    "same_machine m ?m1"
    using ready(1) assms(9) by (simp_all add: drained_def drainRequested_def key_defs same_machine_def)
  from drain_cycle [OF assms(1-3) 1 asked(1-3) kept assms(8), unfolded asked(4) drain_lasts_same [OF asked(5)], OF assms(14-18)]
  obtain m4 where w4: "poised (view w4) m4 (cordonNode nd)" and 4: "same_machine ?m1 m4" "down_since (w_now (view w3)) m4"
    and t3: "w_now (view w1) \<le> w_now (view w3)" by blast
  have same: "m_name m4 = m_name m" "m_spec m4 = m_spec m" and down: "state_of m4 = ShuttingDown"
    using asked(5) 4 by (simp_all add: same_machine_def down_since_def)
  note found = poisedD(1) [OF w4, unfolded same(1)]
  have "\<not> delegatesShutdown m4" "sr_NodeName A = nodeName_of m4" using assms(5,10) same(2) by (simp_all add: delegatesShutdown_def)
  moreover have "up_before A (w_now (view w3))"
    by (rule up_before_later [OF assms(12)]) (use t1 t3 in simp)
  ultimately show ?thesis using agent_step [OF assms(1,4) _ found 4(2) _ assms(11)] found down by blast
qed

theorem idle_node_powered_off_witness:
  "\<exists>w1 w2 w3 w4 r. w1 = snd (final (scaleDownReconcile store_env ''m'') (no_memory, idle_world)) \<and>
     w2 = (final (machineReconcile sample_reconciler ''m'') w1)\<lparr>w_now := 200\<rparr> \<and>
     w3 = (final (machineReconcile sample_reconciler ''m'') w2)\<lparr>w_now := 300\<rparr> \<and>
     w4 = (final (machineReconcile sample_reconciler ''m'') w3)\<lparr>w_now := 400\<rparr> \<and>
     PowerOffHost r \<in> set (actions (shutdownReconcile (sample_agent (Inr ())) ''m'') (fresh_agent, w4))"
proof -
  let ?nd = "sample_node ''n'' CondTrue False" let ?M = "machineReconcile sample_reconciler ''m''"
  have set_up: "mr_env sample_reconciler = store_env" "mr_Evict sample_reconciler = None"
    "sr_env (sample_agent (Inr ())) = store_env" "sr_NodeName (sample_agent (Inr ())) = nodeName_of idle_machine"
    by (simp_all add: sample_reconciler_def sample_agent_def idle_machine_def sample_machine_def)
  have alone: "poised (id idle_world) idle_machine ?nd" by code_simp
  have spec: "scaleDownSpec store_lib (id idle_world) idle_machine = Drain (sample_pool ''a'' True) 0" by code_simp
  have rest: "\<not> node_unschedulable ?nd" "\<not> has_key (m_annotations idle_machine) AnnotationWakeNow"
    "\<not> delegatesShutdown idle_machine" "\<not> sm_issued fresh_agent" by code_simp+
  have up: "up_before (sample_agent (Inr ())) (w_now (id idle_world))"
    by (simp add: up_before_def sample_agent_def idle_world_def sample_world_def empty_world_def)
  have name: "m_name idle_machine = ''m''" by code_simp
  define w1 where "w1 = snd (final (scaleDownReconcile store_env ''m'') (no_memory, idle_world))"
  define w2 where "w2 = (final ?M w1)\<lparr>w_now := 200\<rparr>"
  define w3 where "w3 = (final ?M w2)\<lparr>w_now := 300\<rparr>"
  define w4 where "w4 = (final ?M w3)\<lparr>w_now := 400\<rparr>"
  have times: "w_now (final ?M w1) \<le> 200" "w_now (final ?M w2) \<le> 300" "w_now (final ?M w3) \<le> 400"
    unfolding w3_def w2_def w1_def by code_simp+
  have laters: "later (id (snd (final (scaleDownReconcile store_env ''m'') (no_memory, idle_world)))) (id w1)" "later (id (final ?M w1)) (id w2)" "later (id (final ?M w2)) (id w3)" "later (id (final ?M w3)) (id w4)"
    unfolding later_def using times by (auto simp: w2_def w3_def w4_def simp flip: w1_def intro: exI [of _ "w_now w1"])
  have lasts: "drain_lasts store_lib (id w2) idle_machine (w_now (id w1))" "drain_lasts store_lib (id w3) idle_machine (w_now (id w1))"
    unfolding w3_def w2_def w1_def by code_simp+
  have "\<exists>r. PowerOffHost r \<in> set (actions (shutdownReconcile (sample_agent (Inr ())) ''m'') (fresh_agent, w4))"
    by (rule conjunct2 [OF idle_node_powered_off [OF store_implements set_up alone spec rest up, unfolded name, of no_memory w1 w2 w3 w4,
          OF laters lasts]])
  then show ?thesis unfolding w4_def w3_def w2_def w1_def by blast
qed

section \<open>From a Pod to the network card\<close>

lemma simulates_answer:
  assumes "simulates view p q" and "answers q (view w) v"
  shows "\<exists>as w'. p w = (Inr v, as, w') \<and> view w' = view w"
  using assms by (cases "p w") (auto simp: simulates_def answers_def dest: spec [of _ w])

lemma scaleUpSpec_Wake:
  assumes "scaleUpSpec L S pod = WakeOne c"
  shows "wc_machine c \<in> set (w_machines S)" and "wc_pool c \<in> set (w_pools S)" and "sleeping L S c"
proof -
  have "c \<in> set (filter (sleeping L S) (fitting L S pod))"
    using assms smallestCandidate_in [of "filter _ (filter _ (filter (sleeping L S) (fitting L S pod)))" L]
    by (auto simp: scaleUpSpec_def Let_def split: if_splits)
  then show "wc_machine c \<in> set (w_machines S)" and "wc_pool c \<in> set (w_pools S)" and "sleeping L S c"
    by (auto simp: fitting_def members_def)
qed

text \<open>C10. A Pod that does not fit wakes a host. Let the API server serve every call, and let the specification of scale-up
  say to wake a Machine for an unschedulable pending Pod; the Machine is admitted, the only one on its Node, which is not
  Ready, has no drain-now annotation, and has a wol block whose MAC address uses one separator and whose broadcast address
  is ASCII text of at most 650 characters; the commands are set up as deployed, the endpoint of the agent with the path
  \<^verbatim>\<open>/wake\<close> is a valid URL with that path, and the agent's host can send. Then one reconcile of scale-up and one of the
  Machine call the power provider with success, go on to write the state Booting, and put a packet on the wire that wakes
  exactly the card of that Machine.\<close>

theorem pending_pod_wakes_host:
  assumes "implements E (reference L conds) view" and "mr_env R = beside E"
    and "mr_Registry R = deployed N other url_path badURL endpoint env"
    and "url_path (TrimRight endpoint ''/'' @ ''/wake'') = ''/wake''" and "badURL (TrimRight endpoint ''/'' @ ''/wake'') = None"
    and "net_works N" and "orderly (view w)"
    and "find (\<lambda>p. pod_namespace p = ns \<and> pod_name p = name) (w_pods (view w)) = Some pod"
    and "pod_deletionTimestamp pod = None" and "isScaleUpCandidate pod"
    and "scaleUpSpec L (view w) pod = WakeOne c" and "m = wc_machine c"
    and "filter (\<lambda>x. nodeName_of x = nodeName_of m) (w_machines (view w)) = [m]"
    and "\<not> (\<exists>nd. node_of (view w) (nodeName_of m) = Some nd \<and> reportsReady nd)"
    and "\<not> has_key (m_annotations m) AnnotationDrainNow" and "admitted_machine m"
    and "power_wol (spec_power (m_spec m)) = Some cfg" and "one_separator (wol_macAddress cfg)"
    and "ascii (wol_broadcastAddress cfg)" and "length (wol_broadcastAddress cfg) \<le> 650"
    and "(w1, log1) = final (scaleUpReconcile (beside E) ns name) (w, log)"
  shows "\<exists>pre post as mac pkt.
    actions (machineReconcile R (m_name m)) (w1, log1) = pre @ PowerOnCall ''wol'' (woken m) (Inr ()) # post \<and> boots (woken m) post \<and>
    snd (final (machineReconcile R (m_name m)) (w1, log1)) = log1 @ as \<and> wrote pkt as \<and>
    ParseMAC (wol_macAddress cfg) = Inr mac \<and> length mac = 6 \<and>
    (\<forall>own. length own = 6 \<longrightarrow> (nic_matches own pkt \<longleftrightarrow> own = mac))"
proof -
  let ?m = "woken m" let ?S = "with_machine ?m (with_pool (stamped (wc_pool c) (w_now (view w))) (view w))"
  have same: "m_name ?m = m_name m" "m_spec ?m = m_spec m" "m_status ?m = m_status m" by (simp_all add: woken_def)
  note spec = scaleUpSpec_Wake [OF assms(11), folded assms(12)]
  have "(view \<circ> fst) (w1, log1) = ?S"
    using scale_up_effect [OF implements_comp [OF beside_net.implements_axioms assms(1)], of "(w, log)" ns name pod] assms(7-12,21)
    by (simp add: Let_def)
  then have S: "view w1 = ?S" by simp
  have distinct: "distinct (map m_name (w_machines (view w)))" using assms(7) by (simp add: orderly_def)
  have found: "find (\<lambda>x. m_name x = m_name m) (w_machines (view w1)) = Some ?m"
    using find_replace [of m_name ?m "w_machines (view w)"] spec(1) by (auto simp: S with_machine_def with_pool_def same image_iff)
  have only: "filter (\<lambda>x. nodeName_of x = nodeName_of m) (w_machines (view w1)) = [?m]"
    using filter_replace [OF distinct assms(13), of ?m] by (simp add: S with_machine_def with_pool_def same)
  from fetched [OF assms(1) found] obtain w2 where get: "env_get_machine E (m_name m) w1 = (Inr ?m, w2)" and v2: "view w2 = view w1"
    by blast
  have "answers (otherMachinesOnNode (reference L conds) ?m) (view w2) []"
    using only by (simp add: v2 otherMachinesOnNode_def same)
  from simulates_answer [OF implements.sim_machine_parts(6) [OF assms(1)] this] obtain as1 w3
    where others: "otherMachinesOnNode E ?m w2 = (Inr [], as1, w3)" and v3: "view w3 = view w2" by blast
  have "node_of (view w3) (nodeName_of m) = node_of (view w) (nodeName_of m)"
    by (simp add: v3 v2 S with_machine_def with_pool_def node_of_def)
  with answers_nodeIsReady [of L conds "nodeName_of m" "view w3"] assms(14)
  have "answers (nodeIsReady (reference L conds) (nodeName_of ?m)) (view w3) False"
    by (cases "node_of (view w) (nodeName_of m)") (simp_all add: same)
  from simulates_answer [OF implements.sim_machine_parts(2) [OF assms(1)] this] obtain as2 w4
    where ready: "nodeIsReady E (nodeName_of ?m) w3 = (Inr False, as2, w4)" by blast
  have asked: "state_of ?m = Off" "wakeRequested ?m" "\<not> has_key (m_annotations ?m) AnnotationDrainNow" "admitted_machine ?m"
    "power_wol (spec_power (m_spec ?m)) = Some cfg"
    using spec(3) assms(12,15-17) by (simp_all add: sleeping_def woken_def wakeRequested_def admitted_machine_def key_defs)
  show ?thesis by (rule wake_served [OF assms(2-6) get others ready asked assms(18-20)])
qed

definition asleep_world :: world where
  "asleep_world = pending_world\<lparr>w_machines := [test_machine]\<rparr>"

theorem pending_pod_wakes_host_witness:
  "\<exists>w1 log1 pre post as pkt. (w1, log1) = final (scaleUpReconcile (beside store_env) ''default'' ''p'') (asleep_world, []) \<and>
    actions (machineReconcile deployed_reconciler ''m'') (w1, log1) = pre @ PowerOnCall ''wol'' (woken test_machine) (Inr ()) # post \<and>
    snd (final (machineReconcile deployed_reconciler ''m'') (w1, log1)) = log1 @ as \<and> wrote pkt as"
proof -
  let ?cfg = "\<lparr>wol_macAddress = ''01:23:45:67:89:ab'', wol_broadcastAddress = []\<rparr>"
  let ?c = "\<lparr>wc_machine = test_machine, wc_pool = sample_pool ''a'' True\<rparr>"
  have set_up: "mr_env deployed_reconciler = beside store_env"
      "mr_Registry deployed_reconciler = deployed test_net (\<lambda>_. health) test_path (\<lambda>_. None) ''http://agent/'' ''s ''"
    by (simp_all add: deployed_reconciler_def)
  have path: "test_path (TrimRight ''http://agent/'' ''/'' @ ''/wake'') = ''/wake''" by code_simp
  have works: "net_works test_net" by (simp add: net_works_def test_net_def)
  have "orderly (id asleep_world)" by code_simp
  have pod: "find (\<lambda>p. pod_namespace p = ''default'' \<and> pod_name p = ''p'') (w_pods (id asleep_world)) = Some pending_pod"
    "pod_deletionTimestamp pending_pod = None" "isScaleUpCandidate pending_pod" by code_simp+
  have spec: "scaleUpSpec store_lib (id asleep_world) pending_pod = WakeOne ?c" by code_simp
  have m: "test_machine = wc_machine ?c" by simp
  have alone: "filter (\<lambda>x. nodeName_of x = nodeName_of test_machine) (w_machines (id asleep_world)) = [test_machine]" by code_simp
  have "node_of (id asleep_world) (nodeName_of test_machine) = Some (sample_node ''n'' CondFalse False)"
    "\<not> reportsReady (sample_node ''n'' CondFalse False)" by code_simp+
  then have down: "\<not> (\<exists>nd. node_of (id asleep_world) (nodeName_of test_machine) = Some nd \<and> reportsReady nd)" by simp
  have rest: "\<not> has_key (m_annotations test_machine) AnnotationDrainNow" "admitted_machine test_machine"
    "power_wol (spec_power (m_spec test_machine)) = Some ?cfg" by code_simp+
  have address: "one_separator (wol_macAddress ?cfg)" "ascii (wol_broadcastAddress ?cfg)"
      "length (wol_broadcastAddress ?cfg) \<le> 650" by code_simp+
  have name: "m_name test_machine = ''m''" by code_simp
  obtain w1 and log1 :: "net_action list"
    where run: "(w1, log1) = final (scaleUpReconcile (beside store_env) ''default'' ''p'') (asleep_world, [])"
    by (metis prod.collapse)
  from pending_pod_wakes_host [where view = id and w = asleep_world and badURL = "\<lambda>_. None" and endpoint = "''http://agent/''"
      and url_path = test_path, OF store_implements set_up path refl works \<open>orderly (id asleep_world)\<close> pod spec m alone down rest address run]
  show ?thesis unfolding name using run by blast
qed

end
