(* ===== verification/Command_Lines.thy ===== *)
theory Command_Lines
  imports Wake_Path
begin

text \<open>
  What the commands make of their command lines: the controller runs with exactly the settings its arguments spell out,
  a wol-agent that was told to require a token never serves an unauthenticated wake, the shutdown agent acts for the
  node it was given or else the one of its environment, and the exit code of the probe says whether a packet left.
\<close>

section \<open>The controller\<close>

text \<open>The arguments that spell a configuration out, each flag in the form \<^verbatim>\<open>--name=value\<close>.\<close>

definition controllerSettings :: "controller_flags \<Rightarrow> (string \<times> flag_value) list" where
  "controllerSettings fl =
     [(''metrics-bind-address'', StringValue (fl_metricsAddr fl)),
      (''health-probe-bind-address'', StringValue (fl_probeAddr fl)),
      (''leader-elect'', BoolValue (fl_leaderElect fl)), (''log-level'', StringValue (fl_logLevel fl)),
      (''boot-timeout'', DurationValue (fl_bootTimeout fl)), (''shutdown-timeout'', DurationValue (fl_shutdownTimeout fl)),
      (''node-loss-grace-period'', DurationValue (fl_nodeLossGracePeriod fl)),
      (''wol-agent-endpoint'', StringValue (fl_wolAgentEndpoint fl))]"

definition controllerArgs :: "controller_flags \<Rightarrow> string list" where
  "controllerArgs fl = map flagArg (controllerSettings fl)"

definition timeouts_fit :: "controller_flags \<Rightarrow> bool" where
  "timeouts_fit fl \<longleftrightarrow> fits_width 64 (fl_bootTimeout fl) \<and> fits_width 64 (fl_shutdownTimeout fl) \<and>
     fits_width 64 (fl_nodeLossGracePeriod fl)"

lemma controllerSettings_may: "timeouts_fit fl \<Longrightarrow> \<forall>s\<in>set (controllerSettings fl). may_set (controllerFlagSet @ lib) s"
  by (simp add: controllerSettings_def may_set_def flag_name_def controllerFlagSet_def timeouts_fit_def)

lemma controllerFlags_settings: "controllerFlags (assignAll (controllerSettings fl) (controllerFlagSet @ lib)) = fl"
  by (simp add: controllerFlags_def controllerSettings_def assignAll_def controllerFlagSet_def stringVar_def boolVar_def
      durationVar_def)

text \<open>C40. The configuration round trip: a controller started with the arguments that spell a configuration out, and then with
  arguments that are no flags, behaves as one with that configuration, whatever the defaults are and whatever other flags
  the imported libraries have registered. If it runs, the Machine reconciler has the three durations of the configuration
  and the provider for its agent endpoint, the manager its addresses and its choice of leader election, and the logger its
  level; every address, duration of 64 bits and truth value arrives unchanged.\<close>

theorem controller_flags_roundtrip:
  assumes "timeouts_fit fl" and "no_flag rest"
  shows "controllerCommand E http badURL newManager fw frac lib (controllerArgs fl @ rest) env =
      (case controllerMain E http badURL newManager fw fl env of
         Inl failure \<Rightarrow> Inl (mainExit failure) | Inr running \<Rightarrow> Inr running) \<and>
    (\<forall>lvl opts R. controllerCommand E http badURL newManager fw frac lib (controllerArgs fl @ rest) env = Inr (lvl, opts, R) \<longrightarrow>
       mr_BootTimeout R = fl_bootTimeout fl \<and> mr_ShutdownTimeout R = fl_shutdownTimeout fl \<and>
       mr_NodeLossGracePeriod R = fl_nodeLossGracePeriod fl \<and>
       registry_get (mr_Registry R) providerNameWoL =
         Some (NewWoLProvider badURL (NewClient http (fl_wolAgentEndpoint fl) None (wolOpts env))) \<and>
       mo_BindAddress opts = fl_metricsAddr fl \<and> mo_HealthProbeBindAddress opts = fl_probeAddr fl \<and>
       mo_LeaderElection opts = fl_leaderElect fl \<and> ParseLevel (fl_logLevel fl) = Inr lvl)"
proof -
  have command: "controllerCommand E http badURL newManager fw frac lib (controllerArgs fl @ rest) env =
      (case controllerMain E http badURL newManager fw fl env of
         Inl failure \<Rightarrow> Inl (mainExit failure) | Inr running \<Rightarrow> Inr running)"
    by (simp add: controllerCommand_def controllerArgs_def Parse_settings [OF controllerSettings_may [OF assms(1)]]
        Parse_no_flag [OF assms(2)] controllerFlags_settings del: flagArg.simps)
  then show ?thesis
    by (auto simp: controllerReconciler_def controllerManagerOptions_def controllerRegistry_get split: sum.splits
        dest!: controllerMain_running)
qed

definition test_flags :: controller_flags where
  "test_flags = \<lparr>fl_metricsAddr = '':1'', fl_probeAddr = [], fl_leaderElect = True, fl_bootTimeout = - 5,
     fl_shutdownTimeout = 2 ^ 63 - 1, fl_nodeLossGracePeriod = 0, fl_wolAgentEndpoint = ''a=b'', fl_logLevel = ''DEBUG''\<rparr>"

definition no_transport :: "duration \<Rightarrow> 'w transport" where
  "no_transport timeout r w = (Inl (Errorf ''no route to host'' []), w)"

theorem controller_flags_roundtrip_witness:
  "controllerCommand store_env no_transport (\<lambda>_. None) (\<lambda>_. None) (\<lambda>_. None) (\<lambda>_ _ _. 0) [(''kubeconfig'', StringValue [])]
     (controllerArgs test_flags @ [''rest'']) ''token'' =
   Inr (LevelDebug, controllerManagerOptions test_flags,
     controllerReconciler store_env (projr (controllerRegistry no_transport (\<lambda>_. None) ''a=b'' ''token'')) test_flags)"
proof -
  have fit: "timeouts_fit test_flags" by (simp add: timeouts_fit_def test_flags_def fits_width_def)
  have rest: "no_flag [''rest'']" by (simp add: no_flag_def)
  have "ParseLevel (fl_logLevel test_flags) = Inr LevelDebug" by code_simp
  moreover have "fl_wolAgentEndpoint test_flags = ''a=b''" by (simp add: test_flags_def)
  ultimately show ?thesis
    unfolding conjunct1 [OF controller_flags_roundtrip [OF fit rest]] by (simp add: controllerMain_starts)
qed

section \<open>The wol-agent\<close>

text \<open>C28. Requiring a token closes the endpoint: a wol-agent that starts although it was told to require a token
  serves the wake path only to requests that bear the token of its environment, which is then not empty; any other request
  on that path is answered with 401 and nothing is sent on the network.\<close>

theorem required_token_enforced:
  assumes "agentCommand N other frac args env = Inr (lvl, srv)" and "Parse frac agentFlagSet args = Inr (F, rest)"
    and "boolVar F ''require-token''"
    and "header_get (hr_header r) ''Authorization'' \<noteq> ''Bearer '' @ TrimSpace env"
  shows "TrimSpace env \<noteq> [] \<and> srv_Handler srv ''/wake'' r w = (Inr (http_Error [(''WWW-Authenticate'', ''Bearer'')] ''unauthorized'' 401), [], w)"
proof -
  from assms(1-3) obtain token where started: "agentStart (stringVar F ''log-level'') True env = Inr (lvl, token)"
    and srv: "srv = agentHTTPServer N other (stringVar F ''listen-addr'') token"
    by (auto simp: agentCommand_def split: sum.splits)
  from agentStart_token [OF started] have token: "token = TrimSpace env" "token \<noteq> []" by (auto simp: agentToken_def)
  with assms(4) show ?thesis
    by (simp add: srv agentHTTPServer_def agentServer_def Handler_def requireBearer_def prog_defs)
qed

lemma test_token_args:
  "Parse (\<lambda>_ _ _. 0) agentFlagSet [''--require-token'', ''-listen-addr'', '':7''] =
     Inr ([(''listen-addr'', StringValue '':7''), (''log-level'', StringValue ''info''), (''require-token'', BoolValue True)], [])"
  by code_simp

theorem required_token_enforced_witness:
  "(\<exists>srv. agentCommand test_net (\<lambda>_. health) (\<lambda>_ _ _. 0) [''--require-token'', ''-listen-addr'', '':7''] ('' s'' @ [newline]) =
      Inr (LevelInfo, srv) \<and>
      srv_Handler srv ''/wake'' (test_request\<lparr>hr_header := [(''Authorization'', ''Bearer t'')]\<rparr>) () =
        (Inr (http_Error [(''WWW-Authenticate'', ''Bearer'')] ''unauthorized'' 401), [], ())) \<and>
   agentCommand test_net (\<lambda>_. health) (\<lambda>_ _ _. 0) [''--require-token'', ''-listen-addr'', '':7''] '' '' = Inl 1"
proof -
  let ?r = "test_request\<lparr>hr_header := [(''Authorization'', ''Bearer t'')]\<rparr>"
  have token: "TrimSpace ('' s'' @ [newline]) = ''s''" by code_simp
  have level: "ParseLevel ''info'' = Inr LevelInfo" by code_simp
  have start: "agentStart ''info'' True ('' s'' @ [newline]) = Inr (LevelInfo, ''s'')" by code_simp
  have run: "agentCommand test_net (\<lambda>_. health) (\<lambda>_ _ _. 0) [''--require-token'', ''-listen-addr'', '':7''] ('' s'' @ [newline]) =
      Inr (LevelInfo, agentHTTPServer test_net (\<lambda>_. health) '':7'' ''s'')"
    unfolding agentCommand_def test_token_args using start by (simp add: stringVar_def boolVar_def)
  have refused: "agentStart ''info'' True '' '' =
      Inl (Errorf ''no bearer token configured and --require-token is set; refusing to serve /wake unauthenticated'' [])"
    by code_simp
  have no: "agentCommand test_net (\<lambda>_. health) (\<lambda>_ _ _. 0) [''--require-token'', ''-listen-addr'', '':7''] '' '' = Inl 1"
    unfolding agentCommand_def test_token_args using refused by (simp add: stringVar_def boolVar_def)
  have bad: "header_get (hr_header ?r) ''Authorization'' \<noteq> ''Bearer '' @ TrimSpace ('' s'' @ [newline])"
    unfolding token by (simp add: header_get_def)
  have req: "boolVar [(''listen-addr'', StringValue '':7''), (''log-level'', StringValue ''info''), (''require-token'', BoolValue True)]
      ''require-token''" by (simp add: boolVar_def)
  from required_token_enforced [OF run test_token_args req bad, of "()"] run no show ?thesis by blast
qed

text \<open>The command ends with 0 exactly when the server was stopped by a signal, shut down in time and closed cleanly.\<close>

lemma agentExit_clean:
  "agentExit first shutdown returned = 0 \<longleftrightarrow>
     first = SignalReceived \<and> shutdown shutdownTimeout = None \<and>
     (\<forall>e. returned = Some e \<longrightarrow> errorIs e ErrServerClosed)"
  by (auto simp: agentExit_def agentRun_def split: select_case.splits option.splits)

section \<open>The shutdown agent\<close>

text \<open>A running agent acts for a node with a name: the one of its last \<^verbatim>\<open>--node-name\<close>, or else the one of its
  environment.\<close>

theorem shutdown_command_node:
  assumes "shutdownCommand E exec open_stat newManager fw frac lib (map flagArg settings @ rest) env = Inr (lvl, opts, R)"
    and "\<forall>s\<in>set settings. may_set (shutdownFlagSet env @ lib) s" and "no_flag rest"
  shows "sr_NodeName R \<noteq> [] \<and>
    sr_NodeName R = (case map_of (rev settings) ''node-name'' of Some (StringValue n) \<Rightarrow> n | _ \<Rightarrow> env)"
proof -
  let ?F = "assignAll settings (shutdownFlagSet env @ lib)"
  from assms(1) have "shutdownAgentMain E exec open_stat newManager fw (shutdownFlags ?F) = Inr (lvl, opts, R)"
    by (auto simp: shutdownCommand_def Parse_settings [OF assms(2)] Parse_no_flag [OF assms(3)] split: sum.splits)
  then have node: "stringVar ?F ''node-name'' \<noteq> []" "sr_NodeName R = stringVar ?F ''node-name''"
    by (auto dest!: shutdownAgentMain_node simp: shutdownFlags_def agentReconciler_def)
  have typed: "\<exists>n. v = StringValue n" if "map_of (rev settings) ''node-name'' = Some v" for v
  proof -
    from that have "(''node-name'', v) \<in> set settings" using map_of_SomeD by fastforce
    with assms(2) have "same_type (StringValue env) v" by (auto simp: may_set_def shutdownFlagSet_def)
    then show ?thesis by (cases v) auto
  qed
  have "map_of (shutdownFlagSet env @ lib) ''node-name'' = Some (StringValue env)" by (simp add: shutdownFlagSet_def)
  with node typed map_of_assignAll [of "shutdownFlagSet env @ lib" "''node-name''" settings] show ?thesis
    by (auto simp del: map_of_append simp: stringVar_def split: option.splits)
qed

section \<open>The probe\<close>

lemma probeRun_reports: "wp (probeRun N args) (\<lambda>as r. (\<exists>line. r = Inr line \<and> line \<noteq> []) \<longleftrightarrow> (\<exists>pkt. wrote pkt as))"
  unfolding probeRun_def Let_def
  by (auto split: sum.splits intro!: wp_rules wp_mono [OF Send_reports] simp: wrote_def) blast+

text \<open>The exit code tells whether a packet left.\<close>

theorem probe_exit_reports:
  "wp (probeCommand N frac argv) (\<lambda>as r. \<exists>code line. r = Inr (code, line) \<and>
     (line \<noteq> [] \<longleftrightarrow> (\<exists>pkt. wrote pkt as)) \<and> ((\<exists>pkt. wrote pkt as) \<longrightarrow> code = 0))"
  unfolding probeCommand_def
  by (auto split: sum.splits intro!: wp_rules wp_mono [OF probeRun_reports]) blast

section \<open>The scheme\<close>

text \<open>With builders that collect kinds and schemes that are sets of known kinds, the client knows the four kinds of the
  program beside whatever the standard scheme knows.\<close>

lemma initScheme_knows:
  assumes "\<And>b s. sp_AddToScheme P b s = Inr (add (kinds b) s)" and "\<And>gv. kinds (sp_Builder P gv) = []"
    and "\<And>ks b. kinds (sp_Register P ks b) = kinds b @ ks" and "clientgo s = Inr s'"
  shows "initScheme P clientgo s = Inr (add [''Machine'', ''MachineList'', ''NodePool'', ''NodePoolList''] s')"
  by (simp add: initScheme_def AddToScheme_def assms initNodePoolTypes_def initMachineTypes_def SchemeBuilder_def)

end
