(* ===== verification/Idle_Window.thy ===== *)
theory Idle_Window
  imports Scale_Down_Safety
begin

text \<open>
  The empty timer over time. A drain request needs a timer that is a full window old; this theory shows what such a timer
  means in a history of reconciles: a reconcile that saw the Node empty started it, and no reconcile since then saw the
  Node in use without resetting it.
\<close>

section \<open>The timer in a history\<close>

definition timed :: "time option \<Rightarrow> machine \<Rightarrow> machine" where
  "timed x m = update_status (\<lambda>s. s\<lparr>st_emptySince := x\<rparr>) m"

abbreviation timer_of :: "machine \<Rightarrow> time option" where
  "timer_of m \<equiv> st_emptySince (m_status m)"

text \<open>The values the stored timer may have: a write that failed may or may not have reached the store, and a read tells.\<close>

fun timer_step :: "action \<Rightarrow> time option set \<Rightarrow> time option set" where
  "timer_step (GetMachine k (Inr m)) S = {timer_of m}"
| "timer_step (PatchMachineStatus m m' (Inr x)) S = {timer_of m'}"
| "timer_step (PatchMachineStatus m m' (Inl e)) S = insert (timer_of m') S"
| "timer_step a S = S"

fun reads_from :: "time option set \<Rightarrow> action \<Rightarrow> bool" where
  "reads_from S (GetMachine k (Inr m)) \<longleftrightarrow> timer_of m \<in> S"
| "reads_from S a \<longleftrightarrow> True"

text \<open>The timer is kept: every read gives a value that the timer may have. In other words, nothing but these reconciles
  changes the timer, and they read what is stored.\<close>

primrec timer_kept :: "time option set \<Rightarrow> action list \<Rightarrow> bool" where
  "timer_kept S [] \<longleftrightarrow> True"
| "timer_kept S (a # as) \<longleftrightarrow> reads_from S a \<and> timer_kept (timer_step a S) as"

section \<open>What a reconcile shows\<close>

definition in_use :: "machine \<Rightarrow> action list \<Rightarrow> bool" where
  "in_use m as \<longleftrightarrow> state_of m \<noteq> Ready \<or>
     (\<exists>pods. ListPodsOnNode Cached (nodeName_of m) (Inr pods) \<in> set as \<and> list_ex keepsNodeOn pods)"

text \<open>A reconcile that saw the Machine not Ready or a pod that keeps its Node on.\<close>

definition saw_use :: "string \<Rightarrow> action list \<Rightarrow> bool" where
  "saw_use name as \<longleftrightarrow> (\<exists>m. GetMachine name (Inr m) \<in> set as \<and> in_use m as)"

definition reset_failed :: "action list \<Rightarrow> bool" where
  "reset_failed as \<longleftrightarrow> (\<exists>m e. PatchMachineStatus m (timed None m) (Inl e) \<in> set as)"

text \<open>A reconcile that started the timer at the time it read, for a Ready Machine on a Node it saw empty.\<close>

definition starts_timer :: "string \<Rightarrow> time \<Rightarrow> action list \<Rightarrow> bool" where
  "starts_timer name t as \<longleftrightarrow> (\<exists>m r. GetMachine name (Inr m) \<in> set as \<and> state_of m = Ready \<and>
     empty_seen (nodeName_of m) (set as) \<and> ReadClock t \<in> set as \<and> PatchMachineStatus m (timed (Some t) m) r \<in> set as)"

text \<open>Idle since \<open>t\<close>: the timer was started then, and every later reconcile that saw the Node in use failed in the
  attempt to reset it.\<close>

definition idle_since :: "string \<Rightarrow> time \<Rightarrow> action list list \<Rightarrow> bool" where
  "idle_since name t hist \<longleftrightarrow> (\<exists>pre start mid. hist = pre @ start # mid \<and> starts_timer name t start \<and>
     (\<forall>as\<in>set mid. saw_use name as \<longrightarrow> reset_failed as))"

section \<open>One reconcile\<close>

fun touches_timer :: "action \<Rightarrow> bool" where
  "touches_timer (GetMachine k r) = True"
| "touches_timer (PatchMachineStatus m m' r) = True"
| "touches_timer _ = False"

fun lists_pods :: "action \<Rightarrow> bool" where
  "lists_pods (ListPodsOnNode rd k r) = True"
| "lists_pods _ = False"

definition aside :: "action \<Rightarrow> bool" where
  "aside a \<longleftrightarrow> \<not> touches_timer a \<and> \<not> lists_pods a"

text \<open>What follows the fetch of \<open>m\<close>: no write of the timer, and then the Node was not seen in use or no timer runs; or
  the timer is started on an empty Node; or it is reset.\<close>

definition timer_pass :: "machine \<Rightarrow> action list \<Rightarrow> bool" where
  "timer_pass m as \<longleftrightarrow>
     filter touches_timer as = [] \<and> (timer_of m = None \<or> \<not> in_use m as) \<or>
     (\<exists>n r. filter touches_timer as = [PatchMachineStatus m (timed (Some n) m) r] \<and> timer_of m = None \<and>
        state_of m = Ready \<and> empty_seen (nodeName_of m) (set as) \<and> ReadClock n \<in> set as) \<or>
     (\<exists>r. filter touches_timer as = [PatchMachineStatus m (timed None m) r])"

lemma aside_filter: "list_all aside as \<Longrightarrow> filter touches_timer as = []"
  by (auto simp: list_all_iff aside_def filter_empty_conv)

lemma aside_no_pods: "list_all aside ys \<Longrightarrow> ListPodsOnNode rd k r \<notin> set ys"
  by (force simp: list_all_iff aside_def)

lemma aside_in_use: "list_all aside ys \<Longrightarrow> in_use m (ys @ as) \<longleftrightarrow> in_use m as"
  by (auto simp: in_use_def aside_no_pods)

lemma in_use_aside: "list_all aside as \<Longrightarrow> in_use m (ys @ as) \<longleftrightarrow> in_use m ys"
  by (auto simp: in_use_def aside_no_pods)

lemma empty_seen_mono: "empty_seen k A \<Longrightarrow> A \<subseteq> B \<Longrightarrow> empty_seen k B"
  by (auto simp: empty_seen_def)

lemma timer_pass_aside: "list_all aside ys \<Longrightarrow> timer_pass m as \<Longrightarrow> timer_pass m (ys @ as)"
  unfolding timer_pass_def using empty_seen_mono [of "nodeName_of m" "set as" "set (ys @ as)"]
  by (auto simp: aside_filter aside_in_use)

lemma aside_idle: "list_all aside as \<Longrightarrow> state_of m = Ready \<Longrightarrow> \<not> in_use m as"
  by (simp add: in_use_def aside_no_pods)

lemma timer_pass_idle: "list_all aside as \<Longrightarrow> state_of m = Ready \<Longrightarrow> timer_pass m as"
  by (simp add: timer_pass_def aside_filter aside_idle)

lemma timer_pass_no_get:
  assumes "timer_pass m as"
  shows "GetMachine k r \<notin> set as"
proof
  assume "GetMachine k r \<in> set as"
  then have "GetMachine k r \<in> set (filter touches_timer as)" by simp
  with assms show False unfolding timer_pass_def by (elim disjE conjE exE) (simp_all del: set_filter)
qed

lemma timer_pass_start:
  assumes "timer_of m = None" and "state_of m = Ready" and "empty_seen (nodeName_of m) (set ys)" and "filter touches_timer ys = []"
  shows "timer_pass m (ys @ [ReadClock n, PatchMachineStatus m (timed (Some n) m) r])" (is "timer_pass m ?as")
proof -
  have "empty_seen (nodeName_of m) (set ?as)" by (rule empty_seen_mono [OF assms(3)]) auto
  moreover have "filter touches_timer ?as = [PatchMachineStatus m (timed (Some n) m) r]" "ReadClock n \<in> set ?as"
    using assms(4) by simp_all
  ultimately show ?thesis unfolding timer_pass_def using assms(1,2) by blast
qed

lemma timer_standDown: "wpm (standDown E m) mem (\<lambda>as r _. timer_pass m (ys @ as))" if "filter touches_timer ys = []"
  using that unfolding standDown_def clearEmptySince_def client_defs
  by (intro wpm_outside) (auto intro!: wp_rules simp: timer_pass_def timed_def)

lemma aside_leaves:
  "emits aside (nodeDoNotDisrupt E k)" "emits aside (nodeAlwaysOn E k)" "emits aside (matchingPools E m)"
  "emits aside (announceHold m ty reason msg)" "emits aside (freshPoolState E p)" "emits aside (coolingDownUntil E p)"
  "emits aside (issueDrain E m p after)" "emits aside (now E)" "emits aside (since E t)"
  unfolding nodeDoNotDisrupt_def nodeAlwaysOn_def matchingPools_def announceHold_def freshPoolState_def coolingDownUntil_def
    issueDrain_def stampScaleDown_def requestDrain_def client_defs
  by (auto intro!: emits_rules simp: aside_def)

lemma aside_trigger: "emits aside (triggerScaleDown E m pool after)"
  unfolding triggerScaleDown_def Let_def by (auto intro!: emits_rules aside_leaves)

lemma pass_timer:
  assumes "state_of m = Ready" and "empty_seen (nodeName_of m) (set ys)" and "\<not> in_use m ys" and "filter touches_timer ys = []"
  shows "wpm (emptyTimer E m pool after) mem (\<lambda>as r _. timer_pass m (ys @ as))"
  unfolding emptyTimer_def
proof (rule wpm_case_option, goal_cases)
  case 1
  then show ?case
    unfolding stampEmptySince_def client_defs
    by (intro wpm_outside)
      (auto intro!: wp_rules simp: timer_pass_start [OF _ assms(1,2,4), unfolded timed_def])
next
  case (2 t)
  have "emits aside (bind (outside (since E t)) (\<lambda>elapsed.
      if elapsed < after then (let wait = dur_sub after elapsed
        in ret (RequeueAfter (if wait < minConsolidateRequeue then minConsolidateRequeue else wait)))
      else triggerScaleDown E m pool after))"
    by (auto intro!: emits_rules aside_leaves aside_trigger)
  then show ?case
    by (rule emits_wpm) (use assms in \<open>simp add: timer_pass_def aside_filter in_use_aside\<close>)
qed

lemma pass_bind_aside:
  assumes "emits aside p" and "state_of m = Ready" and "\<And>v mem. wpm (f v) mem (\<lambda>as r _. timer_pass m as)"
  shows "wpm (bind p f) mem (\<lambda>as r _. timer_pass m as)"
proof (rule wpm_bind, rule emits_wpm [OF assms(1)], goal_cases)
  case (1 as r mem')
  then show ?case
    using wpm_mono [OF assms(3) timer_pass_aside [OF 1]] timer_pass_idle [OF 1 assms(2)] by (auto split: sum.splits)
qed

lemma pass_policy:
  assumes "state_of m = Ready"
  shows "wpm (applyPoolPolicy E m pools) mem (\<lambda>as r _. timer_pass m as)"
proof -
  note down = timer_standDown [of "[]", simplified]
  have one: "wpm (bind (outside (map_error g (nodeEmpty E (nodeName_of m)))) (\<lambda>empty.
      if \<not> empty then standDown E m else emptyTimer E m pool after)) mem (\<lambda>as r _. timer_pass m as)" for g pool after
    unfolding nodeEmpty_def
  proof (rule wpm_bind, rule wpm_outside, rule wp_map_error, rule wp_bind, rule wp_podsKeepingNodeOn, goal_cases)
    case 1
    then show ?case
      using pass_timer [OF assms, of "[]" E pool after mem] assms by (auto intro!: wp_ret simp: empty_seen_def in_use_def)
  next
    case (2 e)
    then show ?case using assms by (simp add: timer_pass_def in_use_def)
  next
    case (3 pods)
    let ?ys = "[ListPodsOnNode Cached (nodeName_of m) (Inr pods)]"
    show ?case
      using pass_timer [OF assms, of ?ys E pool after mem] timer_standDown [of ?ys E m mem] assms
      by (auto intro!: wp_ret simp: empty_seen_def in_use_def list_ex_iff filter_empty_conv)
  qed
  have hold: "wpm (bind (announceHold m ty reason msg) (\<lambda>_. standDown E m)) mem (\<lambda>as r _. timer_pass m as)" for ty reason msg
    by (rule pass_bind_aside [OF aside_leaves(4) assms down])
  let ?pool = "case pools of [] \<Rightarrow> None | p # _ \<Rightarrow> Some p"
  show ?thesis
    unfolding applyPoolPolicy_def Let_def
    by (cases ?pool; cases "consolidateAfter ?pool"; cases "snd (consolidateAfter ?pool)")
      (auto intro!: wpm_if hold down one)
qed

definition timer_run :: "string \<Rightarrow> action list \<Rightarrow> bool" where
  "timer_run name as \<longleftrightarrow> (\<exists>e. as = [GetMachine name (Inl e)]) \<or> (\<exists>m bs. as = GetMachine name (Inr m) # bs \<and> timer_pass m bs)"

lemma pass_reconcile: "wpm (scaleDownReconcile E name) mem (\<lambda>as r _. timer_run name as)"
proof (rule wpm_scaleDownReconcile, unfold scaleDownPass_def get_machine_def, rule wpm_bind, rule wpm_outside, rule wp_attempt,
    rule wp_call, goal_cases)
  case (1 e)
  show ?case by (auto intro!: wpm_rules simp: timer_run_def)
next
  case (2 m)
  note down = timer_standDown [of "[]", simplified]
  have "wpm (if state_of m \<noteq> Ready then standDown E m else if drainRequested m then ret NoRequeue
     else bind (outside (nodeDoNotDisrupt E (nodeName_of m))) (\<lambda>protected. if protected then standDown E m
       else bind (outside (nodeAlwaysOn E (nodeName_of m))) (\<lambda>alwaysOn. if alwaysOn then standDown E m
         else bind (outside (matchingPools E m)) (applyPoolPolicy E m)))) (mem\<lparr>sd_heldThisPass := False\<rparr>) (\<lambda>as r _. timer_pass m as)"
    by (intro wpm_if down wpm_ret pass_bind_aside emits_outside aside_leaves pass_policy)
      (simp_all add: timer_pass_def in_use_def)
  then show ?case unfolding sum.case by (rule wpm_mono) (simp add: timer_run_def)
qed

section \<open>A history\<close>

lemma timer_step_other: "\<not> touches_timer a \<Longrightarrow> timer_step a S = S \<and> reads_from S a"
  by (cases a) auto

lemma fold_timer_filter: "fold timer_step as S = fold timer_step (filter touches_timer as) S"
  by (induction as arbitrary: S) (simp_all add: timer_step_other)

lemma timer_kept_append: "timer_kept S (as @ bs) \<longleftrightarrow> timer_kept S as \<and> timer_kept (fold timer_step as S) bs"
  by (induction as arbitrary: S) auto

text \<open>Every value the timer may have is backed by the history.\<close>

definition backed :: "string \<Rightarrow> time option set \<Rightarrow> action list list \<Rightarrow> bool" where
  "backed name S hist \<longleftrightarrow> (\<forall>t. Some t \<in> S \<longrightarrow> idle_since name t hist)"

lemma idle_since_more:
  assumes "idle_since name t hist" and "saw_use name as \<longrightarrow> reset_failed as"
  shows "idle_since name t (hist @ [as])"
proof -
  from assms(1) obtain pre start mid where "hist @ [as] = pre @ start # mid @ [as]" "starts_timer name t start"
    "\<forall>bs\<in>set mid. saw_use name bs \<longrightarrow> reset_failed bs"
    unfolding idle_since_def by auto
  with assms(2) show ?thesis unfolding idle_since_def
    by (intro exI [of _ pre] exI [of _ start] exI [of _ "mid @ [as]"]) auto
qed

lemma idle_since_started: "starts_timer name t as \<Longrightarrow> idle_since name t (hist @ [as])"
  unfolding idle_since_def by (rule exI [of _ hist], rule exI [of _ as], rule exI [of _ "[]"]) simp

lemma saw_use_fetched:
  "filter touches_timer bs = xs \<Longrightarrow> (\<And>k r. GetMachine k r \<notin> set xs) \<Longrightarrow>
   saw_use name (GetMachine name (Inr m) # bs) \<longleftrightarrow> in_use m bs"
  by (force simp: saw_use_def in_use_def)

lemma backed_step:
  assumes "backed name S hist" and "timer_run name as" and "timer_kept S as"
  shows "backed name (fold timer_step as S) (hist @ [as])"
  using assms(2) unfolding timer_run_def
proof (elim disjE exE conjE)
  fix e assume "as = [GetMachine name (Inl e)]"
  with assms(1) show ?thesis by (auto simp: backed_def saw_use_def intro: idle_since_more)
next
  fix m bs assume as: "as = GetMachine name (Inr m) # bs" and pass: "timer_pass m bs"
  have old: "idle_since name t hist" if "timer_of m = Some t" for t
    using assms(1,3) that by (auto simp: backed_def as)
  have final: "fold timer_step as S = fold timer_step (filter touches_timer bs) {timer_of m}"
    unfolding as by (simp add: fold_timer_filter [of bs])
  consider (quiet) "filter touches_timer bs = []" "timer_of m = None \<or> \<not> in_use m bs"
    | (start) n r where "filter touches_timer bs = [PatchMachineStatus m (timed (Some n) m) r]" "timer_of m = None"
        "state_of m = Ready" "empty_seen (nodeName_of m) (set bs)" "ReadClock n \<in> set bs"
    | (reset) r where "filter touches_timer bs = [PatchMachineStatus m (timed None m) r]"
    using pass unfolding timer_pass_def by blast
  then show ?thesis
  proof cases
    case quiet
    then have "saw_use name as \<longrightarrow> timer_of m = None" by (auto simp: as saw_use_fetched)
    then show ?thesis using old by (auto simp: backed_def final quiet intro: idle_since_more)
  next
    case (start n r)
    have "PatchMachineStatus m (timed (Some n) m) r \<in> set bs" using arg_cong [OF start(1), of set] by auto
    then have "starts_timer name n as"
      unfolding starts_timer_def as
      using start(3-5) empty_seen_mono [of "nodeName_of m" "set bs" "set (GetMachine name (Inr m) # bs)"]
      by (intro exI [of _ m] exI [of _ r]) auto
    then show ?thesis by (cases r) (auto simp: backed_def final start(1,2) timed_def intro: idle_since_started)
  next
    case (reset r)
    have "PatchMachineStatus m (timed None m) r \<in> set as" using arg_cong [OF reset, of set] by (auto simp: as)
    then have "reset_failed as" if "r = Inl e" for e using that by (auto simp: reset_failed_def)
    then show ?thesis using old by (cases r) (auto simp: backed_def final reset timed_def intro: idle_since_more)
  qed
qed

lemma backed_history:
  assumes "\<forall>as\<in>set hist. timer_run name as" and "timer_kept {None} (concat hist)"
  shows "backed name (fold timer_step (concat hist) {None}) hist"
  using assms
proof (induction hist rule: rev_induct)
  case (snoc as hist)
  then show ?case using backed_step [of name "fold timer_step (concat hist) {None}" hist as] by (simp add: timer_kept_append)
qed (simp add: backed_def)

section \<open>The window\<close>

text \<open>C13. Scale-down drains only what no reconcile saw in use for the whole window. Take any sequence of reconciles of a Machine that starts
  with no timer, in which every read gives the timer that the reconciles before it left. If the last of them asks to drain,
  then it read the Machine as Ready and not asked to drain already, saw its Node neither with do-not-disrupt nor always-on,
  exactly one pool selects it, with policy \<^verbatim>\<open>WhenEmpty\<close> and a window, it listed no pod that keeps the Node on,
  and the clock it read is a full window past the timer; an earlier reconcile started that timer at the time it read, on a
  Node it saw empty; and no reconcile in between saw the Machine not Ready or a pod that keeps the Node on, unless its
  attempt to reset the timer failed.\<close>

theorem drain_after_idle_window:
  assumes "\<forall>as\<in>set (hist @ [asks]). \<exists>mem w. as = actions (scaleDownReconcile E name) (mem, w)"
    and "timer_kept {None} (concat (hist @ [asks]))" and "PatchMachine m m' r \<in> set asks"
  shows "m' = drained m \<and> (\<exists>pool t. idle_for (env_lib E) name m pool (set asks) \<and>
    st_emptySince (m_status m) = Some t \<and> idle_since name t hist)"
proof -
  have runs: "\<forall>as\<in>set (hist @ [asks]). timer_run name as" using assms(1) wpmD [OF pass_reconcile] by metis
  have kept: "timer_kept {None} (concat hist)" "timer_kept (fold timer_step (concat hist) {None}) asks"
    using assms(2) by (simp_all add: timer_kept_append)
  obtain mem w where asks: "asks = actions (scaleDownReconcile E name) (mem, w)" using assms(1) by auto
  from drain_gate [OF assms(3) [unfolded asks]] obtain pool where "m' = drained m" and idle: "idle_for (env_lib E) name m pool (set asks)"
    unfolding asks by blast
  moreover from idle obtain t where t: "st_emptySince (m_status m) = Some t" and get: "GetMachine name (Inr m) \<in> set asks"
    unfolding idle_for_def by blast
  moreover have "timer_of m \<in> fold timer_step (concat hist) {None}"
  proof -
    have "timer_run name asks" using runs by simp
    with get have "\<exists>bs. asks = GetMachine name (Inr m) # bs"
      unfolding timer_run_def using timer_pass_no_get by fastforce
    with kept(2) show ?thesis by auto
  qed
  ultimately show ?thesis using backed_history [OF _ kept(1)] runs by (auto simp: backed_def)
qed

text \<open>A Machine whose timer is started on an empty Node and that is drained later.\<close>

definition fresh_machine :: machine where
  "fresh_machine = timed None idle_machine"

definition fresh_world :: world where
  "fresh_world = idle_world\<lparr>w_now := 20, w_machines := [fresh_machine]\<rparr>"

theorem drain_after_idle_window_witness:
  "PatchMachine idle_machine (drained idle_machine) (Inr (drained idle_machine))
     \<in> set (actions (scaleDownReconcile store_env ''m'') (no_memory, idle_world)) \<and>
   idle_since ''m'' 20 [actions (scaleDownReconcile store_env ''m'') (no_memory, fresh_world)]"
proof -
  let ?start = "actions (scaleDownReconcile store_env ''m'') (no_memory, fresh_world)"
  let ?asks = "actions (scaleDownReconcile store_env ''m'') (no_memory, idle_world)"
  have runs: "\<forall>as\<in>set ([?start] @ [?asks]). \<exists>mem w. as = actions (scaleDownReconcile store_env ''m'') (mem, w)" by auto
  have kept: "timer_kept {None} (concat ([?start] @ [?asks]))" by code_simp
  have drain: "PatchMachine idle_machine (drained idle_machine) (Inr (drained idle_machine)) \<in> set ?asks" by code_simp
  have "st_emptySince (m_status idle_machine) = Some 20" by code_simp
  with drain_after_idle_window [OF runs kept drain] drain show ?thesis by auto
qed

end
