(* ===== verification/Spec2Isabelle.thy ===== *)
theory Spec2Isabelle
  imports Machine_Lifecycle Machine_Nodes Scale_Up_Safety Fit_Simulation Scale_Down_Safety Shutdown_Safety
    NodePool_Controller Admission System_History Machine_Termination Deep_Copy Watches Metrics
    Power_Cycle Command_Lines Idle_Window
begin

text \<open>
  A verification of on-prem-node-provisioner (ONP), a Kubernetes controller that powers bare-metal nodes on and off.

  \<^bold>\<open>The program.\<close> Four reconcilers run in \<^verbatim>\<open>onp-controller\<close>. The Machine reconciler drives one Machine
  through Off, Booting, Ready, Draining, ShuttingDown and Failed: it powers a host on through a power provider, waits
  for its Node, gives the Node the labels and taints of its pool, drains it and hands it to the power-off. The
  scale-up reconciler asks for a wake when a Pod cannot be scheduled and a simulation says that it would fit; the
  scale-down reconciler asks for a drain when a Node was empty long enough; both only set an annotation that the
  Machine reconciler obeys. The NodePool reconciler and the metrics collector count. Outside the controller,
  \<^verbatim>\<open>onp-wol-agent\<close> turns an HTTP request into a Wake-on-LAN packet and
  \<^verbatim>\<open>onp-shutdown-agent\<close> powers its own host off when the Machine of its node is ShuttingDown. The parts talk to
  each other through the API server and through that one HTTP endpoint.

  \<^bold>\<open>How programs are modelled.\<close> A Go function with effects is a program in the sense of \<open>Effects\<close>: it takes the
  outside world to its result, \<^term>\<open>Inl\<close> the returned error, and to the list of its interactions with their answers.
  \<open>Cluster\<close> has the interactions with the API server, the clock, the recorder and the metrics, and the helpers of the
  Kubernetes libraries as parameters; \<open>Process_Memory\<close> adds the struct fields that outlive a reconcile. Nothing is
  assumed about the answers, which may be stale, contradictory or errors at every call, unless a theorem says so. The
  theorems about a reconciler come from rules for the weakest precondition, one per combinator. \<open>Prelude\<close> has
  fixed-width integers and Go maps, \<open>Go_Text\<close>, \<open>Json\<close> and \<open>Flags\<close> what is used of the standard library on text and on
  command lines.

  \<^bold>\<open>Theories and sources.\<close>

  \<^item> \<open>Api_Types\<close>: \<^verbatim>\<open>api/v1alpha1\<close>; \<open>Guards\<close>: \<^verbatim>\<open>internal/controller/guards.go\<close>; \<open>Pools\<close>: membership,
    drain policy and \<^verbatim>\<open>mapping.go\<close>; \<open>Power_Provider\<close>: \<^verbatim>\<open>internal/power/provider.go\<close>.

  \<^item> \<open>Machine_Controller\<close>: \<^verbatim>\<open>machine_controller.go\<close>, one definition per method. \<open>Machine_Rights\<close> says what each method
    may touch; \<open>Machine_Safety\<close> has the gates of eviction, power-on and power-off; \<open>Machine_Lifecycle\<close> the transitions,
    the timer anchors, what follows a reconcile of a transient state and the budget of its polling; \<open>Machine_Termination\<close>
    that a sequence of such reconciles ends, and the one way in which its next step can be lost; \<open>Machine_Nodes\<close>
    what is written to Nodes and to metadata.

  \<^item> \<open>Fit\<close>: \<^verbatim>\<open>internal/scheduler/fit.go\<close>; \<open>Scale_Up\<close>: \<^verbatim>\<open>scaleup_controller.go\<close>. \<open>Scale_Up_Safety\<close> says what is woken
    and within which limits, \<open>Fit_Simulation\<close> compares the simulated Node with the real one.

  \<^item> \<open>Scale_Down\<close>: \<^verbatim>\<open>scaledown_controller.go\<close>, with \<open>Scale_Down_Safety\<close>: what is drained, within which limits, and that a
    hold is announced once. \<open>Idle_Window\<close> follows the empty timer through a history of reconciles: what is drained was
    seen empty when the timer was started and in use by no reconcile since that did not fail to reset it. \<open>Rate_Limit\<close> is the contract of the two cooldowns.

  \<^item> \<open>NodePool_Controller\<close>: \<^verbatim>\<open>nodepool_controller.go\<close> and \<^verbatim>\<open>metrics_collector.go\<close>.

  \<^item> \<open>Shutdown_Agent\<close> and \<open>Shutdown_Safety\<close>: \<^verbatim>\<open>internal/shutdownagent\<close>.

  \<^item> \<open>Wol\<close>, \<open>Wol_Client\<close>, \<open>Wol_Agent\<close>: \<^verbatim>\<open>internal/power/wol\<close>, \<^verbatim>\<open>internal/power/wolprovider.go\<close>,
    \<^verbatim>\<open>internal/agent\<close> and \<^verbatim>\<open>cmd/wol-probe\<close>; \<open>Commands\<close>: the commands from their arguments to what they run,
    \<^verbatim>\<open>internal/logging\<close> and the registration of the API types; \<open>Command_Lines\<close>: that the commands run with what their
    arguments and their environment say.
    \<open>Wake_Path\<close> composes them: what the agent lets through, and what a successful power-on has put on the wire.
    \<open>Admission\<close>: the validation and default markers of \<^verbatim>\<open>api/v1alpha1\<close>, what the controllers may rely on because
    of them, and the wake of an admitted Machine from its annotation to the network card.

  \<^item> \<open>Go_Memory\<close> and \<open>Deep_Copy\<close>: \<^verbatim>\<open>api/v1alpha1/zz_generated.deepcopy.go\<close> over an explicit memory with
    pointers, maps and slices. They show that a deep copy shares nothing with its original, which is what entitles the
    other theories to treat API objects as values.

  \<^item> \<open>Watches\<close>: the five \<^verbatim>\<open>SetupWithManager\<close>, and which changes reach which queue; \<open>Metrics\<close>:
    \<^verbatim>\<open>internal/metrics\<close> and the descriptors of the collector.

  \<^item> \<open>System_History\<close> composes the processes: in any interleaving of their reconciles, of which any may be cut short by
    a crash, a host is powered off only after the controller's guards.

  \<^item> \<open>Api_Server\<close> says what it is for an API server to serve every call, as a simulation by a reference server whose
    state is a plain value. \<open>Scale_Up_Spec\<close> and \<open>Scale_Down_Spec\<close> give the two scaling policies as functions of that
    state, a dozen lines each, and show that the reconcilers refine them: decision, writes, events, memory and requeue.
    \<open>Power_Cycle\<close> composes them with the Machine reconciler and the agents: an idle Node ends powered off, whatever time
    within the drain timeout passes between the reconciles, and a Pod that does not fit ends with a packet that wakes a host.

  \<^item> \<open>Reference_Store\<close> is a small API server on which the witnesses are evaluated.

  \<^bold>\<open>Interfaces.\<close> The locales \<open>one_shot\<close> (annotation triggers), \<open>evidence\<close> (actions that need grounds), \<open>outcome\<close> and
  \<open>wait_evidence\<close> (what a handler returns), \<open>copier\<close> (deep copies), \<open>weak_order\<close> (sorting), \<open>latch\<close> and \<open>keyed_latch\<close> (things done once per episode or message), \<open>rate_limit\<close> (cooldowns),
  \<open>implements\<close> (an API server that serves every call),
  \<open>admission\<close> (what the program reads from validated and defaulted objects),
  \<open>honest_provider\<close> (the contract of \<^verbatim>\<open>PowerProvider\<close>) and \<open>waker_contract\<close> (the contract of \<^verbatim>\<open>Waker\<close>) are each
  interpreted on the definitions of the program.

  \<^bold>\<open>Bounds.\<close> Durations wrap at 64 bits and counts of Machines at 32 bits as in Go; theorems that need it assume that
  nothing overflows. A line of \<^verbatim>\<open>/proc/stat\<close> is at most 64 KiB, the scanner's limit, and a wake request at
  most 4 KiB, which an address and a broadcast address of together 676 characters never exceed, however they are
  escaped. All loops are structural or have a termination proof; there is no fuel.

  \<^bold>\<open>Not modelled.\<close> Log lines and log encoding, HTTP listeners and how they keep their timeouts, leader election, the scheme itself: code
  of libraries, whose outcomes are parameters where the program looks at them. The floating-point product that a fraction
  of a unit in a duration comes to is a parameter of \<open>Flags\<close>. Conflicts of writes appear as errors that a call may return. What controller-runtime
  makes of the watches, and the copy functions of the Kubernetes types, are parameters with their documented behaviour as
  hypotheses. Text is modelled as bytes and is exact on ASCII; the replacement of invalid UTF-8 by the JSON decoder is
  not modelled.
\<close>

end
